theory Spec2Isabelle
  imports Complex_Main
begin

section \<open>Accidental layout: the data\<close>

text \<open>
  The TypeScript type \<open>number\<close> is modelled by \<^typ>\<open>real\<close>: stave lines, widths and
  pixel positions are reals, and the constants \<open>2.5\<close>, \<open>3.0\<close> and \<open>0.5\<close> of the source are
  the fractions \<open>5/2\<close>, \<open>3\<close> and \<open>1/2\<close>. Column numbers and counters are naturals.

  \<open>StaveLineAccidentalLayoutMetrics\<close> is the type of the same name in the accidental
  module: one entry per stave line that carries accidentals.
\<close>

record StaveLineAccidentalLayoutMetrics =
  column :: nat
  line :: real
  flatLine :: bool
  dblSharpLine :: bool
  numAcc :: nat
  width :: real

subsection \<open>Accidental.checkCollision\<close>

text \<open>
  The source starts from \<open>clearance = line2.line - line1.line\<close> and
  \<open>clearanceRequired = 3\<close>. In both branches it picks the required clearance from the
  line it takes to be on top and subtracts \<open>0.5\<close> from \<open>clearance\<close> when the other line
  is a double-sharp line; the result is \<open>Math.abs(clearance) < clearanceRequired\<close>.
\<close>

definition checkCollision ::
  "StaveLineAccidentalLayoutMetrics \<Rightarrow> StaveLineAccidentalLayoutMetrics \<Rightarrow> bool" where
  "checkCollision line1 line2 =
     (let clearance = line line2 - line line1 in
      if clearance > 0 then
        (let clearanceRequired = (if flatLine line2 \<or> dblSharpLine line2 then 5 / 2 else 3);
             clearance' = (if dblSharpLine line1 then clearance - 1 / 2 else clearance)
         in \<bar>clearance'\<bar> < clearanceRequired)
      else
        (let clearanceRequired = (if flatLine line1 \<or> dblSharpLine line1 then 5 / 2 else 3);
             clearance' = (if dblSharpLine line2 then clearance - 1 / 2 else clearance)
         in \<bar>clearance'\<bar> < clearanceRequired))"

text \<open>
  The collision rule in the words of the specification: the required clearance is \<open>3.0\<close>,
  \<open>2.5\<close> when the higher line is a flat-only or double-sharp-only line, and
  \<open>0.5\<close> less when the lower line is double-sharp-only; two lines collide when their
  absolute line difference is less than the required clearance, whichever of the two is
  given first.
\<close>

definition requiredClearance_spec ::
  "StaveLineAccidentalLayoutMetrics \<Rightarrow> StaveLineAccidentalLayoutMetrics \<Rightarrow> real" where
  "requiredClearance_spec higher lower =
     (if flatLine higher \<or> dblSharpLine higher then 5 / 2 else 3)
       - (if dblSharpLine lower then 1 / 2 else 0)"

definition collides_spec ::
  "StaveLineAccidentalLayoutMetrics \<Rightarrow> StaveLineAccidentalLayoutMetrics \<Rightarrow> bool" where
  "collides_spec line1 line2 =
     (if line line2 \<le> line line1
      then \<bar>line line1 - line line2\<bar> < requiredClearance_spec line1 line2
      else \<bar>line line1 - line line2\<bar> < requiredClearance_spec line2 line1)"


subsection \<open>Accidental.format: from the sorted accidentals to the columns\<close>

text \<open>
  \<open>Accidental.format\<close> first reads, for every accidental, its stave line and the extra
  space its note asks for from the note and the stave (classes that are not part of the
  sources at hand); the list \<open>accidentalLinePositionsAndSpaceNeeds\<close> it builds there is
  the input of the model. An accidental is its type code and its width.
\<close>

record Accidental =
  acc_type :: string
  acc_width :: real

record AccidentalLinePositionsAndXSpaceNeeds =
  pos_line :: real
  extraXSpaceNeeded :: real
  accidental :: Accidental

text \<open>
  The end cases are the string keys the source uses to select a layout: \<open>'a'\<close>,
  \<open>'b'\<close>, \<open>'secondOnBottom'\<close>, \<open>'spacedOutTetrachord'\<close> and so on.
  \<open>Tables.accidentalColumnsTable\<close> is not part of the sources at hand, so the layout
  takes the table as a parameter: \<open>table n e\<close> is \<open>accidentalColumnsTable[n][e]\<close>,
  \<open>None\<close> where the table has no such entry (the lookup then raises a \<open>TypeError\<close>).
  Where the entry is shorter than the group the source reads \<open>undefined\<close> as a column;
  the model stops with \<open>UndefinedColumn\<close> there. A \<open>RuntimeError\<close> carries the code
  and the message it is thrown with.
\<close>

datatype endCase = CaseA | CaseB | SecondOnBottom | SpacedOutTetrachord
  | SpacedOutPentachord | VerySpacedOutPentachord | SpacedOutHexachord | VerySpacedOutHexachord

type_synonym columnsTable = "nat \<Rightarrow> endCase \<Rightarrow> nat list option"

datatype error = TypeError | UndefinedColumn | RuntimeError string string


text \<open>
  The loop that builds one \<open>StaveLineAccidentalLayoutMetrics\<close> per distinct line: a new
  entry when there is no prior entry or the prior entry is on another line, otherwise
  the prior (last) entry is updated in place.
\<close>

definition newLineMetric :: "real \<Rightarrow> StaveLineAccidentalLayoutMetrics" where
  "newLineMetric l =
     \<lparr>column = 0, line = l, flatLine = True, dblSharpLine = True, numAcc = 0, width = 0\<rparr>"

definition addToLineMetric ::
  "real \<Rightarrow> AccidentalLinePositionsAndXSpaceNeeds \<Rightarrow> StaveLineAccidentalLayoutMetrics
     \<Rightarrow> StaveLineAccidentalLayoutMetrics" where
  "addToLineMetric accidentalSpacing p m =
     (let accidentalType = acc_type (accidental p) in
      m\<lparr>flatLine := (if accidentalType \<noteq> ''b'' \<and> accidentalType \<noteq> ''bb'' then False else flatLine m),
        dblSharpLine := (if accidentalType \<noteq> ''##'' then False else dblSharpLine m),
        numAcc := numAcc m + 1,
        width := width m + (acc_width (accidental p) + accidentalSpacing)\<rparr>)"

definition lineMetricStep ::
  "real \<Rightarrow> StaveLineAccidentalLayoutMetrics list \<Rightarrow> AccidentalLinePositionsAndXSpaceNeeds
     \<Rightarrow> StaveLineAccidentalLayoutMetrics list" where
  "lineMetricStep accidentalSpacing ms p =
     (if ms = [] \<or> line (last ms) \<noteq> pos_line p
      then ms @ [addToLineMetric accidentalSpacing p (newLineMetric (pos_line p))]
      else butlast ms @ [addToLineMetric accidentalSpacing p (last ms)])"

definition buildLineMetrics ::
  "real \<Rightarrow> AccidentalLinePositionsAndXSpaceNeeds list \<Rightarrow> StaveLineAccidentalLayoutMetrics list" where
  "buildLineMetrics accidentalSpacing ps = foldl (lineMetricStep accidentalSpacing) [] ps"


text \<open>
  The inner \<open>while\<close> loop that extends a group while the note at \<open>groupEnd\<close> conflicts
  with the next one.
\<close>

function findGroupEnd :: "StaveLineAccidentalLayoutMetrics list \<Rightarrow> nat \<Rightarrow> nat" where
  "findGroupEnd ms groupEnd =
     (if groupEnd + 1 < length ms \<and> checkCollision (ms ! groupEnd) (ms ! (groupEnd + 1))
      then findGroupEnd ms (groupEnd + 1) else groupEnd)"
  by pat_completeness auto
termination
  by (relation "measure (\<lambda>(ms, groupEnd). length ms - groupEnd)") auto

declare findGroupEnd.simps [simp del]

text \<open>
  \<open>lineDifference\<close>, \<open>notColliding\<close> and the \<open>switch\<close> on the group length that refines
  the end case. For a group of six the second \<open>if\<close> overrides the first.
\<close>

definition lineDifference :: "StaveLineAccidentalLayoutMetrics list \<Rightarrow> nat \<Rightarrow> nat \<Rightarrow> nat \<Rightarrow> real" where
  "lineDifference ms groupStart indexA indexB =
     line (ms ! (groupStart + indexA)) - line (ms ! (groupStart + indexB))"

definition notColliding ::
  "StaveLineAccidentalLayoutMetrics list \<Rightarrow> nat \<Rightarrow> (nat \<times> nat) list \<Rightarrow> bool" where
  "notColliding ms groupStart indexPairs =
     list_all (\<lambda>(a, b). \<not> checkCollision (ms ! (groupStart + a)) (ms ! (groupStart + b))) indexPairs"

definition groupEndCase :: "StaveLineAccidentalLayoutMetrics list \<Rightarrow> nat \<Rightarrow> nat \<Rightarrow> endCase" where
  "groupEndCase ms groupStart groupEnd =
     (let groupLength = groupEnd - groupStart + 1;
          endCase = (if checkCollision (ms ! groupStart) (ms ! groupEnd) then CaseA else CaseB)
      in if groupLength = 3 then
           (if endCase = CaseA \<and> lineDifference ms groupStart 1 2 = 1 / 2
                \<and> lineDifference ms groupStart 0 1 \<noteq> 1 / 2
            then SecondOnBottom else endCase)
         else if groupLength = 4 then
           (if notColliding ms groupStart [(0, 2), (1, 3)] then SpacedOutTetrachord else endCase)
         else if groupLength = 5 then
           (if endCase = CaseB \<and> notColliding ms groupStart [(1, 3)]
            then (if notColliding ms groupStart [(0, 2), (2, 4)]
                  then VerySpacedOutPentachord else SpacedOutPentachord)
            else endCase)
         else if groupLength = 6 then
           (let endCase' = (if notColliding ms groupStart [(0, 3), (1, 4), (2, 5)]
                            then SpacedOutHexachord else endCase)
            in if notColliding ms groupStart [(0, 2), (2, 4), (1, 3), (3, 5)]
               then VerySpacedOutHexachord else endCase')
         else endCase)"

text \<open>
  For seven lines or more: the smallest pattern length from 2 on at which no line of the
  whole list collides with the line \<open>patternLength\<close> places further down.
\<close>

function findPatternLength :: "StaveLineAccidentalLayoutMetrics list \<Rightarrow> nat \<Rightarrow> nat" where
  "findPatternLength ms patternLength =
     (if list_ex (\<lambda>l. checkCollision (ms ! l) (ms ! (l + patternLength)))
           [0 ..< length ms - patternLength]
      then findPatternLength ms (patternLength + 1) else patternLength)"
  by pat_completeness auto
termination
  by (relation "measure (\<lambda>(ms, patternLength). length ms - patternLength)")
     (auto simp: list_ex_iff)

declare findPatternLength.simps [simp del]

text \<open>
  The \<open>for\<close> loop over the group members, which stores the column of each member and
  keeps the largest column seen in \<open>totalColumns\<close>; \<open>columnOf\<close> is the column of the
  member at a given position within the group.
\<close>

fun setColumns ::
  "(nat \<Rightarrow> nat) \<Rightarrow> nat \<Rightarrow> nat list \<Rightarrow> StaveLineAccidentalLayoutMetrics list \<times> nat
     \<Rightarrow> StaveLineAccidentalLayoutMetrics list \<times> nat" where
  "setColumns columnOf i [] (ms, totalColumns) = (ms, totalColumns)"
| "setColumns columnOf i (groupMember # rest) (ms, totalColumns) =
     (let col = columnOf (groupMember - i)
      in setColumns columnOf i rest
           (ms[groupMember := (ms ! groupMember)\<lparr>column := col\<rparr>],
            if totalColumns > col then totalColumns else col))"

definition groupColumns ::
  "columnsTable \<Rightarrow> StaveLineAccidentalLayoutMetrics list \<Rightarrow> nat \<Rightarrow> nat
     \<Rightarrow> error + (nat \<Rightarrow> nat)" where
  "groupColumns table ms i groupEnd =
     (let groupLength = groupEnd - i + 1;
          endCase = groupEndCase ms i groupEnd
      in if groupLength \<ge> 7 then
           (let patternLength = findPatternLength ms 2
            in Inr (\<lambda>k. k mod patternLength + 1))
         else
           (case table groupLength endCase of
              None \<Rightarrow> Inl TypeError
            | Some cols \<Rightarrow>
                if length cols < groupLength then Inl UndefinedColumn
                else Inr (\<lambda>k. cols ! k)))"

text \<open>
  The outer loop over the groups: \<open>i\<close> continues after the end of the group just set.
\<close>

function layoutGroups ::
  "columnsTable \<Rightarrow> nat \<Rightarrow> StaveLineAccidentalLayoutMetrics list \<times> nat
     \<Rightarrow> error + StaveLineAccidentalLayoutMetrics list \<times> nat" where
  "layoutGroups table i (ms, totalColumns) =
     (if i < length ms then
        (let groupEnd = findGroupEnd ms i
         in case groupColumns table ms i groupEnd of
              Inl e \<Rightarrow> Inl e
            | Inr columnOf \<Rightarrow>
                layoutGroups table (groupEnd + 1)
                  (setColumns columnOf i [i ..< groupEnd + 1] (ms, totalColumns)))
      else Inr (ms, totalColumns))"
  by pat_completeness auto

termination
proof (relation "measure (\<lambda>(table, i, st). length (fst st) - i)", goal_cases)
  case 1
  show ?case by simp
next
  case (2 table i ms totalColumns groupEnd columnOf)
  have len: "length (fst (setColumns columnOf i ks st)) = length (fst st)" for ks st
    by (induction columnOf i ks st rule: setColumns.induct) (auto simp: Let_def)
  have ge: "g \<le> findGroupEnd ms' g" for ms' g
  proof (induction ms' g rule: findGroupEnd.induct)
    case (1 ms' g)
    show ?case
    proof (cases "g + 1 < length ms' \<and> checkCollision (ms' ! g) (ms' ! (g + 1))")
      case True
      then have "findGroupEnd ms' g = findGroupEnd ms' (g + 1)"
        by (subst findGroupEnd.simps) simp
      with 1[OF True] show ?thesis by simp
    next
      case False
      then have "findGroupEnd ms' g = g"
        by (subst findGroupEnd.simps) auto
      then show ?thesis by simp
    qed
  qed
  from 2 ge[of i ms] show ?case by (simp add: len)
qed

declare layoutGroups.simps [simp del]

text \<open>
  \<open>Accidental.format\<close> from the sort by descending line to the end of the column
  loop. With no accidentals it returns at once. The part of \<open>format\<close> that follows turns
  the columns into x shifts and leaves the layout entries as they are.
\<close>

definition formatColumns ::
  "columnsTable \<Rightarrow> real \<Rightarrow> AccidentalLinePositionsAndXSpaceNeeds list
     \<Rightarrow> error + StaveLineAccidentalLayoutMetrics list \<times> nat" where
  "formatColumns table accidentalSpacing ps =
     (if ps = [] then Inr ([], 0)
      else layoutGroups table 0
             (buildLineMetrics accidentalSpacing (sort_key (\<lambda>p. - pos_line p) ps), 0))"


text \<open>
  Modelled from the spec: \<open>Tables.accidentalColumnsTable\<close> (\<open>tables.ts\<close> is not among
  the sources). The specification describes it as a fixed lookup table of canonical
  column layouts for groups of at most six lines, keyed by group size and end case, and
  does not list its entries. The entries below are the classic layouts (outer lines in
  column 1, the middle of the group farthest left): one table of the described shape,
  used where a concrete table is needed.
\<close>

definition accidentalColumnsTable :: columnsTable where
  "accidentalColumnsTable n e =
     (if n = 1 then (if e = CaseA \<or> e = CaseB then Some [1] else None)
      else if n = 2 then (if e = CaseA then Some [1, 2] else None)
      else if n = 3 then
        (case e of CaseA \<Rightarrow> Some [1, 3, 2] | CaseB \<Rightarrow> Some [1, 2, 1]
         | SecondOnBottom \<Rightarrow> Some [1, 2, 3] | _ \<Rightarrow> None)
      else if n = 4 then
        (case e of CaseA \<Rightarrow> Some [1, 3, 4, 2] | CaseB \<Rightarrow> Some [1, 2, 3, 1]
         | SpacedOutTetrachord \<Rightarrow> Some [1, 2, 1, 2] | _ \<Rightarrow> None)
      else if n = 5 then
        (case e of CaseA \<Rightarrow> Some [1, 3, 5, 4, 2] | CaseB \<Rightarrow> Some [1, 2, 4, 3, 1]
         | SpacedOutPentachord \<Rightarrow> Some [1, 2, 3, 2, 1]
         | VerySpacedOutPentachord \<Rightarrow> Some [1, 2, 1, 2, 1] | _ \<Rightarrow> None)
      else if n = 6 then
        (case e of CaseA \<Rightarrow> Some [1, 3, 5, 6, 4, 2] | CaseB \<Rightarrow> Some [1, 2, 4, 5, 3, 1]
         | SpacedOutHexachord \<Rightarrow> Some [1, 3, 2, 1, 3, 2]
         | VerySpacedOutHexachord \<Rightarrow> Some [1, 2, 1, 2, 1, 2] | _ \<Rightarrow> None)
      else None)"


subsection \<open>Predicates on the layout\<close>

text \<open>
  A line is a multiple of half a stave line; with a stave \<open>format\<close> rounds every line to
  such a value (\<open>Math.round((y / lineSpace) * 2) / 2\<close>).
\<close>

definition halfLine :: "real \<Rightarrow> bool" where
  "halfLine l = (2 * l \<in> \<int>)"

definition descendingLines :: "StaveLineAccidentalLayoutMetrics list \<Rightarrow> bool" where
  "descendingLines ms = (\<forall>a b. a < b \<and> b < length ms \<longrightarrow> line (ms ! b) < line (ms ! a))"

definition halfLines :: "StaveLineAccidentalLayoutMetrics list \<Rightarrow> bool" where
  "halfLines ms = (\<forall>k < length ms. halfLine (line (ms ! k)))"


text \<open>
  What the refinement of the end case has established for a group: for each group size
  up to six and each end case that the \<open>switch\<close> can produce at that size, the pairs of
  positions in the group whose lines are known not to collide. A table fits the
  classification when each of these entries exists, has one column per line of the
  group, and repeats a column only at such a pair.
\<close>

definition classifiedGroups :: "(nat \<times> endCase \<times> (nat \<times> nat) list) list" where
  "classifiedGroups =
     [(1, CaseA, []),
      (2, CaseA, []),
      (3, CaseA, []), (3, CaseB, [(0, 2)]), (3, SecondOnBottom, []),
      (4, CaseA, []), (4, CaseB, [(0, 3)]), (4, SpacedOutTetrachord, [(0, 2), (1, 3)]),
      (5, CaseA, []), (5, CaseB, [(0, 4)]), (5, SpacedOutPentachord, [(0, 4), (1, 3)]),
      (5, VerySpacedOutPentachord, [(0, 4), (1, 3), (0, 2), (2, 4)]),
      (6, CaseA, []), (6, CaseB, [(0, 5)]), (6, SpacedOutHexachord, [(0, 3), (1, 4), (2, 5)]),
      (6, VerySpacedOutHexachord, [(0, 2), (2, 4), (1, 3), (3, 5), (0, 4), (1, 5)])]"

definition repeatsOnlyAt :: "nat list \<Rightarrow> (nat \<times> nat) list \<Rightarrow> bool" where
  "repeatsOnlyAt cols ps =
     list_all (\<lambda>q. list_all (\<lambda>p. cols ! p = cols ! q \<longrightarrow> (p, q) \<in> set ps) [0 ..< q])
       [0 ..< length cols]"

definition table_ok :: "columnsTable \<Rightarrow> bool" where
  "table_ok table =
     list_all (\<lambda>(n, e, ps).
        case table n e of None \<Rightarrow> False
        | Some cols \<Rightarrow> length cols = n \<and> repeatsOnlyAt cols ps) classifiedGroups"

definition columnsClear :: "StaveLineAccidentalLayoutMetrics list \<Rightarrow> nat \<Rightarrow> bool" where
  "columnsClear ms n =
     (\<forall>a b. a < b \<and> b < n \<and> b < length ms \<and> checkCollision (ms ! a) (ms ! b)
        \<longrightarrow> column (ms ! a) \<noteq> column (ms ! b))"


section \<open>Formatter: the data\<close>

text \<open>
  Where the source divides by a count or a mean that can be zero, JavaScript yields
  \<open>NaN\<close> or an infinity, not an error; the model keeps such results apart from the
  reals. Signed zeros are not distinguished. Only the operations the formatter applies
  to such values are defined: a division, \<open>Math.max\<close>, a product and a sum.
\<close>

datatype jsnum = Fin real | PInf | NInf | NaN

definition js_div :: "real \<Rightarrow> real \<Rightarrow> jsnum" where
  "js_div a b =
     (if b \<noteq> 0 then Fin (a / b)
      else if a > 0 then PInf else if a < 0 then NInf else NaN)"

fun js_max :: "jsnum \<Rightarrow> jsnum \<Rightarrow> jsnum" where
  "js_max NaN _ = NaN"
| "js_max _ NaN = NaN"
| "js_max PInf _ = PInf"
| "js_max _ PInf = PInf"
| "js_max NInf b = b"
| "js_max a NInf = a"
| "js_max (Fin a) (Fin b) = Fin (max a b)"

fun js_times :: "jsnum \<Rightarrow> real \<Rightarrow> jsnum" where
  "js_times NaN _ = NaN"
| "js_times (Fin a) b = Fin (a * b)"
| "js_times PInf b = (if b > 0 then PInf else if b < 0 then NInf else NaN)"
| "js_times NInf b = (if b > 0 then NInf else if b < 0 then PInf else NaN)"

fun js_plus :: "real \<Rightarrow> jsnum \<Rightarrow> jsnum" where
  "js_plus a (Fin b) = Fin (a + b)"
| "js_plus a PInf = PInf"
| "js_plus a NInf = NInf"
| "js_plus a NaN = NaN"

text \<open>
  The option \<open>maxIterations\<close> is a \<open>number\<close> that the constructor takes as it is given,
  so the counter of the justification loop can be a fraction, an infinity or \<open>NaN\<close>. The
  loop compares it with \<open>iterations > 0\<close> and \<open>iterations > 1\<close> and counts it down with
  \<open>iterations--\<close>: a comparison with \<open>NaN\<close> is false, and an infinity less one is that
  infinity.
\<close>

fun js_greater :: "jsnum \<Rightarrow> real \<Rightarrow> bool" where
  "js_greater (Fin a) b = (a > b)"
| "js_greater PInf b = True"
| "js_greater NInf b = False"
| "js_greater NaN b = False"

fun js_decrement :: "jsnum \<Rightarrow> jsnum" where
  "js_decrement (Fin a) = Fin (a - 1)"
| "js_decrement PInf = PInf"
| "js_decrement NInf = NInf"
| "js_decrement NaN = NaN"

text \<open>
  Modelled from the spec: the class \<open>Fraction\<close> (not among the sources), a numerator
  and a denominator that is not zero. \<open>value()\<close> is the quotient, \<open>equals\<close> compares
  cross-multiplied numerators, \<open>LCM\<close> is the least common multiple, \<open>add\<close> is the exact
  sum over the least common multiple of the denominators (so that an accumulator over
  the common resolution keeps that denominator), and \<open>simplify\<close> reduces by the
  greatest common divisor with a positive denominator. \<open>durationKey\<close> stands for the
  string \<open>ticks.clone().simplify().toString()\<close> that keys the duration statistics.
\<close>

record Fraction =
  numerator :: int
  denominator :: int

definition Fraction_value :: "Fraction \<Rightarrow> real" where
  "Fraction_value f = real_of_int (numerator f) / real_of_int (denominator f)"

definition Fraction_equals :: "Fraction \<Rightarrow> Fraction \<Rightarrow> bool" where
  "Fraction_equals a b = (numerator a * denominator b = numerator b * denominator a)"

definition Fraction_LCM :: "int \<Rightarrow> int \<Rightarrow> int" where
  "Fraction_LCM a b = lcm a b"

definition Fraction_add :: "Fraction \<Rightarrow> Fraction \<Rightarrow> Fraction" where
  "Fraction_add a b =
     (let l = Fraction_LCM (denominator a) (denominator b)
      in \<lparr>numerator = numerator a * (l div denominator a) + numerator b * (l div denominator b),
          denominator = l\<rparr>)"

definition Fraction_simplify :: "Fraction \<Rightarrow> Fraction" where
  "Fraction_simplify f =
     (let g = gcd (numerator f) (denominator f);
          u = numerator f div g; d = denominator f div g
      in if d < 0 then \<lparr>numerator = - u, denominator = - d\<rparr>
         else \<lparr>numerator = u, denominator = d\<rparr>)"

definition durationKey :: "Fraction \<Rightarrow> int \<times> int" where
  "durationKey f = (let g = Fraction_simplify f in (numerator g, denominator g))"

text \<open>
  Modelled from the spec: \<open>Tickable\<close> (not among the sources): its duration in ticks,
  its assigned x, its stave, the metrics \<open>getMetrics()\<close> reports once the tickable is
  pre-formatted (intrinsic width, notehead width, space for modifiers and displaced
  heads on either side), and the record of formatter metrics. Tickables are objects
  that voices and tick contexts share, so a formatter state holds a store from object
  identities (naturals) to tickables, and voices and contexts hold identities.
\<close>

record TickableMetrics =
  tm_width :: real
  tm_notePx :: real
  tm_modLeftPx :: real
  tm_modRightPx :: real
  tm_leftDisplacedHeadPx :: real
  tm_rightDisplacedHeadPx :: real

record FormatterMetrics =
  freedom_left :: real
  freedom_right :: real
  space_used :: real
  space_mean :: real
  space_deviation :: real
  fm_duration :: "int \<times> int"
  iterations :: nat

record Tickable =
  ticks :: Fraction
  tk_x :: real
  tk_stave :: "nat option"
  tk_metrics :: TickableMetrics
  tk_formatterMetrics :: FormatterMetrics

text \<open>
  Modelled from the spec: \<open>Voice\<close> (not among the sources): the declared total ticks,
  the ticks used so far, the mode, the tickables in order, the voice's own resolution
  multiplier and its softmax factor. \<open>isComplete()\<close>: ticks used equals the declared
  total, by exact comparison.
\<close>

datatype VoiceMode = STRICT | SOFT | FULL

record Voice =
  totalTicks :: Fraction
  ticksUsed :: Fraction
  mode :: VoiceMode
  tickables :: "nat list"
  voiceResolutionMultiplier :: int
  voiceSoftmaxFactor :: real

definition isComplete :: "Voice \<Rightarrow> bool" where
  "isComplete voice = Fraction_equals (ticksUsed voice) (totalTicks voice)"

text \<open>
  Modelled from the spec: \<open>TickContext\<close> (not among the sources): the tickables that
  start at one tick, each with the index of its voice, the x of the slot, and the
  aggregated metrics. \<open>preFormat()\<close> takes for the width and for the left and right
  totals the maximum over the tickables of the context, starting from 0.
\<close>

record TickContext =
  tickID :: int
  tc_tickables :: "(nat \<times> nat) list"
  tc_x :: real
  tc_width :: real
  tc_notePx :: real
  tc_totalLeftPx :: real
  tc_totalRightPx :: real
  tc_freedom_left :: real
  tc_freedom_right :: real

definition newTickContext :: "int \<Rightarrow> TickContext" where
  "newTickContext t =
     \<lparr>tickID = t, tc_tickables = [], tc_x = 0, tc_width = 0, tc_notePx = 0,
      tc_totalLeftPx = 0, tc_totalRightPx = 0, tc_freedom_left = 0, tc_freedom_right = 0\<rparr>"

definition getTickables :: "TickContext \<Rightarrow> nat list" where
  "getTickables context = map snd (tc_tickables context)"

definition addTickable :: "nat \<Rightarrow> nat \<Rightarrow> TickContext \<Rightarrow> TickContext" where
  "addTickable tickable voiceIndex context =
     context\<lparr>tc_tickables := tc_tickables context @ [(voiceIndex, tickable)]\<rparr>"

definition TickContext_preFormat :: "(nat \<Rightarrow> Tickable) \<Rightarrow> TickContext \<Rightarrow> TickContext" where
  "TickContext_preFormat store context =
     (let ms = map (\<lambda>t. tk_metrics (store t)) (getTickables context)
      in context\<lparr>
           tc_width := foldl max 0 (map tm_width ms),
           tc_notePx := foldl max 0 (map tm_notePx ms),
           tc_totalLeftPx := foldl max 0 (map (\<lambda>m. tm_modLeftPx m + tm_leftDisplacedHeadPx m) ms),
           tc_totalRightPx := foldl max 0 (map (\<lambda>m. tm_modRightPx m + tm_rightDisplacedHeadPx m) ms)\<rparr>)"

text \<open>
  \<open>AlignmentTickContexts\<close>: \<open>list\<close> holds the ticks, \<open>map\<close> the context of each tick.
  \<open>array\<close> holds the same context objects in the order of their creation; the model
  keeps their ticks, the objects themselves are the entries of \<open>map\<close>. An
  \<open>AlignmentModifierContexts\<close> has one modifier context per stave and tick, in the
  order of creation, here with the tickables added to it.
\<close>

record AlignmentTickContexts =
  tc_list :: "int list"
  tc_map :: "int \<rightharpoonup> TickContext"
  tc_array :: "int list"
  resolutionMultiplier :: int

record AlignmentModifierContexts =
  mc_map :: "((nat option \<times> int) \<times> nat list) list"
  mc_resolutionMultiplier :: int

text \<open>
  The fields of a \<open>Formatter\<close>; \<open>formatterOptions\<close> is flattened into its three
  options, \<open>contextGaps\<close> into its two parts, and \<open>store\<close> holds the tickable objects
  the voices and contexts refer to.
\<close>

record DurationStats =
  ds_mean :: real
  ds_count :: nat
  ds_total :: real

record Formatter =
  hasMinTotalWidth :: bool
  minTotalWidth :: real
  contextGaps_total :: real
  contextGaps_gaps :: "(real \<times> real) list"
  justifyWidth :: real
  totalCost :: real
  totalShift :: real
  tickContexts :: AlignmentTickContexts
  globalSoftmax :: bool
  softmaxFactor :: real
  maxIterations :: jsnum
  modifierContexts :: "AlignmentModifierContexts list"
  voices :: "Voice list"
  lossHistory :: "real list"
  durationStats :: "int \<times> int \<rightharpoonup> DurationStats"
  store :: "nat \<Rightarrow> Tickable"

section \<open>Formatter: the operations\<close>

text \<open>
  The constructor: the options given override the defaults, \<open>maxIterations\<close> 5 among
  them. \<open>Tables.SOFTMAX_FACTOR\<close> and the values of \<open>Metrics.get\<close> are constants of
  modules that are not among the sources; they are parameters (\<open>stavePadding\<close> is
  \<open>Stave.padding\<close>).
\<close>

record FormatterOptions =
  opt_softmaxFactor :: "real option"
  opt_globalSoftmax :: "bool option"
  opt_maxIterations :: "jsnum option"

record Metrics =
  unalignedNotePadding :: real
  endPaddingMin :: real
  endPaddingMax :: real
  stavePadding :: real

definition emptyTickContexts :: AlignmentTickContexts where
  "emptyTickContexts = \<lparr>tc_list = [], tc_map = Map.empty, tc_array = [], resolutionMultiplier = 0\<rparr>"

definition newFormatter :: "real \<Rightarrow> FormatterOptions \<Rightarrow> (nat \<Rightarrow> Tickable) \<Rightarrow> Formatter" where
  "newFormatter SOFTMAX_FACTOR options objects =
     \<lparr>hasMinTotalWidth = False,
      minTotalWidth = 0,
      contextGaps_total = 0,
      contextGaps_gaps = [],
      justifyWidth = 0,
      totalCost = 0,
      totalShift = 0,
      tickContexts = emptyTickContexts,
      globalSoftmax = (case opt_globalSoftmax options of None \<Rightarrow> False | Some b \<Rightarrow> b),
      softmaxFactor = (case opt_softmaxFactor options of None \<Rightarrow> SOFTMAX_FACTOR | Some f \<Rightarrow> f),
      maxIterations = (case opt_maxIterations options of None \<Rightarrow> Fin 5 | Some n \<Rightarrow> n),
      modifierContexts = [],
      voices = [],
      lossHistory = [],
      durationStats = Map.empty,
      store = objects\<rparr>"

text \<open>
  \<open>Formatter.getResolutionMultiplier\<close>: the \<open>reduce\<close> over the voices checks, for each
  voice in turn, first the total ticks against those of the first voice and then the
  completeness of a \<open>STRICT\<close> voice.
\<close>

fun resolutionReduce :: "Fraction \<Rightarrow> int \<Rightarrow> Voice list \<Rightarrow> error + int" where
  "resolutionReduce firstTotal accumulator [] = Inr accumulator"
| "resolutionReduce firstTotal accumulator (voice # rest) =
     (if \<not> Fraction_equals (totalTicks voice) firstTotal
      then Inl (RuntimeError ''TickMismatch''
                  ''Voices should have same total note duration in ticks.'')
      else if mode voice = STRICT \<and> \<not> isComplete voice
      then Inl (RuntimeError ''IncompleteVoice'' ''Voice does not have enough notes.'')
      else resolutionReduce firstTotal
             (max accumulator (Fraction_LCM accumulator (voiceResolutionMultiplier voice))) rest)"

definition getResolutionMultiplier :: "Voice list \<Rightarrow> error + int" where
  "getResolutionMultiplier vs =
     (case vs of
        [] \<Rightarrow> Inl (RuntimeError ''BadArgument'' ''No voices to format'')
      | first # _ \<Rightarrow> resolutionReduce (totalTicks first) 1 vs)"

text \<open>
  \<open>Formatter.createTickContexts\<close>. With no voices it returns the empty record and leaves
  the formatter as it is. Otherwise each voice is walked with a tick accumulator over
  the common resolution; a context is created for a tick that has none yet.
\<close>

type_synonym tickMaps = "(int \<rightharpoonup> TickContext) \<times> int list \<times> int list"

fun addVoiceTickables ::
  "(nat \<Rightarrow> Tickable) \<Rightarrow> nat \<Rightarrow> nat list \<Rightarrow> Fraction \<Rightarrow> tickMaps \<Rightarrow> tickMaps" where
  "addVoiceTickables objects voiceIndex [] used maps = maps"
| "addVoiceTickables objects voiceIndex (tickable # rest) used
       (tickToContextMap, tickList, contextArray) =
     (let integerTicks = numerator used;
          (tickToContextMap', tickList', contextArray') =
            (case tickToContextMap integerTicks of
               None \<Rightarrow> (tickToContextMap(integerTicks \<mapsto> newTickContext integerTicks),
                         tickList @ [integerTicks], contextArray @ [integerTicks])
             | Some _ \<Rightarrow> (tickToContextMap, tickList, contextArray));
          tickToContextMap'' =
            (case tickToContextMap' integerTicks of
               None \<Rightarrow> tickToContextMap'
             | Some tickContext \<Rightarrow>
                 tickToContextMap'(integerTicks \<mapsto> addTickable tickable voiceIndex tickContext))
      in addVoiceTickables objects voiceIndex rest
           (Fraction_add used (ticks (objects tickable)))
           (tickToContextMap'', tickList', contextArray'))"

fun addVoices ::
  "(nat \<Rightarrow> Tickable) \<Rightarrow> int \<Rightarrow> nat \<Rightarrow> Voice list \<Rightarrow> tickMaps \<Rightarrow> tickMaps" where
  "addVoices objects resolution voiceIndex [] maps = maps"
| "addVoices objects resolution voiceIndex (voice # rest) maps =
     addVoices objects resolution (voiceIndex + 1) rest
       (addVoiceTickables objects voiceIndex (tickables voice)
          \<lparr>numerator = 0, denominator = resolution\<rparr> maps)"

definition createTickContexts ::
  "Voice list \<Rightarrow> Formatter \<Rightarrow> error + AlignmentTickContexts \<times> Formatter" where
  "createTickContexts vs s =
     (if length vs = 0 then Inr (emptyTickContexts, s)
      else
        (case getResolutionMultiplier vs of
           Inl e \<Rightarrow> Inl e
         | Inr resolution \<Rightarrow>
             (let (tickToContextMap, tickList, contextArray) =
                    addVoices (store s) resolution 0 vs (Map.empty, [], []);
                  contexts = \<lparr>tc_list = sort tickList, tc_map = tickToContextMap,
                              tc_array = contextArray, resolutionMultiplier = resolution\<rparr>
              in Inr (contexts, s\<lparr>tickContexts := contexts\<rparr>))))"

text \<open>
  \<open>Formatter.createModifierContexts\<close> and \<open>joinVoices\<close>.
\<close>

type_synonym staveTickMap = "((nat option \<times> int) \<times> nat list) list"

fun addToModifierContext :: "nat option \<times> int \<Rightarrow> nat \<Rightarrow> staveTickMap \<Rightarrow> staveTickMap" where
  "addToModifierContext key tickable [] = [(key, [tickable])]"
| "addToModifierContext key tickable ((k, members) # rest) =
     (if k = key then (k, members @ [tickable]) # rest
      else (k, members) # addToModifierContext key tickable rest)"

fun addVoiceModifiers ::
  "(nat \<Rightarrow> Tickable) \<Rightarrow> nat list \<Rightarrow> Fraction \<Rightarrow> staveTickMap \<Rightarrow> staveTickMap" where
  "addVoiceModifiers objects [] used contexts = contexts"
| "addVoiceModifiers objects (tickable # rest) used contexts =
     (let integerTicks = numerator used
      in addVoiceModifiers objects rest
           (Fraction_add used (ticks (objects tickable)))
           (addToModifierContext (tk_stave (objects tickable), integerTicks) tickable contexts))"

definition createModifierContexts :: "Voice list \<Rightarrow> Formatter \<Rightarrow> error + Formatter" where
  "createModifierContexts vs s =
     (if length vs = 0 then Inr s
      else
        (case getResolutionMultiplier vs of
           Inl e \<Rightarrow> Inl e
         | Inr resolution \<Rightarrow>
             (let contexts =
                    foldl (\<lambda>contexts voice.
                             addVoiceModifiers (store s) (tickables voice)
                               \<lparr>numerator = 0, denominator = resolution\<rparr> contexts)
                      [] vs
              in Inr (s\<lparr>modifierContexts := modifierContexts s
                         @ [\<lparr>mc_map = contexts, mc_resolutionMultiplier = resolution\<rparr>]\<rparr>))))"

definition joinVoices :: "Voice list \<Rightarrow> Formatter \<Rightarrow> error + Formatter" where
  "joinVoices vs s =
     (case createModifierContexts vs s of
        Inl e \<Rightarrow> Inl e
      | Inr s' \<Rightarrow> Inr (s'\<lparr>hasMinTotalWidth := False\<rparr>))"

text \<open>
  \<open>Formatter.getMinTotalWidth\<close>.
\<close>

definition getMinTotalWidth :: "Formatter \<Rightarrow> error + real" where
  "getMinTotalWidth s =
     (if \<not> hasMinTotalWidth s
      then Inl (RuntimeError ''NoMinTotalWidth''
             ''Call 'preCalculateMinTotalWidth' or 'preFormat' before calling 'getMinTotalWidth' '')
      else Inr (minTotalWidth s))"

text \<open>
  \<open>Formatter.preCalculateMinTotalWidth\<close>. The loop over the contexts accumulates the
  minimum total width, the number of unaligned contexts, and the widths and durations of
  all tickables. With no tickable at all every average is \<open>0/0\<close> and the padding is
  \<open>NaN\<close>; otherwise the mean width is positive, and only the mean duration can be zero.
\<close>

type_synonym widthAcc =
  "(int \<rightharpoonup> TickContext) \<times> real \<times> nat \<times> real \<times> real \<times> real list \<times> real list"

fun widthPass ::
  "(nat \<Rightarrow> Tickable) \<Rightarrow> nat \<Rightarrow> int list \<Rightarrow> widthAcc \<Rightarrow> error + widthAcc" where
  "widthPass objects voiceCount [] acc = Inr acc"
| "widthPass objects voiceCount (tick # rest)
       (contextMap, minTotal, unalignedCtxCount, wsum, dsum, widths, durations) =
     (case contextMap tick of
        None \<Rightarrow> Inl TypeError
      | Some c \<Rightarrow>
          (let context = TickContext_preFormat objects c;
               ts = getTickables context;
               unalignedCtxCount' =
                 (if length ts < voiceCount then unalignedCtxCount + 1 else unalignedCtxCount);
               ws = map (\<lambda>t. tm_width (tk_metrics (objects t))) ts;
               ds = map (\<lambda>t. Fraction_value (ticks (objects t))) ts
           in widthPass objects voiceCount rest
                (contextMap(tick \<mapsto> context), minTotal + tc_width context, unalignedCtxCount',
                 foldl (+) wsum ws, foldl (+) dsum ds, widths @ ws, durations @ ds)))"

definition sumArray :: "real list \<Rightarrow> real" where
  "sumArray xs = foldl (+) 0 xs"

definition paddingEstimate ::
  "real \<Rightarrow> nat \<Rightarrow> nat \<Rightarrow> real \<Rightarrow> real \<Rightarrow> real list \<Rightarrow> real list \<Rightarrow> jsnum" where
  "paddingEstimate unalignedPadding contextCount unalignedCtxCount wsum dsum widths durations =
     (if length widths = 0 then NaN
      else
        (let wn = real (length widths); dn = real (length durations);
             wavg = (if wsum > 0 then wsum / wn else 1 / wn);
             wvar = sumArray (map (\<lambda>ll. (ll - wavg) ^ 2) widths);
             wpads = sqrt (wvar / wn) / wavg;
             davg = dsum / dn;
             dvar = sumArray (map (\<lambda>ll. (ll - davg) ^ 2) durations);
             dpads = js_div (sqrt (dvar / dn)) davg;
             padmax = js_times (js_times (js_max dpads (Fin wpads)) (real contextCount))
                        unalignedPadding;
             unalignedPad = unalignedPadding * real unalignedCtxCount
         in js_max (Fin unalignedPad) padmax))"

definition preCalculateMinTotalWidth ::
  "Metrics \<Rightarrow> Voice list \<Rightarrow> Formatter \<Rightarrow> error + jsnum \<times> Formatter" where
  "preCalculateMinTotalWidth metrics vs s =
     (if hasMinTotalWidth s then Inr (Fin (minTotalWidth s), s)
      else
        (case createTickContexts vs s of
           Inl e \<Rightarrow> Inl e
         | Inr (_, s1) \<Rightarrow>
             (let contextList = tc_list (tickContexts s1);
                  contextMap = tc_map (tickContexts s1)
              in case widthPass (store s1) (length vs) contextList
                        (contextMap, 0, 0, 0, 0, [], []) of
                   Inl e \<Rightarrow> Inl e
                 | Inr (contextMap', minTotal, unalignedCtxCount, wsum, dsum, widths, durations) \<Rightarrow>
                     Inr (js_plus minTotal
                            (paddingEstimate (unalignedNotePadding metrics) (length contextList)
                               unalignedCtxCount wsum dsum widths durations),
                          s1\<lparr>tickContexts := (tickContexts s1)\<lparr>tc_map := contextMap'\<rparr>,
                             minTotalWidth := minTotal,
                             hasMinTotalWidth := True\<rparr>))))"

text \<open>
  \<open>Formatter.evaluate\<close>. The first loop records the gap between each context and the
  previous one; reading a context that the map lacks raises a \<open>TypeError\<close>. The second
  loop walks each voice, stores the space used by each note and updates the statistics of
  its duration; the third computes the deviations and their squared sum.
\<close>

type_synonym gapAcc = "(int \<rightharpoonup> TickContext) \<times> real \<times> (real \<times> real) list"

fun evaluateGaps :: "int list \<Rightarrow> gapAcc \<Rightarrow> error + gapAcc" where
  "evaluateGaps (prevTick # tick # rest) (contextMap, gapTotal, gaps) =
     (case contextMap prevTick of
        None \<Rightarrow> Inl TypeError
      | Some prevContext \<Rightarrow>
          (case contextMap tick of
             None \<Rightarrow> Inl TypeError
           | Some context \<Rightarrow>
               (let insideRightEdge =
                      tc_x prevContext + tc_notePx prevContext + tc_totalRightPx prevContext;
                    insideLeftEdge = tc_x context - tc_totalLeftPx context;
                    gap = insideLeftEdge - insideRightEdge;
                    contextMap' =
                      (if prevTick = tick
                       then contextMap(tick \<mapsto>
                              context\<lparr>tc_freedom_left := gap, tc_freedom_right := gap\<rparr>)
                       else contextMap(tick \<mapsto> context\<lparr>tc_freedom_left := gap\<rparr>,
                              prevTick \<mapsto> prevContext\<lparr>tc_freedom_right := gap\<rparr>))
                in evaluateGaps (tick # rest)
                     (contextMap', gapTotal + gap, gaps @ [(insideRightEdge, insideLeftEdge)]))))"
| "evaluateGaps contextList acc = Inr acc"

definition updateStats ::
  "int \<times> int \<Rightarrow> real \<Rightarrow> (int \<times> int \<rightharpoonup> DurationStats) \<Rightarrow> (int \<times> int \<rightharpoonup> DurationStats)" where
  "updateStats duration space stats =
     (case stats duration of
        None \<Rightarrow> stats(duration \<mapsto> \<lparr>ds_mean = space, ds_count = 1, ds_total = space\<rparr>)
      | Some st \<Rightarrow>
          stats(duration \<mapsto>
            \<lparr>ds_mean = (ds_total st + space) / real (ds_count st + 1),
             ds_count = ds_count st + 1,
             ds_total = ds_total st + space\<rparr>))"

definition updateFormatterMetrics ::
  "nat \<Rightarrow> (FormatterMetrics \<Rightarrow> FormatterMetrics) \<Rightarrow> (nat \<Rightarrow> Tickable) \<Rightarrow> (nat \<Rightarrow> Tickable)" where
  "updateFormatterMetrics note f objects =
     objects(note := (objects note)\<lparr>tk_formatterMetrics := f (tk_formatterMetrics (objects note))\<rparr>)"

type_synonym spaceAcc = "(nat \<Rightarrow> Tickable) \<times> (int \<times> int \<rightharpoonup> DurationStats)"

fun evaluateSpaces :: "real \<Rightarrow> nat list \<Rightarrow> spaceAcc \<Rightarrow> spaceAcc" where
  "evaluateSpaces justify [] acc = acc"
| "evaluateSpaces justify (note # rest) (objects, stats) =
     (let n = objects note;
          duration = durationKey (ticks n);
          metrics = tk_metrics n;
          leftNoteEdge =
            tk_x n + tm_notePx metrics + tm_modRightPx metrics + tm_rightDisplacedHeadPx metrics;
          (space, objects1) =
            (case rest of
               rightNote # _ \<Rightarrow>
                 (let r = objects rightNote;
                      rightMetrics = tk_metrics r;
                      rightNoteEdge =
                        tk_x r - tm_modLeftPx rightMetrics - tm_leftDisplacedHeadPx rightMetrics;
                      space = rightNoteEdge - leftNoteEdge
                  in (space,
                      updateFormatterMetrics rightNote (\<lambda>fm. fm\<lparr>freedom_left := space\<rparr>)
                        (updateFormatterMetrics note (\<lambda>fm. fm\<lparr>space_used := tk_x r - tk_x n\<rparr>)
                           objects)))
             | [] \<Rightarrow>
                 (justify - leftNoteEdge,
                  updateFormatterMetrics note (\<lambda>fm. fm\<lparr>space_used := justify - tk_x n\<rparr>)
                    objects));
          objects2 = updateFormatterMetrics note (\<lambda>fm. fm\<lparr>freedom_right := space\<rparr>) objects1
      in evaluateSpaces justify rest
           (objects2,
            updateStats duration (space_used (tk_formatterMetrics (objects2 note))) stats))"

type_synonym deviationAcc = "(nat \<Rightarrow> Tickable) \<times> real"

fun evaluateDeviations ::
  "(int \<times> int \<rightharpoonup> DurationStats) \<Rightarrow> nat list \<Rightarrow> deviationAcc \<Rightarrow> error + deviationAcc" where
  "evaluateDeviations stats [] acc = Inr acc"
| "evaluateDeviations stats (note # rest) (objects, totalDeviation) =
     (let n = objects note;
          duration = durationKey (ticks n)
      in case stats duration of
           None \<Rightarrow> Inl TypeError
         | Some st \<Rightarrow>
             (let fm = tk_formatterMetrics n;
                  fm' = fm\<lparr>space_mean := ds_mean st,
                          fm_duration := duration,
                          iterations := iterations fm + 1,
                          space_deviation := space_used fm - ds_mean st\<rparr>
              in evaluateDeviations stats rest
                   (objects(note := n\<lparr>tk_formatterMetrics := fm'\<rparr>),
                    totalDeviation + (space_deviation fm') ^ 2)))"

fun evaluateVoiceDeviations ::
  "(int \<times> int \<rightharpoonup> DurationStats) \<Rightarrow> Voice list \<Rightarrow> deviationAcc \<Rightarrow> error + deviationAcc" where
  "evaluateVoiceDeviations stats [] acc = Inr acc"
| "evaluateVoiceDeviations stats (voice # rest) acc =
     (case evaluateDeviations stats (tickables voice) acc of
        Inl e \<Rightarrow> Inl e
      | Inr acc' \<Rightarrow> evaluateVoiceDeviations stats rest acc')"

definition evaluate :: "Formatter \<Rightarrow> error + real \<times> Formatter" where
  "evaluate s =
     (case evaluateGaps (tc_list (tickContexts s)) (tc_map (tickContexts s), 0, []) of
        Inl e \<Rightarrow> Inl e
      | Inr (contextMap, gapTotal, gaps) \<Rightarrow>
          (let (objects1, stats) =
                 foldl (\<lambda>acc voice. evaluateSpaces (justifyWidth s) (tickables voice) acc)
                   (store s, Map.empty) (voices s)
           in case evaluateVoiceDeviations stats (voices s) (objects1, 0) of
                Inl e \<Rightarrow> Inl e
              | Inr (objects2, totalDeviation) \<Rightarrow>
                  Inr (sqrt totalDeviation,
                       s\<lparr>contextGaps_total := gapTotal,
                         contextGaps_gaps := gaps,
                         tickContexts := (tickContexts s)\<lparr>tc_map := contextMap\<rparr>,
                         durationStats := stats,
                         store := objects2,
                         totalCost := sqrt totalDeviation,
                         lossHistory := lossHistory s @ [sqrt totalDeviation]\<rparr>)))"

text \<open>
  Modelled from the spec: \<open>TickContext.setX\<close>, which gives the slot its x; the
  tickables of the context take their assigned x from it.
\<close>

definition TickContext_setX ::
  "real \<Rightarrow> TickContext \<Rightarrow> (nat \<Rightarrow> Tickable) \<Rightarrow> TickContext \<times> (nat \<Rightarrow> Tickable)" where
  "TickContext_setX x context objects =
     (context\<lparr>tc_x := x\<rparr>,
      foldl (\<lambda>os t. os(t := (os t)\<lparr>tk_x := x\<rparr>)) objects (getTickables context))"

text \<open>
  \<open>Formatter.preFormat\<close>, pass 1: each context gets the width it asks for.
\<close>

type_synonym passAcc = "(int \<rightharpoonup> TickContext) \<times> (nat \<Rightarrow> Tickable) \<times> real \<times> real \<times> real"

fun preFormatPass :: "int list \<Rightarrow> passAcc \<Rightarrow> error + passAcc" where
  "preFormatPass [] acc = Inr acc"
| "preFormatPass (tick # rest) (contextMap, objects, minTotal, x, shift) =
     (case contextMap tick of
        None \<Rightarrow> Inl TypeError
      | Some c \<Rightarrow>
          (let context = TickContext_preFormat objects c;
               width = tc_width context;
               x' = x + shift + tc_totalLeftPx context;
               (context', objects') = TickContext_setX x' context objects
           in preFormatPass rest
                (contextMap(tick \<mapsto> context'), objects', minTotal + width, x',
                 width - tc_totalLeftPx context)))"

text \<open>
  The nested functions \<open>calculateIdealDistances\<close>, \<open>shiftToIdealDistances\<close> and
  \<open>paddingMaxCalc\<close> of \<open>preFormat\<close> are parameters of \<open>preFormat\<close> here, each a
  function of the formatter it reads: what is proved about \<open>preFormat\<close> for all such
  functions holds whatever the nested functions compute. Each of them may raise an
  error; \<open>shiftToIdealDistances\<close> otherwise returns the width between the first and the
  last context together with the repositioned contexts and tickables. The functions of
  the source are given further below.
\<close>

record Distance =
  maxNegativeShiftPx :: real
  expectedDistance :: real
  fromTickable :: "nat option"

record JustifyFunctions =
  calculateIdealDistances :: "real \<Rightarrow> Formatter \<Rightarrow> error + Distance list"
  shiftToIdealDistances ::
    "real \<Rightarrow> Distance list \<Rightarrow> Formatter
       \<Rightarrow> error + real \<times> (int \<rightharpoonup> TickContext) \<times> (nat \<Rightarrow> Tickable)"
  paddingMaxCalc :: "real \<Rightarrow> real \<Rightarrow> Formatter \<Rightarrow> error + real"

definition calcMinDistance :: "real \<Rightarrow> Distance list \<Rightarrow> real" where
  "calcMinDistance targetWidth distances =
     foldl (\<lambda>mdCalc d. min (expectedDistance d / 2) mdCalc) (targetWidth / 2) (tl distances)"

definition reposition ::
  "(int \<rightharpoonup> TickContext) \<times> (nat \<Rightarrow> Tickable) \<Rightarrow> Formatter \<Rightarrow> Formatter" where
  "reposition p s = s\<lparr>tickContexts := (tickContexts s)\<lparr>tc_map := fst p\<rparr>, store := snd p\<rparr>"

text \<open>
  The \<open>while\<close> loop of \<open>preFormat\<close> that corrects the justification width. With an
  infinite counter the loop need not end, so the result is an option: \<open>None\<close> when the
  loop runs forever. A result pairs the number of times the body was entered with the
  outcome, an error raised in the body or the variables of the loop at its end.
\<close>

record JustifyState =
  actualWidth :: real
  paddingMax :: real
  paddingMin :: real
  targetWidth :: real
  iterationsLeft :: jsnum
  formatter :: Formatter

partial_function (option) justifyLoop ::
  "JustifyFunctions \<Rightarrow> Metrics \<Rightarrow> real \<Rightarrow> real \<Rightarrow> real \<Rightarrow> JustifyState
     \<Rightarrow> (nat \<times> (error + JustifyState)) option" where
  "justifyLoop fs metrics adjustedJustifyWidth minDistance maxX j =
     (if (actualWidth j > maxX \<and> js_greater (iterationsLeft j) 0)
         \<or> (actualWidth j + paddingMax j < maxX \<and> js_greater (iterationsLeft j) 1)
      then
        (let targetWidth' = targetWidth j - (actualWidth j - maxX)
         in case paddingMaxCalc fs minDistance targetWidth' (formatter j) of
              Inl e \<Rightarrow> Some (1, Inl e)
            | Inr paddingMax' \<Rightarrow>
                (case calculateIdealDistances fs targetWidth' (formatter j) of
                   Inl e \<Rightarrow> Some (1, Inl e)
                 | Inr distances \<Rightarrow>
                     (case shiftToIdealDistances fs adjustedJustifyWidth distances (formatter j) of
                        Inl e \<Rightarrow> Some (1, Inl e)
                      | Inr (actualWidth', p) \<Rightarrow>
                          Option.bind
                            (justifyLoop fs metrics adjustedJustifyWidth minDistance maxX
                               \<lparr>actualWidth = actualWidth', paddingMax = paddingMax',
                                paddingMin = paddingMax'
                                  - (endPaddingMax metrics - endPaddingMin metrics),
                                targetWidth = targetWidth',
                                iterationsLeft = js_decrement (iterationsLeft j),
                                formatter = reposition p (formatter j)\<rparr>)
                            (\<lambda>(runs, result). Some (runs + 1, result)))))
      else Some (0, Inr j))"

text \<open>
  \<open>Formatter.preFormat\<close>, called without a stave. \<open>preFormatRuns\<close> is the method with
  the number of times it entered the body of the justification loop added to what it
  returns or raises; \<open>preFormat\<close> is the method itself. Both are \<open>None\<close> when the loop
  does not end.
\<close>

definition preFormatRuns ::
  "JustifyFunctions \<Rightarrow> Metrics \<Rightarrow> real \<Rightarrow> Formatter
     \<Rightarrow> (nat \<times> (error + real \<times> Formatter)) option" where
  "preFormatRuns fs metrics justify s =
     (let contextList = tc_list (tickContexts s)
      in case preFormatPass contextList (tc_map (tickContexts s), store s, 0, 0, 0) of
           Inl e \<Rightarrow> Some (0, Inl e)
         | Inr (contextMap, objects, minTotal, x, shift) \<Rightarrow>
             (let s1 = (reposition (contextMap, objects) s)
                         \<lparr>lossHistory := [], minTotalWidth := x + shift, hasMinTotalWidth := True\<rparr>
              in if justify \<le> 0 then Some (0, evaluate s1)
                 else
                   (case contextList of
                      [] \<Rightarrow> Some (0, Inl TypeError)
                    | firstTick # _ \<Rightarrow>
                        (case (contextMap firstTick, contextMap (last contextList)) of
                           (Some firstContext, Some lastContext) \<Rightarrow>
                             (let adjustedJustifyWidth =
                                    justify - tc_notePx lastContext - tc_totalRightPx lastContext
                                      - tc_totalLeftPx firstContext
                              in case calculateIdealDistances fs adjustedJustifyWidth s1 of
                                   Inl e \<Rightarrow> Some (0, Inl e)
                                 | Inr distances \<Rightarrow>
                              (case shiftToIdealDistances fs adjustedJustifyWidth distances s1 of
                                 Inl e \<Rightarrow> Some (0, Inl e)
                               | Inr (actual, p) \<Rightarrow>
                                   (let s2 = reposition p s1
                                    in if length contextList = 1 then Some (0, Inr (0, s2))
                                       else
                                         (let minDistance =
                                                calcMinDistance adjustedJustifyWidth distances
                                          in case paddingMaxCalc fs minDistance
                                                    adjustedJustifyWidth s2 of
                                               Inl e \<Rightarrow> Some (0, Inl e)
                                             | Inr pMax \<Rightarrow>
                                          (let pMin = pMax - (endPaddingMax metrics
                                                               - endPaddingMin metrics);
                                               maxX = adjustedJustifyWidth - pMin
                                           in case justifyLoop fs metrics adjustedJustifyWidth
                                                     minDistance maxX
                                                     \<lparr>actualWidth = actual, paddingMax = pMax,
                                                      paddingMin = pMin,
                                                      targetWidth = adjustedJustifyWidth,
                                                      iterationsLeft = maxIterations s2,
                                                      formatter = s2\<rparr> of
                                                None \<Rightarrow> None
                                              | Some (runs, Inl e) \<Rightarrow> Some (runs, Inl e)
                                              | Some (runs, Inr j) \<Rightarrow>
                                                  Some (runs,
                                                    evaluate
                                                      ((formatter j)\<lparr>justifyWidth := justify\<rparr>)))))))
                         | _ \<Rightarrow> Some (0, Inl TypeError)))))"

definition preFormat ::
  "JustifyFunctions \<Rightarrow> Metrics \<Rightarrow> real \<Rightarrow> Formatter \<Rightarrow> (error + real \<times> Formatter) option" where
  "preFormat fs metrics justify s = map_option snd (preFormatRuns fs metrics justify s)"

text \<open>
  \<open>Formatter.format\<close>, called without a stave. \<open>alignRests\<close> rejects an empty list of
  voices; the lines of rests that it adjusts are not part of this state.
\<close>

definition alignRests :: "Voice list \<Rightarrow> error + unit" where
  "alignRests vs =
     (if length vs = 0 then Inl (RuntimeError ''BadArgument'' ''No voices to format rests'')
      else Inr ())"

definition format ::
  "JustifyFunctions \<Rightarrow> Metrics \<Rightarrow> Voice list \<Rightarrow> real \<Rightarrow> Formatter
     \<Rightarrow> (error + Formatter) option" where
  "format fs metrics vs justify s =
     (let vs' = (if softmaxFactor s \<noteq> 0
                 then map (\<lambda>v. v\<lparr>voiceSoftmaxFactor := softmaxFactor s\<rparr>) vs else vs);
          s1 = s\<lparr>voices := vs'\<rparr>
      in case alignRests vs' of
           Inl e \<Rightarrow> Some (Inl e)
         | Inr _ \<Rightarrow>
             (case createTickContexts vs' s1 of
                Inl e \<Rightarrow> Some (Inl e)
              | Inr (_, s2) \<Rightarrow>
                  (case preFormat fs metrics justify s2 of
                     None \<Rightarrow> None
                   | Some (Inl e) \<Rightarrow> Some (Inl e)
                   | Some (Inr (_, s3)) \<Rightarrow> Some (Inr s3))))"

text \<open>
  Modelled from the spec: the methods of \<open>TickContext\<close>, \<open>Tickable\<close> and \<open>Voice\<close> that
  the nested functions of \<open>preFormat\<close> call (none of these classes is among the sources).
  \<open>getTickablesByVoice()\<close> maps a voice index to the tickable that occupies the voice at
  the tick, the one added last; its keys come in ascending order. \<open>getMaxTicks\<close> is
  \<open>getMaxTicks().value()\<close>, the longest duration among the tickables of the context, and
  \<open>getMaxTickable()\<close> the tickable that has it, the first one added among equals, none
  when no tickable lasts longer than 0 ticks. \<open>Tickable.getVoice()\<close> is the voice, among
  those of the formatter, under whose index the context holds the tickable; without
  such a voice the call on it fails. \<open>Voice.softmax(ticks)\<close> is
  \<open>softmaxFactor ** (ticks / totalTicks) / normalizationConstant\<close>, a weight in (0, 1]:
  the constant is the sum of these powers over the tickables of the voice. The power is
  that of a positive factor, and a quotient that JavaScript gives as \<open>NaN\<close> or an
  infinity is not modelled in these functions.
\<close>

definition getTickablesByVoice :: "TickContext \<Rightarrow> nat \<rightharpoonup> nat" where
  "getTickablesByVoice context = map_of (rev (tc_tickables context))"

definition voiceKeys :: "TickContext \<Rightarrow> nat list" where
  "voiceKeys context = sort (remdups (map fst (tc_tickables context)))"

definition getMaxTicks :: "(nat \<Rightarrow> Tickable) \<Rightarrow> TickContext \<Rightarrow> real" where
  "getMaxTicks objects context =
     foldl max 0 (map (\<lambda>t. Fraction_value (ticks (objects t))) (getTickables context))"

definition getMaxTickable :: "(nat \<Rightarrow> Tickable) \<Rightarrow> TickContext \<Rightarrow> (nat \<times> nat) option" where
  "getMaxTickable objects context =
     snd (foldl (\<lambda>(maxTicks, maxTickable) (voiceIndex, tickable).
                   if Fraction_value (ticks (objects tickable)) > maxTicks
                   then (Fraction_value (ticks (objects tickable)), Some (voiceIndex, tickable))
                   else (maxTicks, maxTickable))
            (0, None) (tc_tickables context))"

definition getVoice :: "Formatter \<Rightarrow> nat \<Rightarrow> error + Voice" where
  "getVoice s voiceIndex =
     (if voiceIndex < length (voices s) then Inr (voices s ! voiceIndex) else Inl TypeError)"

definition Voice_softmax :: "(nat \<Rightarrow> Tickable) \<Rightarrow> Voice \<Rightarrow> real \<Rightarrow> real" where
  "Voice_softmax objects voice tickValue =
     (let weight = (\<lambda>t. voiceSoftmaxFactor voice powr (t / Fraction_value (totalTicks voice)))
      in weight tickValue
           / sumArray (map (\<lambda>t. weight (Fraction_value (ticks (objects t)))) (tickables voice)))"

text \<open>
  The nested function \<open>calculateIdealDistances\<close> of \<open>preFormat\<close>. For each context but
  the first it looks backwards for the nearest context that shares a voice with it
  (\<open>backDistance\<close>), and computes from the tickables of the shared voices
  (\<open>matchingVoices\<close>: the voice, its tickable here and its tickable there) the longest
  duration there, the limit of a shift to the left and the expected distance
  (\<open>matchDistance\<close>). \<open>maxNegativeShiftPx\<close> starts as \<open>Infinity\<close>, here \<open>None\<close>.
  \<open>totalTicks'\<close> and \<open>expTicksUsed\<close> are the sums that pass 1 of \<open>preFormat\<close> accumulates
  from the longest durations of the contexts, which the passes leave as they are.
\<close>

definition matchingVoices :: "TickContext \<Rightarrow> TickContext \<Rightarrow> (nat \<times> nat \<times> nat) list" where
  "matchingVoices context backTick =
     List.map_filter
       (\<lambda>v. case (getTickablesByVoice context v, getTickablesByVoice backTick v) of
               (Some thisTickable, Some backTickable) \<Rightarrow> Some (v, thisTickable, backTickable)
             | _ \<Rightarrow> None)
       (voiceKeys context)"

definition matchDistance ::
  "Formatter \<Rightarrow> real \<Rightarrow> real \<Rightarrow> real \<Rightarrow> TickContext \<Rightarrow> TickContext
     \<Rightarrow> (nat \<times> nat \<times> nat) list \<Rightarrow> error + Distance" where
  "matchDistance s adjustedJustifyWidth totalTicks' expTicksUsed context prevContext matching =
     (let objects = store s;
          (maxTicks, backTickable, shiftLimit) =
            foldl (\<lambda>(maxTicks, backTickable, shiftLimit) (v, thisTickable, backVoice).
                     (let ticks' = Fraction_value (ticks (objects backVoice));
                          thisMetrics = tk_metrics (objects thisTickable);
                          insideLeftEdge =
                            tk_x (objects thisTickable)
                              - (tm_modLeftPx thisMetrics + tm_leftDisplacedHeadPx thisMetrics);
                          backMetrics = tk_metrics (objects backVoice);
                          insideRightEdge =
                            tk_x (objects backVoice) + tm_notePx backMetrics
                              + tm_modRightPx backMetrics + tm_rightDisplacedHeadPx backMetrics;
                          edge = insideLeftEdge - insideRightEdge
                      in (if ticks' > maxTicks then ticks' else maxTicks,
                          if ticks' > maxTicks then Some (v, backVoice) else backTickable,
                          case shiftLimit of None \<Rightarrow> Some edge | Some l \<Rightarrow> Some (min l edge))))
              (0, None, None) matching;
          bound = tc_x context - (tc_x prevContext + adjustedJustifyWidth * (5 / 100));
          maxNegativeShiftPx = (case shiftLimit of None \<Rightarrow> bound | Some l \<Rightarrow> min l bound)
      in if globalSoftmax s then
           Inr \<lparr>maxNegativeShiftPx = maxNegativeShiftPx,
                expectedDistance =
                  softmaxFactor s powr (maxTicks / totalTicks') / expTicksUsed
                    * adjustedJustifyWidth,
                fromTickable = map_option snd backTickable\<rparr>
         else
           (case backTickable of
              None \<Rightarrow>
                Inr \<lparr>maxNegativeShiftPx = maxNegativeShiftPx, expectedDistance = 0,
                     fromTickable = None\<rparr>
            | Some (v, tickable) \<Rightarrow>
                (case getVoice s v of
                   Inl e \<Rightarrow> Inl e
                 | Inr voice \<Rightarrow>
                     Inr \<lparr>maxNegativeShiftPx = maxNegativeShiftPx,
                          expectedDistance =
                            Voice_softmax objects voice maxTicks * adjustedJustifyWidth,
                          fromTickable = Some tickable\<rparr>)))"

fun backDistance ::
  "Formatter \<Rightarrow> real \<Rightarrow> real \<Rightarrow> real \<Rightarrow> TickContext \<Rightarrow> TickContext
     \<Rightarrow> TickContext list \<Rightarrow> error + Distance" where
  "backDistance s adjustedJustifyWidth totalTicks' expTicksUsed context prevContext [] =
     Inr \<lparr>maxNegativeShiftPx = 0, expectedDistance = 0, fromTickable = None\<rparr>"
| "backDistance s adjustedJustifyWidth totalTicks' expTicksUsed context prevContext
       (backTick # earlier) =
     (if matchingVoices context backTick \<noteq> []
      then matchDistance s adjustedJustifyWidth totalTicks' expTicksUsed context prevContext
             (matchingVoices context backTick)
      else backDistance s adjustedJustifyWidth totalTicks' expTicksUsed context prevContext
             earlier)"

fun collect :: "(error + 'a) list \<Rightarrow> error + 'a list" where
  "collect [] = Inr []"
| "collect (Inl e # rest) = Inl e"
| "collect (Inr x # rest) = (case collect rest of Inl e \<Rightarrow> Inl e | Inr xs \<Rightarrow> Inr (x # xs))"

definition preFormat_calculateIdealDistances :: "real \<Rightarrow> Formatter \<Rightarrow> error + Distance list" where
  "preFormat_calculateIdealDistances adjustedJustifyWidth s =
     (let contextList = tc_list (tickContexts s);
          contextMap = tc_map (tickContexts s)
      in if list_ex (\<lambda>tick. contextMap tick = None) contextList then Inl TypeError
         else
           (let contexts = List.map_filter contextMap contextList;
                totalTicks' = sumArray (map (getMaxTicks (store s)) contexts);
                expTicksUsed =
                  sumArray (map (\<lambda>c. softmaxFactor s powr (getMaxTicks (store s) c / totalTicks'))
                              contexts)
            in collect
                 (map (\<lambda>i. if i > 0
                            then backDistance s adjustedJustifyWidth totalTicks' expTicksUsed
                                   (contexts ! i) (contexts ! (i - 1)) (rev (take i contexts))
                            else Inr \<lparr>maxNegativeShiftPx = 0, expectedDistance = 0,
                                      fromTickable = None\<rparr>)
                    [0 ..< length contexts])))"

text \<open>
  The nested function \<open>shiftToIdealDistances\<close>. The check \<open>defined\<close> of the utility
  module raises when a distance has no tickable to start from. The centre shift it gives
  to centre-aligned tickables is not part of this state.
\<close>

fun shiftContexts ::
  "Distance list \<Rightarrow> (nat \<times> int) list \<Rightarrow> (int \<rightharpoonup> TickContext) \<times> (nat \<Rightarrow> Tickable) \<times> real
     \<Rightarrow> error + (int \<rightharpoonup> TickContext) \<times> (nat \<Rightarrow> Tickable) \<times> real" where
  "shiftContexts idealDistances [] acc = Inr acc"
| "shiftContexts idealDistances ((index, tick) # rest) (contextMap, objects, spaceAccum) =
     (case contextMap tick of
        None \<Rightarrow> Inl TypeError
      | Some context \<Rightarrow>
          if index > 0 then
            (if index < length idealDistances then
               (let contextX = tc_x context;
                    ideal = idealDistances ! index
                in case fromTickable ideal of
                     None \<Rightarrow> Inl (RuntimeError ''undefined'' '''')
                   | Some tickable \<Rightarrow>
                       (let errorPx = tk_x (objects tickable) + expectedDistance ideal
                                        - (contextX + spaceAccum);
                            spaceAccum' =
                              (if errorPx > 0 then spaceAccum + errorPx
                               else if errorPx < 0
                               then spaceAccum + - min (maxNegativeShiftPx ideal) \<bar>errorPx\<bar>
                               else spaceAccum);
                            (context', objects') =
                              TickContext_setX (contextX + spaceAccum') context objects
                        in shiftContexts idealDistances rest
                             (contextMap(tick \<mapsto> context'), objects', spaceAccum')))
             else Inl TypeError)
          else shiftContexts idealDistances rest (contextMap, objects, spaceAccum))"

definition preFormat_shiftToIdealDistances ::
  "Distance list \<Rightarrow> Formatter \<Rightarrow> error + real \<times> (int \<rightharpoonup> TickContext) \<times> (nat \<Rightarrow> Tickable)" where
  "preFormat_shiftToIdealDistances idealDistances s =
     (let contextList = tc_list (tickContexts s)
      in case shiftContexts idealDistances (zip [0 ..< length contextList] contextList)
                (tc_map (tickContexts s), store s, 0) of
           Inl e \<Rightarrow> Inl e
         | Inr (contextMap, objects, spaceAccum) \<Rightarrow>
             (case contextList of
                [] \<Rightarrow> Inl TypeError
              | firstTick # _ \<Rightarrow>
                  (case (contextMap firstTick, contextMap (last contextList)) of
                     (Some firstContext, Some lastContext) \<Rightarrow>
                       Inr (tc_x lastContext - tc_x firstContext, contextMap, objects)
                   | _ \<Rightarrow> Inl TypeError)))"

text \<open>
  The nested function \<open>paddingMaxCalc\<close>.
\<close>

definition preFormat_paddingMaxCalc :: "Metrics \<Rightarrow> real \<Rightarrow> real \<Rightarrow> Formatter \<Rightarrow> error + real" where
  "preFormat_paddingMaxCalc metrics minDistance curTargetWidth s =
     (let contextList = tc_list (tickContexts s);
          configMaxPadding = endPaddingMax metrics;
          leftPadding = stavePadding metrics;
          lastContext = (if contextList = [] then None
                         else tc_map (tickContexts s) (last contextList));
          lastTickable = (case lastContext of None \<Rightarrow> None
                          | Some c \<Rightarrow> getMaxTickable (store s) c)
      in case (lastContext, lastTickable) of
           (Some c, Some (voiceIndex, tickable)) \<Rightarrow>
             (case getVoice s voiceIndex of
                Inl e \<Rightarrow> Inl e
              | Inr voice \<Rightarrow>
                  if Fraction_value (ticksUsed voice) > Fraction_value (totalTicks voice)
                  then Inr (if configMaxPadding * 2 < minDistance then minDistance
                            else configMaxPadding)
                  else
                    (let tickWidth = tm_width (tk_metrics (store s tickable));
                         lastTickablePadding =
                           Voice_softmax (store s) voice (getMaxTicks (store s) c) * curTargetWidth
                             - (tickWidth + leftPadding)
                     in Inr (if configMaxPadding * 2 < lastTickablePadding
                             then lastTickablePadding else configMaxPadding)))
         | _ \<Rightarrow> Inr (if configMaxPadding * 2 < 0 then 0 else configMaxPadding))"

text \<open>
  The three nested functions as \<open>preFormat\<close> takes them.
\<close>

definition nestedFunctions :: "Metrics \<Rightarrow> JustifyFunctions" where
  "nestedFunctions metrics =
     \<lparr>calculateIdealDistances = preFormat_calculateIdealDistances,
      shiftToIdealDistances = (\<lambda>adjustedJustifyWidth. preFormat_shiftToIdealDistances),
      paddingMaxCalc = preFormat_paddingMaxCalc metrics\<rparr>"

text \<open>
  \<open>Formatter.SimpleFormat\<close>: each note gets a tick context of its own; the result lists
  the notes with the x assigned to them.
\<close>

definition SimpleFormat :: "Tickable list \<Rightarrow> real \<Rightarrow> real \<Rightarrow> Tickable list" where
  "SimpleFormat notes x paddingBetween =
     snd (foldl
            (\<lambda>(accumulator, placed) note.
               (let tickContext =
                      TickContext_preFormat (\<lambda>_. note) (addTickable 0 0 (newTickContext 0));
                    x' = accumulator + tc_totalLeftPx tickContext
                in (accumulator + tc_width tickContext + tc_totalRightPx tickContext
                      + paddingBetween,
                    placed @ [note\<lparr>tk_x := x'\<rparr>])))
            (x, []) notes)"

text \<open>
  A voice offends against \<open>getResolutionMultiplier\<close> when its total ticks differ from
  those of the first voice or when it is a \<open>STRICT\<close> voice that is not complete.
\<close>

definition offending :: "Fraction \<Rightarrow> Voice \<Rightarrow> bool" where
  "offending firstTotal voice =
     (\<not> Fraction_equals (totalTicks voice) firstTotal
      \<or> (mode voice = STRICT \<and> \<not> isComplete voice))"


section \<open>Notions used in the statements\<close>

text \<open>
  The sum of the widths of the tick contexts of an alignment, the largest intrinsic
  width among the tickables of a context (at least 0), and the sum of the intrinsic
  widths of all tickables of all voices.
\<close>

definition contextWidth :: "(int \<rightharpoonup> TickContext) \<Rightarrow> int \<Rightarrow> real" where
  "contextWidth contextMap tick = (case contextMap tick of None \<Rightarrow> 0 | Some c \<Rightarrow> tc_width c)"

definition sumContextWidths :: "AlignmentTickContexts \<Rightarrow> real" where
  "sumContextWidths contexts = sum_list (map (contextWidth (tc_map contexts)) (tc_list contexts))"

definition largestWidth :: "(nat \<Rightarrow> Tickable) \<Rightarrow> TickContext \<Rightarrow> real" where
  "largestWidth objects context =
     foldl max 0 (map (\<lambda>t. tm_width (tk_metrics (objects t))) (getTickables context))"

definition sumTickableWidths :: "(nat \<Rightarrow> Tickable) \<Rightarrow> Voice list \<Rightarrow> real" where
  "sumTickableWidths objects vs =
     sum_list (map (\<lambda>v. sum_list (map (\<lambda>t. tm_width (tk_metrics (objects t))) (tickables v))) vs)"

text \<open>
  A note without space for modifiers or displaced note heads, and with a width that is
  not negative.
\<close>

definition plainMetrics :: "Tickable \<Rightarrow> bool" where
  "plainMetrics n =
     (tm_modLeftPx (tk_metrics n) = 0 \<and> tm_modRightPx (tk_metrics n) = 0
      \<and> tm_leftDisplacedHeadPx (tk_metrics n) = 0 \<and> tm_rightDisplacedHeadPx (tk_metrics n) = 0
      \<and> 0 \<le> tm_width (tk_metrics n))"

text \<open>
  Two stores place the tickables alike when they agree on the duration, the x and the
  metrics of every tickable; they agree on the space used on a set of tickables when the
  \<open>space.used\<close> entries of the formatter metrics agree there.
\<close>

definition samePlacement :: "(nat \<Rightarrow> Tickable) \<Rightarrow> (nat \<Rightarrow> Tickable) \<Rightarrow> bool" where
  "samePlacement a b =
     (\<forall>t. ticks (a t) = ticks (b t) \<and> tk_x (a t) = tk_x (b t) \<and> tk_metrics (a t) = tk_metrics (b t))"

definition sameSpaceUsed :: "nat set \<Rightarrow> (nat \<Rightarrow> Tickable) \<Rightarrow> (nat \<Rightarrow> Tickable) \<Rightarrow> bool" where
  "sameSpaceUsed S a b =
     (\<forall>t \<in> S. space_used (tk_formatterMetrics (a t)) = space_used (tk_formatterMetrics (b t)))"

text \<open>
  One pass of the body of the loop of \<open>evaluate\<close> over the notes of a voice, and the
  loop over all voices, as functions of their own.
\<close>

definition spaceStep ::
  "real \<Rightarrow> nat \<Rightarrow> nat list \<Rightarrow> (nat \<Rightarrow> Tickable) \<Rightarrow> (nat \<Rightarrow> Tickable)" where
  "spaceStep justify note rest objects =
     (let n = objects note;
          metrics = tk_metrics n;
          leftNoteEdge =
            tk_x n + tm_notePx metrics + tm_modRightPx metrics + tm_rightDisplacedHeadPx metrics;
          (space, objects1) =
            (case rest of
               rightNote # _ \<Rightarrow>
                 (let r = objects rightNote;
                      rightMetrics = tk_metrics r;
                      rightNoteEdge =
                        tk_x r - tm_modLeftPx rightMetrics - tm_leftDisplacedHeadPx rightMetrics;
                      space = rightNoteEdge - leftNoteEdge
                  in (space,
                      updateFormatterMetrics rightNote (\<lambda>fm. fm\<lparr>freedom_left := space\<rparr>)
                        (updateFormatterMetrics note (\<lambda>fm. fm\<lparr>space_used := tk_x r - tk_x n\<rparr>)
                           objects)))
             | [] \<Rightarrow>
                 (justify - leftNoteEdge,
                  updateFormatterMetrics note (\<lambda>fm. fm\<lparr>space_used := justify - tk_x n\<rparr>)
                    objects))
      in updateFormatterMetrics note (\<lambda>fm. fm\<lparr>freedom_right := space\<rparr>) objects1)"

definition allSpaces ::
  "real \<Rightarrow> Voice list \<Rightarrow> spaceAcc \<Rightarrow> spaceAcc" where
  "allSpaces justify vs acc =
     foldl (\<lambda>acc voice. evaluateSpaces justify (tickables voice) acc) acc vs"



text \<open>
  What the tick context of a single note reports in \<open>SimpleFormat\<close>: its width and the
  space on its left and on its right for modifiers and displaced note heads, none of them
  below 0.
\<close>

definition slotWidth :: "Tickable \<Rightarrow> real" where
  "slotWidth n = max 0 (tm_width (tk_metrics n))"

definition leftPx :: "Tickable \<Rightarrow> real" where
  "leftPx n = max 0 (tm_modLeftPx (tk_metrics n) + tm_leftDisplacedHeadPx (tk_metrics n))"

definition rightPx :: "Tickable \<Rightarrow> real" where
  "rightPx n = max 0 (tm_modRightPx (tk_metrics n) + tm_rightDisplacedHeadPx (tk_metrics n))"


section \<open>Example voices\<close>

text \<open>
  A quarter note lasts 4096 ticks and a 4/4 bar 16384. The first voice is in \<open>STRICT\<close>
  mode with a declared total of 4/4 and three quarter notes in it; the second is a
  complete \<open>SOFT\<close> voice of three quarters with a declared total of 3/4.
\<close>

definition strictVoiceMissingQuarter :: Voice where
  "strictVoiceMissingQuarter =
     \<lparr>totalTicks = \<lparr>numerator = 16384, denominator = 1\<rparr>,
      ticksUsed = \<lparr>numerator = 12288, denominator = 1\<rparr>,
      mode = STRICT, tickables = [0, 1, 2],
      voiceResolutionMultiplier = 1, voiceSoftmaxFactor = 100\<rparr>"

definition softVoiceThreeFour :: Voice where
  "softVoiceThreeFour =
     \<lparr>totalTicks = \<lparr>numerator = 12288, denominator = 1\<rparr>,
      ticksUsed = \<lparr>numerator = 12288, denominator = 1\<rparr>,
      mode = SOFT, tickables = [3, 4, 5],
      voiceResolutionMultiplier = 1, voiceSoftmaxFactor = 100\<rparr>"

text \<open>
  Notes without modifiers, the padding constants, a formatter with the default options
  whose tickables are all quarter notes of width 10, \<open>SOFT\<close> voices of quarter notes
  with a declared total of 4/4, and two notes placed 30 apart in a formatter that
  justifies to a width of 80.
\<close>

definition quarterTicks :: Fraction where
  "quarterTicks = \<lparr>numerator = 4096, denominator = 1\<rparr>"

definition plainNote :: "Fraction \<Rightarrow> real \<Rightarrow> Tickable" where
  "plainNote duration w =
     \<lparr>ticks = duration, tk_x = 0, tk_stave = None,
      tk_metrics = \<lparr>tm_width = w, tm_notePx = w, tm_modLeftPx = 0, tm_modRightPx = 0,
                    tm_leftDisplacedHeadPx = 0, tm_rightDisplacedHeadPx = 0\<rparr>,
      tk_formatterMetrics = \<lparr>freedom_left = 0, freedom_right = 0, space_used = 0,
                             space_mean = 0, space_deviation = 0, fm_duration = (0, 1),
                             iterations = 0\<rparr>\<rparr>"

definition exampleMetrics :: Metrics where
  "exampleMetrics =
     \<lparr>unalignedNotePadding = 10, endPaddingMin = 5, endPaddingMax = 10, stavePadding = 12\<rparr>"

definition noOptions :: FormatterOptions where
  "noOptions = \<lparr>opt_softmaxFactor = None, opt_globalSoftmax = None, opt_maxIterations = None\<rparr>"

definition softVoice :: "nat list \<Rightarrow> Voice" where
  "softVoice ts =
     \<lparr>totalTicks = \<lparr>numerator = 16384, denominator = 1\<rparr>,
      ticksUsed = \<lparr>numerator = 4096 * int (length ts), denominator = 1\<rparr>,
      mode = SOFT, tickables = ts, voiceResolutionMultiplier = 1, voiceSoftmaxFactor = 100\<rparr>"

definition quarterNotes :: Formatter where
  "quarterNotes = newFormatter 100 noOptions (\<lambda>_. plainNote \<lparr>numerator = 4096, denominator = 1\<rparr> 10)"

definition spacedQuarters :: Formatter where
  "spacedQuarters =
     (newFormatter 100 noOptions
        (\<lambda>t. (plainNote \<lparr>numerator = 4096, denominator = 1\<rparr> 10)\<lparr>tk_x := 30 * real t\<rparr>))
       \<lparr>justifyWidth := 80, voices := [softVoice [0, 1]]\<rparr>"






text \<open>
  A quarter note with an accidental: 8 of modifier space on the left of a note head of
  10, in a width of 18.
\<close>

definition noteWithAccidental :: Tickable where
  "noteWithAccidental =
     (plainNote quarterTicks 18)
       \<lparr>tk_metrics := \<lparr>tm_width = 18, tm_notePx = 10, tm_modLeftPx = 8, tm_modRightPx = 0,
                        tm_leftDisplacedHeadPx = 0, tm_rightDisplacedHeadPx = 0\<rparr>\<rparr>"


section \<open>Accidental.checkCollision against the stated rule\<close>

text \<open>
  With the upper line given first the source computes the stated rule.
\<close>

lemma checkCollision_upper_first:
  "line line2 \<le> line line1 \<Longrightarrow> checkCollision line1 line2 = collides_spec line1 line2"
  by (auto simp: checkCollision_def collides_spec_def requiredClearance_spec_def Let_def)

text \<open>
  With the lower line given first and no double sharp on it, too.
\<close>

lemma checkCollision_lower_first_plain:
  "line line1 < line line2 \<Longrightarrow> \<not> dblSharpLine line1 \<Longrightarrow>
   checkCollision line1 line2 = collides_spec line1 line2"
  by (auto simp: checkCollision_def collides_spec_def requiredClearance_spec_def Let_def)

text \<open>
  Claim C2. \<open>checkCollision(line1, line2)\<close> is stated to hold exactly when the absolute
  line difference is below the required clearance (3.0, 2.5 under a flat-only or
  double-sharp-only higher line, 0.5 less over a double-sharp-only lower line), for both
  orders of the arguments. At a double-sharp line on stave line 0 given first and a plain
  line on stave line 3 given second, the source subtracts 0.5 from the positive clearance
  3 and reports a collision, since 2.5 is below 3; the stated rule requires a clearance of
  2.5, which the difference 3 meets, and the source itself reports no collision for the
  same two lines in the other order.
\<close>

theorem checkCollision_dblSharp_below_given_first:
  "checkCollision
     \<lparr>column = 0, line = 0, flatLine = False, dblSharpLine = True, numAcc = 1, width = 10\<rparr>
     \<lparr>column = 0, line = 3, flatLine = False, dblSharpLine = False, numAcc = 1, width = 10\<rparr>
   \<and> \<not> collides_spec
     \<lparr>column = 0, line = 0, flatLine = False, dblSharpLine = True, numAcc = 1, width = 10\<rparr>
     \<lparr>column = 0, line = 3, flatLine = False, dblSharpLine = False, numAcc = 1, width = 10\<rparr>
   \<and> \<not> checkCollision
     \<lparr>column = 0, line = 3, flatLine = False, dblSharpLine = False, numAcc = 1, width = 10\<rparr>
     \<lparr>column = 0, line = 0, flatLine = False, dblSharpLine = True, numAcc = 1, width = 10\<rparr>"
  by (simp add: checkCollision_def collides_spec_def requiredClearance_spec_def)


section \<open>Accidental.format: colliding lines and columns\<close>

lemma length_setColumns [simp]:
  "length (fst (setColumns f i ks st)) = length (fst st)"
  by (induction f i ks st rule: setColumns.induct) (auto simp: Let_def)

lemma findGroupEnd_ge: "i \<le> findGroupEnd ms i"
proof (induction ms i rule: findGroupEnd.induct)
  case (1 ms groupEnd)
  show ?case
  proof (cases "groupEnd + 1 < length ms \<and> checkCollision (ms ! groupEnd) (ms ! (groupEnd + 1))")
    case True
    then have "findGroupEnd ms groupEnd = findGroupEnd ms (groupEnd + 1)"
      by (subst findGroupEnd.simps) simp
    with 1[OF True] show ?thesis by simp
  next
    case False
    then have "findGroupEnd ms groupEnd = groupEnd"
      by (subst findGroupEnd.simps) auto
    then show ?thesis by simp
  qed
qed

lemma checkCollision_top_first:
  "line b \<le> line a \<Longrightarrow>
   checkCollision a b \<longleftrightarrow>
     line a - line b + (if dblSharpLine b then 1 / 2 else 0)
       < (if flatLine a \<or> dblSharpLine a then 5 / 2 else 3)"
  by (auto simp: checkCollision_def Let_def)

lemma checkCollision_self: "checkCollision m m"
  by (simp add: checkCollision_def)

lemma checkCollision_cong:
  "line a' = line a \<Longrightarrow> flatLine a' = flatLine a \<Longrightarrow> dblSharpLine a' = dblSharpLine a \<Longrightarrow>
   line b' = line b \<Longrightarrow> flatLine b' = flatLine b \<Longrightarrow> dblSharpLine b' = dblSharpLine b \<Longrightarrow>
   checkCollision a' b' = checkCollision a b"
  by (simp add: checkCollision_def)

lemma no_collision_gap:
  "line b \<le> line a \<Longrightarrow> \<not> checkCollision a b \<Longrightarrow> 2 \<le> line a - line b"
  by (auto simp: checkCollision_top_first split: if_splits)

lemma far_apart_no_collision:
  "3 \<le> line a - line b \<Longrightarrow> \<not> checkCollision a b"
  by (auto simp: checkCollision_top_first split: if_splits)

lemma halfLine_gap:
  assumes "halfLine x" "halfLine y" "y < x"
  shows "1 / 2 \<le> x - y"
proof -
  from assms obtain m n :: int where m: "2 * x = of_int m" and n: "2 * y = of_int n"
    by (auto simp: halfLine_def elim!: Ints_cases)
  from assms(3) have "(of_int n :: real) < of_int m" using m n by linarith
  then have "n < m" by simp
  then have "n + 1 \<le> m" by simp
  then have "(of_int n :: real) + 1 \<le> of_int m" by (metis of_int_1 of_int_add of_int_le_iff)
  with m n show ?thesis by linarith
qed

lemma descending_gap:
  "descendingLines ms \<Longrightarrow> halfLines ms \<Longrightarrow> a < b \<Longrightarrow> b < length ms \<Longrightarrow>
   1 / 2 \<le> line (ms ! a) - line (ms ! b)"
  by (rule halfLine_gap) (auto simp: descendingLines_def halfLines_def)

lemma descending_le:
  "descendingLines ms \<Longrightarrow> a \<le> b \<Longrightarrow> b < length ms \<Longrightarrow> line (ms ! b) \<le> line (ms ! a)"
  by (cases "a = b") (auto simp: descendingLines_def intro: less_imp_le)

text \<open>Across a pair of neighbours that do not collide nothing collides.\<close>

lemma no_collision_across:
  assumes d: "descendingLines ms" and h: "halfLines ms"
    and k: "Suc k < length ms" and nc: "\<not> checkCollision (ms ! k) (ms ! Suc k)"
    and a: "a \<le> k" and b: "Suc k \<le> b" "b < length ms"
  shows "\<not> checkCollision (ms ! a) (ms ! b)"
proof -
  have le: "line (ms ! b) \<le> line (ms ! a)" using d a b by (intro descending_le) auto
  have lek: "line (ms ! Suc k) \<le> line (ms ! k)" using d k by (intro descending_le) auto
  have ga: "a < k \<Longrightarrow> 1 / 2 \<le> line (ms ! a) - line (ms ! k)"
    using descending_gap[OF d h, of a k] k by simp
  have gb: "Suc k < b \<Longrightarrow> 1 / 2 \<le> line (ms ! Suc k) - line (ms ! b)"
    using descending_gap[OF d h, of "Suc k" b] b by simp
  have ea: "a = k \<or> a < k" using a by auto
  have eb: "b = Suc k \<or> Suc k < b" using b by auto
  from nc have nck: "(if flatLine (ms ! k) \<or> dblSharpLine (ms ! k) then 5 / 2 else 3)
      \<le> line (ms ! k) - line (ms ! Suc k) + (if dblSharpLine (ms ! Suc k) then 1 / 2 else 0)"
    using checkCollision_top_first[OF lek] by simp
  show ?thesis
    using ea eb ga gb nck unfolding checkCollision_top_first[OF le]
    by (auto split: if_splits)
qed

lemma findGroupEnd_lt: "g < length ms \<Longrightarrow> findGroupEnd ms g < length ms"
proof (induction ms g rule: findGroupEnd.induct)
  case (1 ms groupEnd)
  show ?case
  proof (cases "groupEnd + 1 < length ms \<and> checkCollision (ms ! groupEnd) (ms ! (groupEnd + 1))")
    case True
    then have "findGroupEnd ms groupEnd = findGroupEnd ms (groupEnd + 1)"
      by (subst findGroupEnd.simps) simp
    with 1(1)[OF True] True show ?thesis by simp
  next
    case False
    then have "findGroupEnd ms groupEnd = groupEnd"
      by (subst findGroupEnd.simps) auto
    with 1(2) show ?thesis by simp
  qed
qed

lemma findGroupEnd_chain:
  "g \<le> k \<Longrightarrow> k < findGroupEnd ms g \<Longrightarrow> checkCollision (ms ! k) (ms ! Suc k)"
proof (induction ms g rule: findGroupEnd.induct)
  case (1 ms groupEnd)
  show ?case
  proof (cases "groupEnd + 1 < length ms \<and> checkCollision (ms ! groupEnd) (ms ! (groupEnd + 1))")
    case True
    then have eq: "findGroupEnd ms groupEnd = findGroupEnd ms (groupEnd + 1)"
      by (subst findGroupEnd.simps) simp
    show ?thesis
    proof (cases "k = groupEnd")
      case True
      with \<open>groupEnd + 1 < length ms \<and> _\<close> show ?thesis by simp
    next
      case False
      with 1(2) have "groupEnd + 1 \<le> k" by simp
      from 1(1)[OF True this] 1(3) eq show ?thesis by simp
    qed
  next
    case False
    then have "findGroupEnd ms groupEnd = groupEnd"
      by (subst findGroupEnd.simps) auto
    with 1(2,3) show ?thesis by simp
  qed
qed

lemma findGroupEnd_stop:
  "Suc (findGroupEnd ms g) < length ms \<Longrightarrow>
   \<not> checkCollision (ms ! findGroupEnd ms g) (ms ! Suc (findGroupEnd ms g))"
proof (induction ms g rule: findGroupEnd.induct)
  case (1 ms groupEnd)
  show ?case
  proof (cases "groupEnd + 1 < length ms \<and> checkCollision (ms ! groupEnd) (ms ! (groupEnd + 1))")
    case True
    then have eq: "findGroupEnd ms groupEnd = findGroupEnd ms (groupEnd + 1)"
      by (subst findGroupEnd.simps) simp
    from 1(1)[OF True] 1(2) eq show ?thesis by simp
  next
    case False
    then have "findGroupEnd ms groupEnd = groupEnd"
      by (subst findGroupEnd.simps) auto
    with False 1(2) show ?thesis by simp
  qed
qed

lemma setColumns_nth:
  "k < length ms \<Longrightarrow>
   fst (setColumns f i ks (ms, tc)) ! k =
     (if k \<in> set ks then (ms ! k)\<lparr>column := f (k - i)\<rparr> else ms ! k)"
proof (induction ks arbitrary: ms tc)
  case Nil
  then show ?case by simp
next
  case (Cons g rest)
  let ?ms = "ms[g := (ms ! g)\<lparr>column := f (g - i)\<rparr>]"
  have len: "k < length ?ms" using Cons.prems by simp
  show ?case
    using Cons.IH[OF len] Cons.prems
    by (cases "k = g") (simp_all add: Let_def)
qed

lemma setColumns_length: "length (fst (setColumns f i ks (ms, tc))) = length ms"
  by simp


lemma no_collision_trans:
  assumes d: "descendingLines ms" and "a < b" "b < c" "c < length ms"
    and "\<not> checkCollision (ms ! a) (ms ! b)" "\<not> checkCollision (ms ! b) (ms ! c)"
  shows "\<not> checkCollision (ms ! a) (ms ! c)"
proof -
  have "2 \<le> line (ms ! a) - line (ms ! b)"
    using assms by (intro no_collision_gap descending_le) auto
  moreover have "2 \<le> line (ms ! b) - line (ms ! c)"
    using assms by (intro no_collision_gap descending_le) auto
  ultimately show ?thesis by (intro far_apart_no_collision) linarith
qed

lemma classified_small_group:
  assumes d: "descendingLines ms" and ge: "ge < length ms" and n: "ge = i + n" "n < 6"
    and c: "n = 1 \<Longrightarrow> checkCollision (ms ! i) (ms ! Suc i)"
  shows "\<exists>ps. (Suc n, groupEndCase ms i ge, ps) \<in> set classifiedGroups
           \<and> (\<forall>(p, q) \<in> set ps. \<not> checkCollision (ms ! (i + p)) (ms ! (i + q)))"
proof -
  from n(2) consider "n = 0" | "n = 1" | "n = 2" | "n = 3" | "n = 4" | "n = 5" by linarith
  then show ?thesis
  proof cases
    case 1
    then show ?thesis using n(1)
      by (simp add: groupEndCase_def classifiedGroups_def checkCollision_self)
  next
    case 2
    then show ?thesis using n(1) c
      by (simp add: groupEndCase_def classifiedGroups_def)
  next
    case 3
    then show ?thesis using n(1)
      by (simp add: groupEndCase_def classifiedGroups_def)
  next
    case 4
    then show ?thesis using n(1)
      by (simp add: groupEndCase_def classifiedGroups_def notColliding_def)
  next
    case 5
    then show ?thesis using n(1)
      by (simp add: groupEndCase_def classifiedGroups_def notColliding_def)
  next
    case 6
    have t1: "\<not> checkCollision (ms ! i) (ms ! (i + 2)) \<Longrightarrow>
          \<not> checkCollision (ms ! (i + 2)) (ms ! (i + 4)) \<Longrightarrow>
          \<not> checkCollision (ms ! i) (ms ! (i + 4))"
      using no_collision_trans[OF d, of i "i + 2" "i + 4"] ge n(1) 6 by simp
    have t2: "\<not> checkCollision (ms ! (i + 1)) (ms ! (i + 3)) \<Longrightarrow>
          \<not> checkCollision (ms ! (i + 3)) (ms ! (i + 5)) \<Longrightarrow>
          \<not> checkCollision (ms ! (i + 1)) (ms ! (i + 5))"
      using no_collision_trans[OF d, of "i + 1" "i + 3" "i + 5"] ge n(1) 6 by simp
    show ?thesis using 6 n(1) t1 t2
      by (simp add: groupEndCase_def classifiedGroups_def notColliding_def Let_def)
  qed
qed

lemma findPatternLength_clear:
  "l + findPatternLength ms p < length ms \<Longrightarrow>
   \<not> checkCollision (ms ! l) (ms ! (l + findPatternLength ms p))"
proof (induction ms p arbitrary: l rule: findPatternLength.induct)
  case (1 ms patternLength)
  show ?case
  proof (cases "list_ex (\<lambda>l. checkCollision (ms ! l) (ms ! (l + patternLength)))
                  [0 ..< length ms - patternLength]")
    case True
    then have eq: "findPatternLength ms patternLength = findPatternLength ms (patternLength + 1)"
      by (subst findPatternLength.simps) simp
    from 1(1)[OF True] 1(2) show ?thesis unfolding eq by simp
  next
    case False
    then have eq: "findPatternLength ms patternLength = patternLength"
      by (subst findPatternLength.simps) simp
    from False 1(2) show ?thesis unfolding eq by (auto simp: list_ex_iff)
  qed
qed

lemma findPatternLength_ge: "p \<le> findPatternLength ms p"
proof (induction ms p rule: findPatternLength.induct)
  case (1 ms patternLength)
  show ?case
  proof (cases "list_ex (\<lambda>l. checkCollision (ms ! l) (ms ! (l + patternLength)))
                  [0 ..< length ms - patternLength]")
    case True
    then have eq: "findPatternLength ms patternLength = findPatternLength ms (patternLength + 1)"
      by (subst findPatternLength.simps) simp
    from 1[OF True] show ?thesis unfolding eq by simp
  next
    case False
    then have eq: "findPatternLength ms patternLength = patternLength"
      by (subst findPatternLength.simps) simp
    show ?thesis unfolding eq by simp
  qed
qed

lemma multiples_clear:
  assumes d: "descendingLines ms" and P: "0 < P"
    and clear: "\<And>l. l + P < length ms \<Longrightarrow> \<not> checkCollision (ms ! l) (ms ! (l + P))"
    and k: "0 < k" and len: "a + k * P < length ms"
  shows "\<not> checkCollision (ms ! a) (ms ! (a + k * P))"
proof (cases "k = 1")
  case True
  with clear[of a] len show ?thesis by simp
next
  case False
  with k obtain j where j: "k = Suc (Suc j)" by (cases k; cases "k - 1") auto
  let ?m = "a + Suc j * P"
  have m: "?m + P = a + k * P" using j by simp
  have g1: "2 \<le> line (ms ! a) - line (ms ! (a + P))"
    using clear[of a] len j P
    by (intro no_collision_gap descending_le[OF d]) auto
  have g2: "2 \<le> line (ms ! ?m) - line (ms ! (?m + P))"
  proof (intro no_collision_gap descending_le[OF d])
    show "?m \<le> ?m + P" by simp
    show "?m + P < length ms" using len m by simp
    show "\<not> checkCollision (ms ! ?m) (ms ! (?m + P))"
      using clear[of ?m] len m by simp
  qed
  have g3: "line (ms ! ?m) \<le> line (ms ! (a + P))"
    using len j P by (intro descending_le[OF d]) auto
  from g1 g2 g3 show ?thesis unfolding m[symmetric]
    by (intro far_apart_no_collision) linarith
qed

lemma repeatsOnlyAt_D:
  "repeatsOnlyAt cols ps \<Longrightarrow> p < q \<Longrightarrow> q < length cols \<Longrightarrow> cols ! p = cols ! q \<Longrightarrow>
   (p, q) \<in> set ps"
  by (auto simp: repeatsOnlyAt_def list_all_iff)

lemma table_ok_D:
  "table_ok table \<Longrightarrow> (n, e, ps) \<in> set classifiedGroups \<Longrightarrow>
   \<exists>cols. table n e = Some cols \<and> length cols = n \<and> repeatsOnlyAt cols ps"
  by (auto simp: table_ok_def list_all_iff split: option.splits)

lemma groupColumns_total:
  assumes t: "table_ok table" and d: "descendingLines ms" and i: "i < length ms"
  shows "\<exists>f. groupColumns table ms i (findGroupEnd ms i) = Inr f"
proof (cases "7 \<le> findGroupEnd ms i - i + 1")
  case True
  then show ?thesis by (simp add: groupColumns_def Let_def)
next
  case False
  define n where "n = findGroupEnd ms i - i"
  have ge: "findGroupEnd ms i = i + n" using findGroupEnd_ge[of i ms] by (simp add: n_def)
  have n6: "n < 6" using False by (simp add: n_def)
  have c: "n = 1 \<Longrightarrow> checkCollision (ms ! i) (ms ! Suc i)"
    using findGroupEnd_chain[of i i ms] ge by simp
  from classified_small_group[OF d findGroupEnd_lt[OF i] ge n6 c]
  obtain ps where "(Suc n, groupEndCase ms i (findGroupEnd ms i), ps) \<in> set classifiedGroups"
    by blast
  from table_ok_D[OF t this] False show ?thesis
    by (auto simp: groupColumns_def Let_def ge)
qed

lemma groupColumns_clear:
  assumes t: "table_ok table" and d: "descendingLines ms" and i: "i < length ms"
    and f: "groupColumns table ms i (findGroupEnd ms i) = Inr f"
    and ab: "i \<le> a" "a < b" "b \<le> findGroupEnd ms i"
    and coll: "checkCollision (ms ! a) (ms ! b)"
  shows "f (a - i) \<noteq> f (b - i)"
proof (cases "7 \<le> findGroupEnd ms i - i + 1")
  case True
  define P where "P = findPatternLength ms 2"
  have P: "0 < P" using findPatternLength_ge[of 2 ms] by (simp add: P_def)
  have fdef: "f = (\<lambda>k. k mod P + 1)"
    using f True by (simp add: groupColumns_def Let_def P_def)
  show ?thesis
  proof
    assume "f (a - i) = f (b - i)"
    then have "(b - i) mod P = (a - i) mod P" by (simp add: fdef)
    then have "P dvd (b - i) - (a - i)"
      using ab by (subst (asm) mod_eq_dvd_iff_nat) auto
    then obtain k where k: "b - a = P * k" using ab by (auto simp: dvd_def)
    with ab have k0: "0 < k" by (cases k) auto
    have b: "b = a + k * P" using k ab by (simp add: mult.commute)
    have "\<not> checkCollision (ms ! a) (ms ! (a + k * P))"
    proof (rule multiples_clear[OF d P _ k0])
      show "a + k * P < length ms" using b ab findGroupEnd_lt[OF i] by simp
      show "\<And>l. l + P < length ms \<Longrightarrow> \<not> checkCollision (ms ! l) (ms ! (l + P))"
        unfolding P_def by (rule findPatternLength_clear)
    qed
    with coll b show False by simp
  qed
next
  case False
  define n where "n = findGroupEnd ms i - i"
  have ge: "findGroupEnd ms i = i + n" using findGroupEnd_ge[of i ms] by (simp add: n_def)
  have n6: "n < 6" using False by (simp add: n_def)
  have c: "n = 1 \<Longrightarrow> checkCollision (ms ! i) (ms ! Suc i)"
    using findGroupEnd_chain[of i i ms] ge by simp
  from classified_small_group[OF d findGroupEnd_lt[OF i] ge n6 c]
  obtain ps where ps: "(Suc n, groupEndCase ms i (findGroupEnd ms i), ps) \<in> set classifiedGroups"
    and clear: "\<forall>(p, q) \<in> set ps. \<not> checkCollision (ms ! (i + p)) (ms ! (i + q))"
    by blast
  from table_ok_D[OF t ps] obtain cols where
    cols: "table (Suc n) (groupEndCase ms i (findGroupEnd ms i)) = Some cols"
      "length cols = Suc n" "repeatsOnlyAt cols ps" by blast
  have fdef: "f = (\<lambda>k. cols ! k)"
    using f False cols by (simp add: groupColumns_def Let_def ge)
  show ?thesis
  proof
    assume "f (a - i) = f (b - i)"
    then have "cols ! (a - i) = cols ! (b - i)" by (simp add: fdef)
    from repeatsOnlyAt_D[OF cols(3) _ _ this] ab cols(2) ge
    have "(a - i, b - i) \<in> set ps" by simp
    with clear have "\<not> checkCollision (ms ! (i + (a - i))) (ms ! (i + (b - i)))" by blast
    with coll ab show False by simp
  qed
qed


lemma layoutGroups_step:
  assumes t: "table_ok table" and d: "descendingLines ms" and h: "halfLines ms"
    and i: "i < length ms"
    and bound: "i = 0 \<or> \<not> checkCollision (ms ! (i - 1)) (ms ! i)"
    and clear: "columnsClear ms i"
    and f: "groupColumns table ms i (findGroupEnd ms i) = Inr f"
    and ms': "ms' = fst (setColumns f i [i ..< findGroupEnd ms i + 1] (ms, tc))"
  shows "descendingLines ms' \<and> halfLines ms' \<and> length ms' = length ms
         \<and> (length ms' \<le> findGroupEnd ms i + 1
              \<or> \<not> checkCollision (ms' ! findGroupEnd ms i) (ms' ! (findGroupEnd ms i + 1)))
         \<and> columnsClear ms' (findGroupEnd ms i + 1)"
proof -
  let ?ge = "findGroupEnd ms i"
  have len: "length ms' = length ms" by (simp add: ms')
  have nth: "\<And>k. k < length ms \<Longrightarrow>
      ms' ! k = (if i \<le> k \<and> k \<le> ?ge then (ms ! k)\<lparr>column := f (k - i)\<rparr> else ms ! k)"
    unfolding ms' by (subst setColumns_nth) auto
  have keys: "\<And>k. k < length ms \<Longrightarrow> line (ms' ! k) = line (ms ! k)
      \<and> flatLine (ms' ! k) = flatLine (ms ! k) \<and> dblSharpLine (ms' ! k) = dblSharpLine (ms ! k)"
    by (simp add: nth)
  have coll: "\<And>a b. a < length ms \<Longrightarrow> b < length ms \<Longrightarrow>
      checkCollision (ms' ! a) (ms' ! b) = checkCollision (ms ! a) (ms ! b)"
    by (rule checkCollision_cong) (simp_all add: keys)
  have d': "descendingLines ms'"
    using d by (simp add: descendingLines_def len keys)
  have h': "halfLines ms'"
    using h by (simp add: halfLines_def len keys)
  have stop: "length ms' \<le> ?ge + 1 \<or> \<not> checkCollision (ms' ! ?ge) (ms' ! (?ge + 1))"
  proof (cases "Suc ?ge < length ms")
    case True
    with findGroupEnd_stop[OF True] show ?thesis by (simp add: coll)
  next
    case False
    then show ?thesis by (simp add: len)
  qed
  have "columnsClear ms' (?ge + 1)"
    unfolding columnsClear_def
  proof (intro allI impI, elim conjE)
    fix a b
    assume ab: "a < b" "b < ?ge + 1" "b < length ms'" and c': "checkCollision (ms' ! a) (ms' ! b)"
    from ab len have bl: "b < length ms" and al: "a < length ms" by simp_all
    from c' have c: "checkCollision (ms ! a) (ms ! b)" by (simp add: coll al bl)
    consider "b < i" | "a < i" "i \<le> b" | "i \<le> a" by linarith
    then show "column (ms' ! a) \<noteq> column (ms' ! b)"
    proof cases
      case 1
      with ab clear c bl have "column (ms ! a) \<noteq> column (ms ! b)"
        by (simp add: columnsClear_def)
      with 1 ab al bl show ?thesis by (simp add: nth)
    next
      case 2
      then have i0: "i \<noteq> 0" by simp
      with bound have nc: "\<not> checkCollision (ms ! (i - 1)) (ms ! Suc (i - 1))" by simp
      have "\<not> checkCollision (ms ! a) (ms ! b)"
        using 2 i0 i bl by (intro no_collision_across[OF d h _ nc]) auto
      with c show ?thesis by simp
    next
      case 3
      from groupColumns_clear[OF t d i f 3 ab(1) _ c] ab(2)
      have "f (a - i) \<noteq> f (b - i)" by simp
      with 3 ab al bl show ?thesis by (simp add: nth)
    qed
  qed
  with d' h' len stop show ?thesis by simp
qed

lemma layoutGroups_clear:
  "table_ok table \<Longrightarrow> descendingLines (fst st) \<Longrightarrow> halfLines (fst st) \<Longrightarrow>
         i = 0 \<or> length (fst st) \<le> i \<or> \<not> checkCollision (fst st ! (i - 1)) (fst st ! i) \<Longrightarrow>
         columnsClear (fst st) i \<Longrightarrow>
         \<exists>ms' tc'. layoutGroups table i st = Inr (ms', tc') \<and> columnsClear ms' (length ms')"
proof (induction table i st rule: layoutGroups.induct)
  case (1 table i ms totalColumns)
  show ?case
  proof (cases "i < length ms")
    case False
    then have "layoutGroups table i (ms, totalColumns) = Inr (ms, totalColumns)"
      by (subst layoutGroups.simps) simp
    moreover have "columnsClear ms (length ms)"
      using "1.prems"(5) False by (auto simp: columnsClear_def)
    ultimately show ?thesis by simp
  next
    case True
    let ?ge = "findGroupEnd ms i"
    from groupColumns_total[OF "1.prems"(1) _ True] "1.prems"(2)
    obtain f where f: "groupColumns table ms i ?ge = Inr f" by auto
    let ?st = "setColumns f i [i ..< ?ge + 1] (ms, totalColumns)"
    have bound: "i = 0 \<or> \<not> checkCollision (ms ! (i - 1)) (ms ! i)"
      using "1.prems"(4) True by auto
    have step: "descendingLines (fst ?st) \<and> halfLines (fst ?st) \<and> length (fst ?st) = length ms
         \<and> (length (fst ?st) \<le> ?ge + 1
              \<or> \<not> checkCollision (fst ?st ! ?ge) (fst ?st ! (?ge + 1)))
         \<and> columnsClear (fst ?st) (?ge + 1)"
      using "1.prems" True
      by (intro layoutGroups_step[OF _ _ _ True bound _ f]) auto
    have eq: "layoutGroups table i (ms, totalColumns) = layoutGroups table (?ge + 1) ?st"
      using True f by (subst layoutGroups.simps) (simp add: Let_def)
    have "\<exists>ms' tc'. layoutGroups table (?ge + 1) ?st = Inr (ms', tc')
            \<and> columnsClear ms' (length ms')"
      using step "1.prems"(1)
      by (intro "1.IH"[OF True refl f]) auto
    with eq show ?thesis by simp
  qed
qed

lemma line_addToLineMetric [simp]: "line (addToLineMetric sp p m) = line m"
  by (simp add: addToLineMetric_def Let_def)

lemma lines_lineMetricStep:
  "map line (lineMetricStep sp ms p) =
     (if ms = [] \<or> last (map line ms) \<noteq> pos_line p
      then map line ms @ [pos_line p] else map line ms)"
proof (cases "ms = []")
  case True
  then show ?thesis by (simp add: lineMetricStep_def newLineMetric_def)
next
  case False
  then have "map line (butlast ms) @ [line (last ms)] = map line ms"
    by (metis append_butlast_last_id list.simps(8,9) map_append)
  then have "line (last ms) = pos_line p \<Longrightarrow>
      map line (butlast ms) @ [pos_line p] = map line ms" by metis
  with False show ?thesis
    by (simp add: lineMetricStep_def newLineMetric_def last_map)
qed

lemma buildLineMetrics_lines:
  assumes "sorted (map (\<lambda>p. - pos_line p) ps)"
  shows "sorted_wrt (\<lambda>x y. y < x) (map line (buildLineMetrics sp ps))
         \<and> set (map line (buildLineMetrics sp ps)) \<subseteq> pos_line ` set ps
         \<and> (ps \<noteq> [] \<longrightarrow> buildLineMetrics sp ps \<noteq> []
               \<and> last (map line (buildLineMetrics sp ps)) = pos_line (last ps))"
  using assms
proof (induction ps rule: rev_induct)
  case Nil
  then show ?case by (simp add: buildLineMetrics_def)
next
  case (snoc p ps)
  let ?ms = "buildLineMetrics sp ps"
  let ?L = "map line ?ms"
  have step: "buildLineMetrics sp (ps @ [p]) = lineMetricStep sp ?ms p"
    by (simp add: buildLineMetrics_def)
  from snoc.prems have sorted_ps: "sorted (map (\<lambda>p. - pos_line p) ps)"
    and below: "\<forall>q \<in> set ps. pos_line p \<le> pos_line q"
    by (auto simp: sorted_append)
  note IH = snoc.IH[OF sorted_ps]
  show ?case
  proof (cases "?ms = [] \<or> last ?L \<noteq> pos_line p")
    case False
    then have "map line (buildLineMetrics sp (ps @ [p])) = ?L"
      unfolding step lines_lineMetricStep by simp
    moreover have "ps \<noteq> []" using False by (auto simp: buildLineMetrics_def)
    ultimately show ?thesis using IH False by auto
  next
    case True
    then have eq: "map line (buildLineMetrics sp (ps @ [p])) = ?L @ [pos_line p]"
      unfolding step lines_lineMetricStep by simp
    have "\<forall>x \<in> set ?L. pos_line p < x"
    proof
      fix x assume x: "x \<in> set ?L"
      then have ne: "?ms \<noteq> []" by auto
      then have psne: "ps \<noteq> []" by (auto simp: buildLineMetrics_def)
      with IH have lastL: "last ?L = pos_line (last ps)" by simp
      from ne have L: "?L = butlast ?L @ [last ?L]" by simp
      have "last ?L \<le> x"
      proof (cases "x = last ?L")
        case False
        with x L have "x \<in> set (butlast ?L)"
          by (metis Un_iff empty_iff empty_set set_ConsD set_append)
        moreover have "sorted_wrt (\<lambda>x y. y < x) (butlast ?L @ [last ?L])"
          using IH L by simp
        ultimately show ?thesis by (auto simp: sorted_wrt_append)
      qed simp
      moreover have "pos_line p \<le> last ?L" using below lastL psne by simp
      moreover have "last ?L \<noteq> pos_line p" using True ne by simp
      ultimately show "pos_line p < x" by linarith
    qed
    then have "sorted_wrt (\<lambda>x y. y < x) (?L @ [pos_line p])"
      using IH by (simp add: sorted_wrt_append)
    moreover have "set (?L @ [pos_line p]) \<subseteq> pos_line ` set (ps @ [p])"
      using IH by auto
    moreover have "buildLineMetrics sp (ps @ [p]) \<noteq> []"
      using eq by auto
    ultimately show ?thesis unfolding eq by simp
  qed
qed

lemma buildLineMetrics_sorted:
  assumes "\<forall>p \<in> set ps. halfLine (pos_line p)"
  shows "descendingLines (buildLineMetrics sp (sort_key (\<lambda>p. - pos_line p) ps))
         \<and> halfLines (buildLineMetrics sp (sort_key (\<lambda>p. - pos_line p) ps))"
proof -
  let ?ps = "sort_key (\<lambda>p. - pos_line p) ps"
  let ?ms = "buildLineMetrics sp ?ps"
  have "sorted (map (\<lambda>p. - pos_line p) ?ps)" by (rule sorted_sort_key)
  from buildLineMetrics_lines[OF this, of sp]
  have s: "sorted_wrt (\<lambda>x y. y < x) (map line ?ms)"
    and sub: "set (map line ?ms) \<subseteq> pos_line ` set ps" by simp_all
  from s have "descendingLines ?ms"
    by (auto simp: descendingLines_def sorted_wrt_iff_nth_less)
  moreover have "halfLines ?ms"
    unfolding halfLines_def
  proof (intro allI impI)
    fix k assume "k < length ?ms"
    then have "line (?ms ! k) \<in> set (map line ?ms)" by (metis length_map nth_map nth_mem)
    with sub assms show "halfLine (line (?ms ! k))" by auto
  qed
  ultimately show ?thesis by simp
qed

text \<open>
  Claim C1, as amended. For every non-empty list of accidentals whose lines are
  multiples of half a stave line, and every columns table that fits the classification,
  \<open>Accidental.format\<close> reaches the end of its column loop, and any layout entry and any
  later entry (a lower line) that collide according to \<open>checkCollision\<close>, applied to the
  upper entry first as \<open>format\<close> applies it, have different columns.
\<close>

theorem format_colliding_lines_in_different_columns:
  assumes "table_ok table" and "ps \<noteq> []" and "list_all (\<lambda>p. halfLine (pos_line p)) ps"
  shows "\<exists>ms totalColumns.
           formatColumns table accidentalSpacing ps = Inr (ms, totalColumns)
           \<and> (\<forall>a b. a < b \<and> b < length ms \<and> checkCollision (ms ! a) (ms ! b)
                 \<longrightarrow> column (ms ! a) \<noteq> column (ms ! b))"
proof -
  let ?ms = "buildLineMetrics accidentalSpacing (sort_key (\<lambda>p. - pos_line p) ps)"
  from assms(3) have "\<forall>p \<in> set ps. halfLine (pos_line p)" by (simp add: list_all_iff)
  from buildLineMetrics_sorted[OF this, of accidentalSpacing]
  have "descendingLines ?ms" "halfLines ?ms" by simp_all
  then have "\<exists>ms' tc'. layoutGroups table 0 (?ms, 0) = Inr (ms', tc')
      \<and> columnsClear ms' (length ms')"
    using assms(1) by (intro layoutGroups_clear) (simp_all add: columnsClear_def)
  with assms(2) show ?thesis
    by (auto simp: formatColumns_def columnsClear_def)
qed

text \<open>
  The amended claim at a chord of five accidentals on four lines (two flats share line 1):
  the table fits the classification, the lines are half lines, and the layout entries
  collide only across columns.
\<close>

theorem format_colliding_lines_in_different_columns_witness:
  "table_ok accidentalColumnsTable
   \<and> list_all (\<lambda>p. halfLine (pos_line p))
        [\<lparr>pos_line = 1, extraXSpaceNeeded = 0, accidental = \<lparr>acc_type = ''b'', acc_width = 10\<rparr>\<rparr>,
         \<lparr>pos_line = 4, extraXSpaceNeeded = 0, accidental = \<lparr>acc_type = ''#'', acc_width = 10\<rparr>\<rparr>,
         \<lparr>pos_line = 1, extraXSpaceNeeded = 0, accidental = \<lparr>acc_type = ''bb'', acc_width = 10\<rparr>\<rparr>,
         \<lparr>pos_line = 3, extraXSpaceNeeded = 0, accidental = \<lparr>acc_type = ''##'', acc_width = 10\<rparr>\<rparr>,
         \<lparr>pos_line = 1 / 2, extraXSpaceNeeded = 0, accidental = \<lparr>acc_type = ''n'', acc_width = 10\<rparr>\<rparr>]
   \<and> (\<exists>ms totalColumns.
         formatColumns accidentalColumnsTable 3
           [\<lparr>pos_line = 1, extraXSpaceNeeded = 0, accidental = \<lparr>acc_type = ''b'', acc_width = 10\<rparr>\<rparr>,
            \<lparr>pos_line = 4, extraXSpaceNeeded = 0, accidental = \<lparr>acc_type = ''#'', acc_width = 10\<rparr>\<rparr>,
            \<lparr>pos_line = 1, extraXSpaceNeeded = 0, accidental = \<lparr>acc_type = ''bb'', acc_width = 10\<rparr>\<rparr>,
            \<lparr>pos_line = 3, extraXSpaceNeeded = 0, accidental = \<lparr>acc_type = ''##'', acc_width = 10\<rparr>\<rparr>,
            \<lparr>pos_line = 1 / 2, extraXSpaceNeeded = 0, accidental = \<lparr>acc_type = ''n'', acc_width = 10\<rparr>\<rparr>]
           = Inr (ms, totalColumns)
         \<and> (\<forall>a b. a < b \<and> b < length ms \<and> checkCollision (ms ! a) (ms ! b)
               \<longrightarrow> column (ms ! a) \<noteq> column (ms ! b)))"
proof -
  have t: "table_ok accidentalColumnsTable"
    by (simp add: table_ok_def classifiedGroups_def repeatsOnlyAt_def accidentalColumnsTable_def)
  have h: "list_all (\<lambda>p. halfLine (pos_line p))
        [\<lparr>pos_line = 1, extraXSpaceNeeded = 0, accidental = \<lparr>acc_type = ''b'', acc_width = 10\<rparr>\<rparr>,
         \<lparr>pos_line = 4, extraXSpaceNeeded = 0, accidental = \<lparr>acc_type = ''#'', acc_width = 10\<rparr>\<rparr>,
         \<lparr>pos_line = 1, extraXSpaceNeeded = 0, accidental = \<lparr>acc_type = ''bb'', acc_width = 10\<rparr>\<rparr>,
         \<lparr>pos_line = 3, extraXSpaceNeeded = 0, accidental = \<lparr>acc_type = ''##'', acc_width = 10\<rparr>\<rparr>,
         \<lparr>pos_line = 1 / 2, extraXSpaceNeeded = 0, accidental = \<lparr>acc_type = ''n'', acc_width = 10\<rparr>\<rparr>]"
    by (simp add: halfLine_def)
  have n: "[\<lparr>pos_line = 1, extraXSpaceNeeded = 0, accidental = \<lparr>acc_type = ''b'', acc_width = 10\<rparr>\<rparr>,
         \<lparr>pos_line = 4, extraXSpaceNeeded = 0, accidental = \<lparr>acc_type = ''#'', acc_width = 10\<rparr>\<rparr>,
         \<lparr>pos_line = 1, extraXSpaceNeeded = 0, accidental = \<lparr>acc_type = ''bb'', acc_width = 10\<rparr>\<rparr>,
         \<lparr>pos_line = 3, extraXSpaceNeeded = 0, accidental = \<lparr>acc_type = ''##'', acc_width = 10\<rparr>\<rparr>,
         \<lparr>pos_line = 1 / 2, extraXSpaceNeeded = 0, accidental = \<lparr>acc_type = ''n'', acc_width = 10\<rparr>\<rparr>]
        \<noteq> []"
    by simp
  from t h format_colliding_lines_in_different_columns [OF t n h, of 3]
  show ?thesis by blast
qed

text \<open>
  The layout the source computes for that chord.
\<close>

lemma formatColumns_spaced_out_tetrachord:
  "formatColumns accidentalColumnsTable 3
     [\<lparr>pos_line = 1, extraXSpaceNeeded = 0, accidental = \<lparr>acc_type = ''b'', acc_width = 10\<rparr>\<rparr>,
      \<lparr>pos_line = 4, extraXSpaceNeeded = 0, accidental = \<lparr>acc_type = ''#'', acc_width = 10\<rparr>\<rparr>,
      \<lparr>pos_line = 1, extraXSpaceNeeded = 0, accidental = \<lparr>acc_type = ''bb'', acc_width = 10\<rparr>\<rparr>,
      \<lparr>pos_line = 3, extraXSpaceNeeded = 0, accidental = \<lparr>acc_type = ''##'', acc_width = 10\<rparr>\<rparr>,
      \<lparr>pos_line = 1 / 2, extraXSpaceNeeded = 0, accidental = \<lparr>acc_type = ''n'', acc_width = 10\<rparr>\<rparr>]
   = Inr ([\<lparr>column = 1, line = 4, flatLine = False, dblSharpLine = False, numAcc = 1, width = 13\<rparr>,
           \<lparr>column = 2, line = 3, flatLine = False, dblSharpLine = True, numAcc = 1, width = 13\<rparr>,
           \<lparr>column = 1, line = 1, flatLine = True, dblSharpLine = False, numAcc = 2, width = 26\<rparr>,
           \<lparr>column = 2, line = 1 / 2, flatLine = False, dblSharpLine = False, numAcc = 1, width = 13\<rparr>],
          2)"
  by (simp add: formatColumns_def buildLineMetrics_def lineMetricStep_def addToLineMetric_def
      newLineMetric_def groupColumns_def groupEndCase_def checkCollision_def
      accidentalColumnsTable_def Let_def findGroupEnd.simps layoutGroups.simps
      notColliding_def lineDifference_def)

text \<open>
  Claim C1 as stated speaks of every list of accidentals and of any two entries whose
  lines collide according to \<open>checkCollision\<close>; it fails in two ways.

  Without a stave \<open>format\<close> takes the line of a key as it is. On the lines 2.75, 2.5 (a
  flat), 0 and -0.25 the flat and the line 0 do not collide, so there are two groups of
  two, and the lines 2.75 and 0, which collide (upper line first, as \<open>format\<close> asks),
  both get the first column of the two-line layout.

  A sharp on line 2.5 and a double sharp on line 0 do not collide when \<open>format\<close> asks
  (upper line first), so each is a group of its own and both get the first column of the
  one-line layout; asked with the double-sharp line first, \<open>checkCollision\<close> reports
  that these two entries collide.
\<close>

theorem format_same_column_for_colliding_lines:
  "(formatColumns accidentalColumnsTable 3
     [\<lparr>pos_line = 11 / 4, extraXSpaceNeeded = 0, accidental = \<lparr>acc_type = ''#'', acc_width = 10\<rparr>\<rparr>,
      \<lparr>pos_line = 5 / 2, extraXSpaceNeeded = 0, accidental = \<lparr>acc_type = ''b'', acc_width = 10\<rparr>\<rparr>,
      \<lparr>pos_line = 0, extraXSpaceNeeded = 0, accidental = \<lparr>acc_type = ''#'', acc_width = 10\<rparr>\<rparr>,
      \<lparr>pos_line = - 1 / 4, extraXSpaceNeeded = 0, accidental = \<lparr>acc_type = ''#'', acc_width = 10\<rparr>\<rparr>]
    = Inr ([\<lparr>column = 1, line = 11 / 4, flatLine = False, dblSharpLine = False, numAcc = 1, width = 13\<rparr>,
            \<lparr>column = 2, line = 5 / 2, flatLine = True, dblSharpLine = False, numAcc = 1, width = 13\<rparr>,
            \<lparr>column = 1, line = 0, flatLine = False, dblSharpLine = False, numAcc = 1, width = 13\<rparr>,
            \<lparr>column = 2, line = - 1 / 4, flatLine = False, dblSharpLine = False, numAcc = 1, width = 13\<rparr>],
           2)
    \<and> checkCollision
         \<lparr>column = 1, line = 11 / 4, flatLine = False, dblSharpLine = False, numAcc = 1, width = 13\<rparr>
         \<lparr>column = 1, line = 0, flatLine = False, dblSharpLine = False, numAcc = 1, width = 13\<rparr>)
   \<and> (formatColumns accidentalColumnsTable 3
        [\<lparr>pos_line = 0, extraXSpaceNeeded = 0, accidental = \<lparr>acc_type = ''##'', acc_width = 10\<rparr>\<rparr>,
         \<lparr>pos_line = 5 / 2, extraXSpaceNeeded = 0, accidental = \<lparr>acc_type = ''#'', acc_width = 10\<rparr>\<rparr>]
       = Inr ([\<lparr>column = 1, line = 5 / 2, flatLine = False, dblSharpLine = False, numAcc = 1, width = 13\<rparr>,
               \<lparr>column = 1, line = 0, flatLine = False, dblSharpLine = True, numAcc = 1, width = 13\<rparr>],
              1)
       \<and> checkCollision
            \<lparr>column = 1, line = 0, flatLine = False, dblSharpLine = True, numAcc = 1, width = 13\<rparr>
            \<lparr>column = 1, line = 5 / 2, flatLine = False, dblSharpLine = False, numAcc = 1, width = 13\<rparr>)"
  by (simp add: formatColumns_def buildLineMetrics_def lineMetricStep_def addToLineMetric_def
      newLineMetric_def groupColumns_def groupEndCase_def checkCollision_def
      accidentalColumnsTable_def Let_def findGroupEnd.simps layoutGroups.simps
      notColliding_def lineDifference_def)


section \<open>Formatter.createTickContexts without voices\<close>

text \<open>
  Claim C10. \<open>createTickContexts\<close> applied to an empty list of voices returns an
  \<open>AlignmentTickContexts\<close> whose map, array and list are empty and whose resolution
  multiplier is 0, raises nothing and leaves the formatter unchanged, although
  \<open>getResolutionMultiplier\<close> raises \<open>BadArgument\<close>, "No voices to format", on the empty
  list.
\<close>

theorem createTickContexts_no_voices:
  "createTickContexts [] s =
     Inr (\<lparr>tc_list = [], tc_map = Map.empty, tc_array = [], resolutionMultiplier = 0\<rparr>, s)
   \<and> getResolutionMultiplier [] = Inl (RuntimeError ''BadArgument'' ''No voices to format'')"
  by (simp add: createTickContexts_def emptyTickContexts_def getResolutionMultiplier_def)


section \<open>Formatter.getResolutionMultiplier: which error is raised\<close>

lemma resolutionReduce_first_offending:
  "resolutionReduce firstTotal accumulator vs =
     (case find (offending firstTotal) vs of
        None \<Rightarrow>
          Inr (foldl (\<lambda>a v. max a (Fraction_LCM a (voiceResolutionMultiplier v))) accumulator vs)
      | Some v \<Rightarrow>
          (if \<not> Fraction_equals (totalTicks v) firstTotal
           then Inl (RuntimeError ''TickMismatch''
                       ''Voices should have same total note duration in ticks.'')
           else Inl (RuntimeError ''IncompleteVoice'' ''Voice does not have enough notes.'')))"
  by (induction vs arbitrary: accumulator) (auto simp: offending_def split: option.splits)

lemma format_incomplete_voice:
  assumes "mode v = STRICT" and "\<not> isComplete v"
  shows "format fs metrics [v] justify s =
           Some (Inl (RuntimeError ''IncompleteVoice'' ''Voice does not have enough notes.''))"
proof -
  have e: "Fraction_equals (totalTicks w) (totalTicks w)" for w :: Voice
    by (simp add: Fraction_equals_def)
  have "getResolutionMultiplier [v\<lparr>voiceSoftmaxFactor := f\<rparr>] =
      Inl (RuntimeError ''IncompleteVoice'' ''Voice does not have enough notes.'')" for f
    using assms by (simp add: getResolutionMultiplier_def e isComplete_def)
  moreover have "getResolutionMultiplier [v] =
      Inl (RuntimeError ''IncompleteVoice'' ''Voice does not have enough notes.'')"
    using assms by (simp add: getResolutionMultiplier_def e)
  ultimately show ?thesis
    by (simp add: format_def alignRests_def createTickContexts_def Let_def)
qed


text \<open>
  Claim C6, as amended. On a non-empty list of voices \<open>getResolutionMultiplier\<close> raises
  the error of the first offending voice in list order: "tick mismatch" when that
  voice's total ticks differ from those of the first voice, otherwise "incomplete
  voice" (the voice is then a \<open>STRICT\<close> voice that is not complete); without an offending
  voice it returns the accumulated least common multiple. A single \<open>STRICT\<close> voice that
  is not complete makes \<open>format\<close> raise "incomplete voice".
\<close>

theorem getResolutionMultiplier_first_offending_voice:
  "(vs \<noteq> [] \<longrightarrow>
      getResolutionMultiplier vs =
        (case find (offending (totalTicks (hd vs))) vs of
           None \<Rightarrow>
             Inr (foldl (\<lambda>a v. max a (Fraction_LCM a (voiceResolutionMultiplier v))) 1 vs)
         | Some v \<Rightarrow>
             (if \<not> Fraction_equals (totalTicks v) (totalTicks (hd vs))
              then Inl (RuntimeError ''TickMismatch''
                          ''Voices should have same total note duration in ticks.'')
              else Inl (RuntimeError ''IncompleteVoice'' ''Voice does not have enough notes.''))))
   \<and> (mode v = STRICT \<and> \<not> isComplete v \<longrightarrow>
        format fs metrics [v] justify s =
          Some (Inl (RuntimeError ''IncompleteVoice'' ''Voice does not have enough notes.'')))"
proof (intro conjI impI)
  assume "vs \<noteq> []"
  then obtain first rest where vs: "vs = first # rest" by (cases vs) auto
  show "getResolutionMultiplier vs =
        (case find (offending (totalTicks (hd vs))) vs of
           None \<Rightarrow>
             Inr (foldl (\<lambda>a v. max a (Fraction_LCM a (voiceResolutionMultiplier v))) 1 vs)
         | Some v \<Rightarrow>
             (if \<not> Fraction_equals (totalTicks v) (totalTicks (hd vs))
              then Inl (RuntimeError ''TickMismatch''
                          ''Voices should have same total note duration in ticks.'')
              else Inl (RuntimeError ''IncompleteVoice'' ''Voice does not have enough notes.'')))"
    unfolding vs getResolutionMultiplier_def
    by (simp only: list.case list.sel resolutionReduce_first_offending)
next
  assume "mode v = STRICT \<and> \<not> isComplete v"
  then show "format fs metrics [v] justify s =
          Some (Inl (RuntimeError ''IncompleteVoice'' ''Voice does not have enough notes.''))"
    by (simp add: format_incomplete_voice)
qed


text \<open>
  A complete 3/4 voice followed by the \<open>STRICT\<close> 4/4 voice that misses a quarter: the
  second voice is the first offending one and its totals differ, so "tick mismatch" is
  raised, not "incomplete voice". Alone, the \<open>STRICT\<close> voice makes \<open>format\<close> raise
  "incomplete voice".
\<close>

theorem getResolutionMultiplier_first_offending_voice_witness:
  "getResolutionMultiplier [softVoiceThreeFour, strictVoiceMissingQuarter] =
     Inl (RuntimeError ''TickMismatch'' ''Voices should have same total note duration in ticks.'')
   \<and> mode strictVoiceMissingQuarter = STRICT \<and> \<not> isComplete strictVoiceMissingQuarter
   \<and> (\<forall>fs metrics justify s.
         format fs metrics [strictVoiceMissingQuarter] justify s =
           Some (Inl (RuntimeError ''IncompleteVoice'' ''Voice does not have enough notes.'')))"
proof -
  have m: "mode strictVoiceMissingQuarter = STRICT \<and> \<not> isComplete strictVoiceMissingQuarter"
    by (simp add: strictVoiceMissingQuarter_def isComplete_def Fraction_equals_def)
  have f: "find (offending (totalTicks softVoiceThreeFour))
             [softVoiceThreeFour, strictVoiceMissingQuarter] = Some strictVoiceMissingQuarter"
    by (simp add: offending_def strictVoiceMissingQuarter_def softVoiceThreeFour_def
        Fraction_equals_def)
  have n: "\<not> Fraction_equals (totalTicks strictVoiceMissingQuarter) (totalTicks softVoiceThreeFour)"
    by (simp add: strictVoiceMissingQuarter_def softVoiceThreeFour_def Fraction_equals_def)
  from getResolutionMultiplier_first_offending_voice
         [of "[softVoiceThreeFour, strictVoiceMissingQuarter]" strictVoiceMissingQuarter]
       m f n
  show ?thesis by simp
qed


text \<open>
  Claim C6 as stated promises "tick mismatch" whenever some voice's total differs from
  the first voice's. With the incomplete \<open>STRICT\<close> voice first and the 3/4 voice second
  the totals differ, and the error raised is "incomplete voice".
\<close>

theorem getResolutionMultiplier_incomplete_before_mismatch:
  "getResolutionMultiplier [strictVoiceMissingQuarter, softVoiceThreeFour] =
     Inl (RuntimeError ''IncompleteVoice'' ''Voice does not have enough notes.'')
   \<and> \<not> Fraction_equals (totalTicks softVoiceThreeFour) (totalTicks strictVoiceMissingQuarter)"
  by (simp add: getResolutionMultiplier_def strictVoiceMissingQuarter_def softVoiceThreeFour_def
      Fraction_equals_def isComplete_def)


text \<open>
  And it promises "incomplete voice" whenever a \<open>STRICT\<close> voice is not complete; in the
  other order the error raised is "tick mismatch".
\<close>

lemma getResolutionMultiplier_mismatch_before_incomplete:
  "getResolutionMultiplier [softVoiceThreeFour, strictVoiceMissingQuarter] =
     Inl (RuntimeError ''TickMismatch'' ''Voices should have same total note duration in ticks.'')
   \<and> mode strictVoiceMissingQuarter = STRICT \<and> \<not> isComplete strictVoiceMissingQuarter"
  by (simp add: getResolutionMultiplier_def strictVoiceMissingQuarter_def softVoiceThreeFour_def
      Fraction_equals_def isComplete_def)



section \<open>Formatter.preCalculateMinTotalWidth\<close>

lemma TickContext_preFormat_idem:
  "TickContext_preFormat objects (TickContext_preFormat objects c) = TickContext_preFormat objects c"
  by (simp add: TickContext_preFormat_def getTickables_def Let_def)

lemma TickContext_preFormat_width:
  "tc_width (TickContext_preFormat objects c) = largestWidth objects (TickContext_preFormat objects c)"
  by (simp add: TickContext_preFormat_def getTickables_def largestWidth_def Let_def comp_def)

lemma widthPass_entry:
  "widthPass objects n l acc = Inr acc' \<Longrightarrow> fst acc t = Some c \<Longrightarrow>
   fst acc' t = Some c \<or> fst acc' t = Some (TickContext_preFormat objects c)"
proof (induction l arbitrary: acc c)
  case Nil
  then show ?case by simp
next
  case (Cons tick rest)
  obtain m mt u ws ds W D where acc: "acc = (m, mt, u, ws, ds, W, D)" by (cases acc) auto
  from Cons.prems(1) obtain c0 where c0: "m tick = Some c0"
    by (auto simp: acc split: option.splits)
  let ?acc1 = "(m(tick \<mapsto> TickContext_preFormat objects c0),
                mt + tc_width (TickContext_preFormat objects c0),
                (if length (getTickables (TickContext_preFormat objects c0)) < n then u + 1 else u),
                foldl (+) ws (map (\<lambda>t. tm_width (tk_metrics (objects t)))
                                (getTickables (TickContext_preFormat objects c0))),
                foldl (+) ds (map (\<lambda>t. Fraction_value (ticks (objects t)))
                                (getTickables (TickContext_preFormat objects c0))),
                W @ map (\<lambda>t. tm_width (tk_metrics (objects t)))
                      (getTickables (TickContext_preFormat objects c0)),
                D @ map (\<lambda>t. Fraction_value (ticks (objects t)))
                      (getTickables (TickContext_preFormat objects c0)))"
  have rest: "widthPass objects n rest ?acc1 = Inr acc'"
    using Cons.prems(1) by (simp add: acc c0 Let_def)
  show ?case
  proof (cases "t = tick")
    case True
    with Cons.prems(2) acc c0 have "c = c0" by simp
    moreover have "fst ?acc1 t = Some (TickContext_preFormat objects c0)"
      using True by simp
    from Cons.IH[OF rest this]
    have "fst acc' t = Some (TickContext_preFormat objects c0)"
      by (auto simp: TickContext_preFormat_idem)
    ultimately show ?thesis by simp
  next
    case False
    then have "fst ?acc1 t = Some c" using Cons.prems(2) acc by simp
    from Cons.IH[OF rest this] show ?thesis .
  qed
qed

lemma widthPass_sum:
  "widthPass objects n l (m, mt, u, ws, ds, W, D) = Inr (m', mt', u', ws', ds', W', D') \<Longrightarrow>
   mt' = mt + sum_list (map (contextWidth m') l)
   \<and> list_all (\<lambda>tick. case m' tick of None \<Rightarrow> False
                        | Some c \<Rightarrow> tc_width c = largestWidth objects c) l"
proof (induction l arbitrary: m mt u ws ds W D)
  case Nil
  then show ?case by simp
next
  case (Cons tick rest)
  from Cons.prems obtain c0 where c0: "m tick = Some c0"
    by (auto split: option.splits)
  let ?c = "TickContext_preFormat objects c0"
  let ?acc1 = "(m(tick \<mapsto> ?c), mt + tc_width ?c,
                (if length (getTickables ?c) < n then u + 1 else u),
                foldl (+) ws (map (\<lambda>t. tm_width (tk_metrics (objects t))) (getTickables ?c)),
                foldl (+) ds (map (\<lambda>t. Fraction_value (ticks (objects t))) (getTickables ?c)),
                W @ map (\<lambda>t. tm_width (tk_metrics (objects t))) (getTickables ?c),
                D @ map (\<lambda>t. Fraction_value (ticks (objects t))) (getTickables ?c))"
  have rest: "widthPass objects n rest ?acc1 = Inr (m', mt', u', ws', ds', W', D')"
    using Cons.prems by (simp add: c0 Let_def)
  from widthPass_entry[OF rest, of tick ?c]
  have m't: "m' tick = Some ?c" by (auto simp: TickContext_preFormat_idem)
  from Cons.IH[OF rest] m't show ?case
    by (simp add: contextWidth_def TickContext_preFormat_width[symmetric])
qed

lemma createTickContexts_flag:
  "createTickContexts vs s = Inr (cs, s1) \<Longrightarrow>
   hasMinTotalWidth s1 = hasMinTotalWidth s \<and> store s1 = store s"
  by (auto simp: createTickContexts_def Let_def split: if_splits sum.splits prod.splits)

lemma preCalculateMinTotalWidth_first:
  assumes "\<not> hasMinTotalWidth s"
    and "preCalculateMinTotalWidth metrics vs s = Inr (w, s')"
  shows "hasMinTotalWidth s' \<and> minTotalWidth s' = sumContextWidths (tickContexts s')
         \<and> store s' = store s
         \<and> list_all (\<lambda>tick. case tc_map (tickContexts s') tick of None \<Rightarrow> False
                        | Some c \<Rightarrow> tc_width c = largestWidth (store s') c)
              (tc_list (tickContexts s'))
         \<and> (\<exists>unalignedCtxCount wsum dsum widths durations.
               w = js_plus (minTotalWidth s')
                     (paddingEstimate (unalignedNotePadding metrics)
                        (length (tc_list (tickContexts s')))
                        unalignedCtxCount wsum dsum widths durations))"
proof -
  from assms obtain cs s1 where c: "createTickContexts vs s = Inr (cs, s1)"
    by (auto simp: preCalculateMinTotalWidth_def split: sum.splits)
  from assms c obtain m' mt u ws ds W D where
    wp: "widthPass (store s1) (length vs) (tc_list (tickContexts s1))
           (tc_map (tickContexts s1), 0, 0, 0, 0, [], []) = Inr (m', mt, u, ws, ds, W, D)"
    by (auto simp: preCalculateMinTotalWidth_def Let_def split: sum.splits)
  from assms c wp have
    w: "w = js_plus mt (paddingEstimate (unalignedNotePadding metrics)
                          (length (tc_list (tickContexts s1))) u ws ds W D)"
    and s': "s' = s1\<lparr>tickContexts := (tickContexts s1)\<lparr>tc_map := m'\<rparr>,
                    minTotalWidth := mt, hasMinTotalWidth := True\<rparr>"
    by (auto simp: preCalculateMinTotalWidth_def Let_def)
  have len: "tc_list (tickContexts s') = tc_list (tickContexts s1)" by (simp add: s')
  have mt: "minTotalWidth s' = mt" by (simp add: s')
  have ex: "\<exists>unalignedCtxCount wsum dsum widths durations.
               w = js_plus (minTotalWidth s')
                     (paddingEstimate (unalignedNotePadding metrics)
                        (length (tc_list (tickContexts s')))
                        unalignedCtxCount wsum dsum widths durations)"
    unfolding len mt using w by blast
  have sel: "hasMinTotalWidth s'" "store s' = store s1" "tc_map (tickContexts s') = m'"
    by (simp_all add: s')
  have la: "list_all (\<lambda>tick. case tc_map (tickContexts s') tick of None \<Rightarrow> False
                        | Some c \<Rightarrow> tc_width c = largestWidth (store s') c)
              (tc_list (tickContexts s'))"
    unfolding sel len using widthPass_sum[OF wp] by (rule conjunct2)
  have su: "minTotalWidth s' = sumContextWidths (tickContexts s')"
    using widthPass_sum[OF wp] by (simp add: sumContextWidths_def sel len mt)
  have "store s' = store s" using createTickContexts_flag[OF c] sel by simp
  with sel(1) la su
  have "hasMinTotalWidth s' \<and> minTotalWidth s' = sumContextWidths (tickContexts s')
         \<and> store s' = store s
         \<and> list_all (\<lambda>tick. case tc_map (tickContexts s') tick of None \<Rightarrow> False
                        | Some c \<Rightarrow> tc_width c = largestWidth (store s') c)
              (tc_list (tickContexts s'))"
    by blast
  with ex show ?thesis by blast
qed

lemma paddingEstimate_nonneg:
  assumes "0 \<le> p" and "paddingEstimate p k u wsum dsum W D = Fin r"
  shows "0 \<le> r"
proof -
  have "0 \<le> p * real u" using assms(1) by simp
  moreover have "js_max (Fin a) x = Fin r \<Longrightarrow> a \<le> r" for a x
    by (cases x) auto
  ultimately show ?thesis
    using assms(2) by (fastforce simp: paddingEstimate_def Let_def split: if_splits)
qed

lemma js_plus_Fin: "js_plus a x = Fin r \<Longrightarrow> \<exists>b. x = Fin b \<and> r = a + b"
  by (cases x) auto

lemma preCalculateMinTotalWidth_sets:
  "preCalculateMinTotalWidth metrics vs s = Inr (w, s') \<Longrightarrow> hasMinTotalWidth s'"
  using preCalculateMinTotalWidth_first[of s metrics vs w s']
  by (cases "hasMinTotalWidth s") (auto simp: preCalculateMinTotalWidth_def)

lemmas example_defs =
  preCalculateMinTotalWidth_def createTickContexts_def getResolutionMultiplier_def
  quarterNotes_def newFormatter_def noOptions_def softVoice_def plainNote_def exampleMetrics_def
  emptyTickContexts_def Fraction_equals_def Fraction_LCM_def Fraction_add_def Fraction_value_def
  isComplete_def newTickContext_def addTickable_def getTickables_def TickContext_preFormat_def
  paddingEstimate_def sumArray_def js_div_def Let_def sumContextWidths_def contextWidth_def
  sumTickableWidths_def

text \<open>
  Claim C4, as amended. On a formatter without a computed width, when
  \<open>preCalculateMinTotalWidth\<close> returns a number and the configured padding for unaligned
  notes is not negative, the value returned is at least the sum over the tick contexts
  of the width of the context, which is the largest intrinsic width among the tickables
  that share the tick; the padding added on top of that sum is not negative.
\<close>

theorem preCalculateMinTotalWidth_at_least_context_widths:
  assumes "\<not> hasMinTotalWidth s"
    and "preCalculateMinTotalWidth metrics vs s = Inr (Fin r, s')"
    and "0 \<le> unalignedNotePadding metrics"
  shows "sumContextWidths (tickContexts s') \<le> r
         \<and> 0 \<le> r - sumContextWidths (tickContexts s')
         \<and> list_all (\<lambda>tick. case tc_map (tickContexts s') tick of None \<Rightarrow> False
                        | Some c \<Rightarrow> tc_width c = largestWidth (store s) c)
              (tc_list (tickContexts s'))"
proof -
  from preCalculateMinTotalWidth_first[OF assms(1,2)] obtain u ws ds W D where
    m: "minTotalWidth s' = sumContextWidths (tickContexts s')"
    and st: "store s' = store s"
    and l: "list_all (\<lambda>tick. case tc_map (tickContexts s') tick of None \<Rightarrow> False
                        | Some c \<Rightarrow> tc_width c = largestWidth (store s') c)
              (tc_list (tickContexts s'))"
    and w: "Fin r = js_plus (minTotalWidth s')
                     (paddingEstimate (unalignedNotePadding metrics)
                        (length (tc_list (tickContexts s'))) u ws ds W D)"
    by blast
  from js_plus_Fin[OF w[symmetric]] obtain b where
    b: "paddingEstimate (unalignedNotePadding metrics)
          (length (tc_list (tickContexts s'))) u ws ds W D = Fin b"
    and r: "r = minTotalWidth s' + b" by blast
  from paddingEstimate_nonneg[OF assms(3) b] have "0 \<le> b" .
  with r m have "sumContextWidths (tickContexts s') \<le> r
      \<and> 0 \<le> r - sumContextWidths (tickContexts s')" by simp
  with l[unfolded st] show ?thesis by blast
qed

text \<open>
  Two voices, quarter notes of width 10: two notes in the first voice, one in the
  second. The contexts at ticks 0 and 4096 have width 10 each, the second context is
  unaligned, and the value returned is 20 plus a padding of 10.
\<close>

theorem preCalculateMinTotalWidth_at_least_context_widths_witness:
  "\<not> hasMinTotalWidth quarterNotes \<and> 0 \<le> unalignedNotePadding exampleMetrics
   \<and> (\<exists>s'. preCalculateMinTotalWidth exampleMetrics [softVoice [0, 1], softVoice [2]] quarterNotes
               = Inr (Fin 30, s')
            \<and> sumContextWidths (tickContexts s') = 20
            \<and> sumContextWidths (tickContexts s') \<le> 30)"
proof -
  have h: "\<not> hasMinTotalWidth quarterNotes"
    by (simp add: quarterNotes_def newFormatter_def)
  have p: "0 \<le> unalignedNotePadding exampleMetrics"
    by (simp add: exampleMetrics_def)
  have f: "map_sum id fst
             (preCalculateMinTotalWidth exampleMetrics [softVoice [0, 1], softVoice [2]] quarterNotes)
           = Inr (Fin 30)"
    by (simp add: example_defs)
  have g: "map_sum id (\<lambda>(w, s). sumContextWidths (tickContexts s))
             (preCalculateMinTotalWidth exampleMetrics [softVoice [0, 1], softVoice [2]] quarterNotes)
           = Inr 20"
    by (simp add: example_defs)
  from f obtain s1 where
    s1: "preCalculateMinTotalWidth exampleMetrics [softVoice [0, 1], softVoice [2]] quarterNotes
           = Inr (Fin 30, s1)"
    by (cases "preCalculateMinTotalWidth exampleMetrics [softVoice [0, 1], softVoice [2]] quarterNotes")
       auto
  from g s1 have w: "sumContextWidths (tickContexts s1) = 20" by simp
  from preCalculateMinTotalWidth_at_least_context_widths [OF h s1 p]
  have "sumContextWidths (tickContexts s1) \<le> 30" by simp
  with h p s1 w show ?thesis by blast
qed

text \<open>
  Claim C4 as stated compares the value with the sum of the widths of all tickables of
  all voices. Two voices with one quarter note of width 10 each share the context at
  tick 0, whose width is 10; nothing is unaligned and widths and durations do not vary,
  so the value returned is 10, and the widths of the two tickables add up to 20.
\<close>

theorem preCalculateMinTotalWidth_below_sum_of_tickable_widths:
  "map_sum id fst
     (preCalculateMinTotalWidth exampleMetrics [softVoice [0], softVoice [1]] quarterNotes)
     = Inr (Fin 10)
   \<and> sumTickableWidths (store quarterNotes) [softVoice [0], softVoice [1]] = 20"
  by (simp add: example_defs)

text \<open>
  Claim C9. On a formatter whose minimum width is computed, \<open>preCalculateMinTotalWidth\<close>
  returns the stored \<open>minTotalWidth\<close> at once and leaves the formatter as it is, whatever
  the voices. After a first call on a formatter without a computed width, the stored
  value is the bare sum of the widths of the tick contexts, which a further call returns,
  while the first call returned that sum plus the padding estimate.
\<close>

theorem preCalculateMinTotalWidth_cached:
  "(hasMinTotalWidth s \<longrightarrow>
      preCalculateMinTotalWidth metrics vs s = Inr (Fin (minTotalWidth s), s))
   \<and> (\<not> hasMinTotalWidth s \<and> preCalculateMinTotalWidth metrics vs s = Inr (w, s1) \<longrightarrow>
        preCalculateMinTotalWidth metrics ws s1
          = Inr (Fin (sumContextWidths (tickContexts s1)), s1)
        \<and> (\<exists>unalignedCtxCount wsum dsum widths durations.
              w = js_plus (sumContextWidths (tickContexts s1))
                    (paddingEstimate (unalignedNotePadding metrics)
                       (length (tc_list (tickContexts s1)))
                       unalignedCtxCount wsum dsum widths durations)))"
proof (intro conjI impI)
  assume "hasMinTotalWidth s"
  then show "preCalculateMinTotalWidth metrics vs s = Inr (Fin (minTotalWidth s), s)"
    by (simp add: preCalculateMinTotalWidth_def)
next
  assume a: "\<not> hasMinTotalWidth s \<and> preCalculateMinTotalWidth metrics vs s = Inr (w, s1)"
  then have f: "hasMinTotalWidth s1" "minTotalWidth s1 = sumContextWidths (tickContexts s1)"
    using preCalculateMinTotalWidth_first[of s metrics vs w s1] by simp_all
  then show "preCalculateMinTotalWidth metrics ws s1
          = Inr (Fin (sumContextWidths (tickContexts s1)), s1)"
    by (simp add: preCalculateMinTotalWidth_def)
  from a show "\<exists>unalignedCtxCount wsum dsum widths durations.
              w = js_plus (sumContextWidths (tickContexts s1))
                    (paddingEstimate (unalignedNotePadding metrics)
                       (length (tc_list (tickContexts s1)))
                       unalignedCtxCount wsum dsum widths durations)"
  proof -
    from a preCalculateMinTotalWidth_first[of s metrics vs w s1]
    have "\<exists>unalignedCtxCount wsum dsum widths durations.
               w = js_plus (minTotalWidth s1)
                     (paddingEstimate (unalignedNotePadding metrics)
                        (length (tc_list (tickContexts s1)))
                        unalignedCtxCount wsum dsum widths durations)"
      by blast
    then show ?thesis unfolding f(2) .
  qed
qed


text \<open>
  On the two voices above the first call returns 30 and the second call, on the
  formatter the first one leaves, returns 20 and changes nothing.
\<close>

theorem preCalculateMinTotalWidth_cached_witness:
  "\<not> hasMinTotalWidth quarterNotes
   \<and> (\<exists>s1. preCalculateMinTotalWidth exampleMetrics [softVoice [0, 1], softVoice [2]] quarterNotes
               = Inr (Fin 30, s1)
            \<and> hasMinTotalWidth s1
            \<and> preCalculateMinTotalWidth exampleMetrics [softVoice [0, 1], softVoice [2]] s1
               = Inr (Fin 20, s1))"
proof -
  have h: "\<not> hasMinTotalWidth quarterNotes"
    by (simp add: quarterNotes_def newFormatter_def)
  have f: "map_sum id fst
             (preCalculateMinTotalWidth exampleMetrics [softVoice [0, 1], softVoice [2]] quarterNotes)
           = Inr (Fin 30)"
    by (simp add: example_defs)
  have g: "map_sum id (\<lambda>(w, s). sumContextWidths (tickContexts s))
             (preCalculateMinTotalWidth exampleMetrics [softVoice [0, 1], softVoice [2]] quarterNotes)
           = Inr 20"
    by (simp add: example_defs)
  from f obtain s1 where
    s1: "preCalculateMinTotalWidth exampleMetrics [softVoice [0, 1], softVoice [2]] quarterNotes
           = Inr (Fin 30, s1)"
    by (cases "preCalculateMinTotalWidth exampleMetrics [softVoice [0, 1], softVoice [2]] quarterNotes")
       auto
  from g s1 have w: "sumContextWidths (tickContexts s1) = 20" by simp
  from preCalculateMinTotalWidth_cached
         [where s = quarterNotes and metrics = exampleMetrics
            and vs = "[softVoice [0, 1], softVoice [2]]" and w = "Fin 30" and ?s1.0 = s1
            and ws = "[softVoice [0, 1], softVoice [2]]"]
       h s1 w
  have "preCalculateMinTotalWidth exampleMetrics [softVoice [0, 1], softVoice [2]] s1
               = Inr (Fin 20, s1)" by simp
  moreover from s1 have "hasMinTotalWidth s1" by (rule preCalculateMinTotalWidth_sets)
  ultimately show ?thesis using h s1 by blast
qed


section \<open>Formatter.getMinTotalWidth\<close>

lemma evaluate_keeps_width:
  "evaluate s = Inr (c, s') \<Longrightarrow>
   hasMinTotalWidth s' = hasMinTotalWidth s \<and> minTotalWidth s' = minTotalWidth s"
  by (auto simp: evaluate_def Let_def split: sum.splits prod.splits)

lemma reposition_keeps_width [simp]:
  "hasMinTotalWidth (reposition p s) = hasMinTotalWidth s"
  "minTotalWidth (reposition p s) = minTotalWidth s"
  by (simp_all add: reposition_def)

lemma justifyLoop_keeps_width_result:
  "justifyLoop fs metrics a md maxX j = Some y \<Longrightarrow>
   (case snd y of
      Inl e \<Rightarrow> True
    | Inr j' \<Rightarrow> hasMinTotalWidth (formatter j') = hasMinTotalWidth (formatter j)
        \<and> minTotalWidth (formatter j') = minTotalWidth (formatter j))"
proof (induction rule: justifyLoop.raw_induct[rotated 1, consumes 1])
  case (1 loop fs metrics a md maxX j y)
  show ?case
  proof (cases "(actualWidth j > maxX \<and> js_greater (iterationsLeft j) 0)
         \<or> (actualWidth j + paddingMax j < maxX \<and> js_greater (iterationsLeft j) 1)")
    case False
    with 1(2) show ?thesis by (auto split: if_splits)
  next
    case True
    show ?thesis
    proof (cases "snd y")
      case (Inl e)
      then show ?thesis by simp
    next
      case (Inr j')
      let ?tw = "targetWidth j - (actualWidth j - maxX)"
      from True 1(2) Inr obtain pm aw p r where
        rec: "loop fs metrics a md maxX
              \<lparr>actualWidth = aw, paddingMax = pm,
               paddingMin = pm - (endPaddingMax metrics - endPaddingMin metrics),
               targetWidth = ?tw, iterationsLeft = js_decrement (iterationsLeft j),
               formatter = reposition p (formatter j)\<rparr> = Some (r, Inr j')"
        by (auto simp: Let_def split: if_splits sum.splits prod.splits Option.bind_splits)
      from 1(1)[OF rec] Inr show ?thesis by simp
    qed
  qed
qed

lemma justifyLoop_keeps_width:
  "justifyLoop fs metrics a md maxX j = Some (runs, Inr j') \<Longrightarrow>
   hasMinTotalWidth (formatter j') = hasMinTotalWidth (formatter j)
   \<and> minTotalWidth (formatter j') = minTotalWidth (formatter j)"
  using justifyLoop_keeps_width_result[of fs metrics a md maxX j "(runs, Inr j')"] by simp

lemma preFormatPass_sum:
  "preFormatPass l (m, ob, mt, x, sh) = Inr (m', ob', mt', x', sh') \<Longrightarrow>
   x' + sh' - (x + sh) = mt' - mt"
proof (induction l arbitrary: m ob mt x sh)
  case Nil
  then show ?case by simp
next
  case (Cons tick rest)
  from Cons.prems obtain c0 where c0: "m tick = Some c0" by (auto split: option.splits)
  let ?c = "TickContext_preFormat ob c0"
  let ?x = "x + sh + tc_totalLeftPx ?c"
  obtain c' ob1 where sx: "TickContext_setX ?x ?c ob = (c', ob1)"
    by (cases "TickContext_setX ?x ?c ob") auto
  have "preFormatPass rest (m(tick \<mapsto> c'), ob1, mt + tc_width ?c, ?x,
          tc_width ?c - tc_totalLeftPx ?c) = Inr (m', ob', mt', x', sh')"
    using Cons.prems by (simp add: c0 Let_def sx)
  from Cons.IH[OF this] show ?case by simp
qed

lemma preFormat_sets_width:
  assumes "preFormat fs metrics justify s = Some (Inr (cost, s'))"
  shows "hasMinTotalWidth s'
         \<and> (\<exists>contextMap objects x shift.
               preFormatPass (tc_list (tickContexts s)) (tc_map (tickContexts s), store s, 0, 0, 0)
                 = Inr (contextMap, objects, x + shift, x, shift)
               \<and> minTotalWidth s' = x + shift)"
proof -
  from assms obtain runs where
    r: "preFormatRuns fs metrics justify s = Some (runs, Inr (cost, s'))"
    by (auto simp: preFormat_def)
  from r obtain m ob mt x sh where
    pass: "preFormatPass (tc_list (tickContexts s)) (tc_map (tickContexts s), store s, 0, 0, 0)
             = Inr (m, ob, mt, x, sh)"
    by (auto simp: preFormatRuns_def Let_def split: sum.splits)
  from preFormatPass_sum[OF pass] have mt: "mt = x + sh" by simp
  let ?s1 = "(reposition (m, ob) s)\<lparr>lossHistory := [], minTotalWidth := x + sh,
                                     hasMinTotalWidth := True\<rparr>"
  have "hasMinTotalWidth s' \<and> minTotalWidth s' = x + sh"
  proof (cases "justify \<le> 0")
    case True
    with r pass have "evaluate ?s1 = Inr (cost, s')"
      by (simp add: preFormatRuns_def Let_def)
    from evaluate_keeps_width[OF this] show ?thesis by simp
  next
    case False
    with r pass obtain firstTick ticks' where l: "tc_list (tickContexts s) = firstTick # ticks'"
      by (cases "tc_list (tickContexts s)") (auto simp: preFormatRuns_def Let_def)
    from False r pass l obtain firstContext lastContext where
      fc: "m firstTick = Some firstContext"
      and lc: "m (last (firstTick # ticks')) = Some lastContext"
      by (auto simp: preFormatRuns_def Let_def split: option.splits)
    let ?a = "justify - tc_notePx lastContext - tc_totalRightPx lastContext
                - tc_totalLeftPx firstContext"
    from False r pass l fc lc obtain d where
      d: "calculateIdealDistances fs ?a ?s1 = Inr d"
      by (auto simp: preFormatRuns_def Let_def split: sum.splits)
    from False r pass l fc lc d obtain actual p where
      sh: "shiftToIdealDistances fs ?a d ?s1 = Inr (actual, p)"
      by (auto simp: preFormatRuns_def Let_def split: sum.splits)
    let ?s2 = "reposition p ?s1"
    show ?thesis
    proof (cases "length (firstTick # ticks') = 1")
      case True
      with False r pass l fc lc d sh have "s' = ?s2"
        by (simp add: preFormatRuns_def Let_def)
      then show ?thesis by simp
    next
      case one: False
      let ?md = "calcMinDistance ?a d"
      from False r pass l fc lc d sh one obtain pMax where
        pm: "paddingMaxCalc fs ?md ?a ?s2 = Inr pMax"
        by (auto simp: preFormatRuns_def Let_def split: sum.splits)
      let ?pMin = "pMax - (endPaddingMax metrics - endPaddingMin metrics)"
      let ?j0 = "\<lparr>actualWidth = actual, paddingMax = pMax, paddingMin = ?pMin,
                  targetWidth = ?a, iterationsLeft = maxIterations ?s2, formatter = ?s2\<rparr>"
      from False r pass l fc lc d sh one pm obtain j where
        j: "justifyLoop fs metrics ?a ?md (?a - ?pMin) ?j0 = Some (runs, Inr j)"
        and ev: "evaluate ((formatter j)\<lparr>justifyWidth := justify\<rparr>) = Inr (cost, s')"
        by (auto simp: preFormatRuns_def Let_def split: sum.splits option.splits)
      from justifyLoop_keeps_width[OF j] evaluate_keeps_width[OF ev] show ?thesis by simp
    qed
  qed
  with pass mt show ?thesis by blast
qed

lemma joinVoices_resets:
  "joinVoices vs s = Inr s' \<Longrightarrow> \<not> hasMinTotalWidth s'"
  by (auto simp: joinVoices_def split: sum.splits)

text \<open>
  Claim C7. \<open>getMinTotalWidth\<close> raises \<open>NoMinTotalWidth\<close> on a formatter as constructed
  and on a formatter on which \<open>joinVoices\<close> has just returned. Once
  \<open>preCalculateMinTotalWidth\<close> or \<open>preFormat\<close> has returned it returns the stored minimum
  width and raises nothing: after a first \<open>preCalculateMinTotalWidth\<close> that is the sum of
  the widths of the tick contexts, after \<open>preFormat\<close> the sum \<open>x + shift\<close> that pass 1
  ends with, which is the sum of the widths accumulated there.
\<close>

theorem getMinTotalWidth_sequencing:
  "getMinTotalWidth (newFormatter SOFTMAX_FACTOR options objects)
     = Inl (RuntimeError ''NoMinTotalWidth''
         ''Call 'preCalculateMinTotalWidth' or 'preFormat' before calling 'getMinTotalWidth' '')
   \<and> (joinVoices vs s = Inr s1 \<longrightarrow>
        getMinTotalWidth s1
          = Inl (RuntimeError ''NoMinTotalWidth''
              ''Call 'preCalculateMinTotalWidth' or 'preFormat' before calling 'getMinTotalWidth' ''))
   \<and> (preCalculateMinTotalWidth metrics vs s = Inr (w, s2) \<longrightarrow>
        getMinTotalWidth s2 = Inr (minTotalWidth s2)
        \<and> (\<not> hasMinTotalWidth s \<longrightarrow> minTotalWidth s2 = sumContextWidths (tickContexts s2)))
   \<and> (preFormat fs metrics justify s = Some (Inr (cost, s3)) \<longrightarrow>
        getMinTotalWidth s3 = Inr (minTotalWidth s3)
        \<and> (\<exists>contextMap objects' x shift.
              preFormatPass (tc_list (tickContexts s)) (tc_map (tickContexts s), store s, 0, 0, 0)
                = Inr (contextMap, objects', x + shift, x, shift)
              \<and> minTotalWidth s3 = x + shift))"
proof (intro conjI impI)
  show "getMinTotalWidth (newFormatter SOFTMAX_FACTOR options objects)
     = Inl (RuntimeError ''NoMinTotalWidth''
         ''Call 'preCalculateMinTotalWidth' or 'preFormat' before calling 'getMinTotalWidth' '')"
    by (simp add: getMinTotalWidth_def newFormatter_def)
next
  assume "joinVoices vs s = Inr s1"
  from joinVoices_resets[OF this]
  show "getMinTotalWidth s1
          = Inl (RuntimeError ''NoMinTotalWidth''
              ''Call 'preCalculateMinTotalWidth' or 'preFormat' before calling 'getMinTotalWidth' '')"
    by (simp add: getMinTotalWidth_def)
next
  assume "preCalculateMinTotalWidth metrics vs s = Inr (w, s2)"
  from preCalculateMinTotalWidth_sets[OF this]
  show "getMinTotalWidth s2 = Inr (minTotalWidth s2)"
    by (simp add: getMinTotalWidth_def)
next
  assume "preCalculateMinTotalWidth metrics vs s = Inr (w, s2)" and "\<not> hasMinTotalWidth s"
  from preCalculateMinTotalWidth_first[OF this(2,1)]
  show "minTotalWidth s2 = sumContextWidths (tickContexts s2)" by simp
next
  assume "preFormat fs metrics justify s = Some (Inr (cost, s3))"
  from preFormat_sets_width[OF this]
  show "getMinTotalWidth s3 = Inr (minTotalWidth s3)"
    by (simp add: getMinTotalWidth_def)
next
  assume "preFormat fs metrics justify s = Some (Inr (cost, s3))"
  from preFormat_sets_width[OF this]
  show "\<exists>contextMap objects' x shift.
              preFormatPass (tc_list (tickContexts s)) (tc_map (tickContexts s), store s, 0, 0, 0)
                = Inr (contextMap, objects', x + shift, x, shift)
              \<and> minTotalWidth s3 = x + shift"
    by blast
qed


text \<open>
  The two voices above: after \<open>joinVoices\<close> the error is raised; after
  \<open>preCalculateMinTotalWidth\<close>, and after \<open>createTickContexts\<close> and an unjustified
  \<open>preFormat\<close>, \<open>getMinTotalWidth\<close> returns 20.
\<close>

theorem getMinTotalWidth_sequencing_witness:
  "(\<exists>s1. joinVoices [softVoice [0, 1], softVoice [2]] quarterNotes = Inr s1
          \<and> getMinTotalWidth s1
              = Inl (RuntimeError ''NoMinTotalWidth''
                  ''Call 'preCalculateMinTotalWidth' or 'preFormat' before calling 'getMinTotalWidth' ''))
   \<and> (\<exists>w s2. preCalculateMinTotalWidth exampleMetrics [softVoice [0, 1], softVoice [2]] quarterNotes
                 = Inr (w, s2)
              \<and> getMinTotalWidth s2 = Inr 20)
   \<and> (\<exists>cs sa c s3. createTickContexts [softVoice [0, 1], softVoice [2]] quarterNotes = Inr (cs, sa)
              \<and> preFormat (nestedFunctions exampleMetrics) exampleMetrics 0 sa = Some (Inr (c, s3))
              \<and> getMinTotalWidth s3 = Inr 20)"
proof -
  have a: "map_sum id (\<lambda>s. ()) (joinVoices [softVoice [0, 1], softVoice [2]] quarterNotes) = Inr ()"
    by (simp add: example_defs joinVoices_def createModifierContexts_def)
  then obtain s1 where s1: "joinVoices [softVoice [0, 1], softVoice [2]] quarterNotes = Inr s1"
    by (cases "joinVoices [softVoice [0, 1], softVoice [2]] quarterNotes") auto
  have b: "map_sum id (\<lambda>(w, s). minTotalWidth s)
             (preCalculateMinTotalWidth exampleMetrics [softVoice [0, 1], softVoice [2]] quarterNotes)
           = Inr 20"
    by (simp add: example_defs)
  then obtain w s2 where
    s2: "preCalculateMinTotalWidth exampleMetrics [softVoice [0, 1], softVoice [2]] quarterNotes
           = Inr (w, s2)"
    by (cases "preCalculateMinTotalWidth exampleMetrics [softVoice [0, 1], softVoice [2]] quarterNotes")
       auto
  with b have m2: "minTotalWidth s2 = 20" by simp
  have c: "map_option (map_sum id (\<lambda>(c, s). minTotalWidth s))
     (case createTickContexts [softVoice [0, 1], softVoice [2]] quarterNotes of
        Inl e \<Rightarrow> Some (Inl e)
      | Inr (cs, sa) \<Rightarrow> preFormat (nestedFunctions exampleMetrics) exampleMetrics 0 sa) = Some (Inr 20)"
    by (simp add: example_defs preFormat_def preFormatRuns_def evaluate_def
        TickContext_setX_def reposition_def)
  then obtain cs sa where
    sa: "createTickContexts [softVoice [0, 1], softVoice [2]] quarterNotes = Inr (cs, sa)"
    by (cases "createTickContexts [softVoice [0, 1], softVoice [2]] quarterNotes") auto
  with c obtain r where
    r: "preFormat (nestedFunctions exampleMetrics) exampleMetrics 0 sa = Some r"
    and r20: "map_sum id (\<lambda>(c, s). minTotalWidth s) r = Inr 20"
    by (cases "preFormat (nestedFunctions exampleMetrics) exampleMetrics 0 sa") auto
  from r20 obtain cost s3 where rs: "r = Inr (cost, s3)" by (cases r) auto
  from r rs have
    s3: "preFormat (nestedFunctions exampleMetrics) exampleMetrics 0 sa = Some (Inr (cost, s3))"
    by simp
  from r20 rs have m3: "minTotalWidth s3 = 20" by simp
  note t = getMinTotalWidth_sequencing
             [where vs = "[softVoice [0, 1], softVoice [2]]" and metrics = exampleMetrics]
  from t[where s = quarterNotes and ?s1.0 = s1] s1
  have "getMinTotalWidth s1
          = Inl (RuntimeError ''NoMinTotalWidth''
              ''Call 'preCalculateMinTotalWidth' or 'preFormat' before calling 'getMinTotalWidth' '')"
    by blast
  moreover from t[where s = quarterNotes and w = w and ?s2.0 = s2] s2 m2
  have "getMinTotalWidth s2 = Inr 20" by simp
  moreover from t[where s = sa and fs = "nestedFunctions exampleMetrics" and justify = 0 and cost = cost
                    and ?s3.0 = s3] s3 m3
  have "getMinTotalWidth s3 = Inr 20" by simp
  ultimately show ?thesis using s1 s2 sa s3 by blast
qed

section \<open>Formatter.preFormat: the justification loop\<close>

subsection \<open>A counter that is not infinite bounds the passes\<close>

lemma reposition_maxIterations [simp]: "maxIterations (reposition p s) = maxIterations s"
  by (simp add: reposition_def)





subsection \<open>Two quarter notes in a width of 20\<close>




lemma nested_sel [simp]:
  "paddingMaxCalc (nestedFunctions metrics) = preFormat_paddingMaxCalc metrics"
  "calculateIdealDistances (nestedFunctions metrics) = preFormat_calculateIdealDistances"
  "shiftToIdealDistances (nestedFunctions metrics) a = preFormat_shiftToIdealDistances"
  by (simp_all add: nestedFunctions_def)

















subsection \<open>The claim\<close>





section \<open>Formatter.SimpleFormat\<close>

text \<open>
  Claim C8, as amended. \<open>SimpleFormat\<close> with \<open>paddingBetween = 10\<close> from \<open>x = 0\<close> places
  each of four notes at the sum, over the notes before it, of their width, their space on
  the right and 10, plus its own space on the left for modifiers and displaced note
  heads. For four notes without such space and with a width that is not negative, as
  plain quarter notes are, that is the first note at 0 and every further note at the x of
  the previous note plus the width of the previous note plus 10, and the four positions
  increase strictly.
\<close>

theorem SimpleFormat_four_notes:
  "map tk_x (SimpleFormat [n1, n2, n3, n4] 0 10)
     = [leftPx n1,
        slotWidth n1 + rightPx n1 + 10 + leftPx n2,
        slotWidth n1 + rightPx n1 + 10 + (slotWidth n2 + rightPx n2 + 10) + leftPx n3,
        slotWidth n1 + rightPx n1 + 10 + (slotWidth n2 + rightPx n2 + 10)
          + (slotWidth n3 + rightPx n3 + 10) + leftPx n4]
   \<and> (list_all plainMetrics [n1, n2, n3, n4] \<longrightarrow>
        map tk_x (SimpleFormat [n1, n2, n3, n4] 0 10)
          = [0,
             tm_width (tk_metrics n1) + 10,
             tm_width (tk_metrics n1) + 10 + (tm_width (tk_metrics n2) + 10),
             tm_width (tk_metrics n1) + 10 + (tm_width (tk_metrics n2) + 10)
               + (tm_width (tk_metrics n3) + 10)]
        \<and> sorted_wrt (<) (map tk_x (SimpleFormat [n1, n2, n3, n4] 0 10)))"
proof (intro conjI impI)
  show "map tk_x (SimpleFormat [n1, n2, n3, n4] 0 10)
     = [leftPx n1,
        slotWidth n1 + rightPx n1 + 10 + leftPx n2,
        slotWidth n1 + rightPx n1 + 10 + (slotWidth n2 + rightPx n2 + 10) + leftPx n3,
        slotWidth n1 + rightPx n1 + 10 + (slotWidth n2 + rightPx n2 + 10)
          + (slotWidth n3 + rightPx n3 + 10) + leftPx n4]"
    by (simp add: SimpleFormat_def TickContext_preFormat_def addTickable_def newTickContext_def
        getTickables_def Let_def slotWidth_def leftPx_def rightPx_def)
next
  assume "list_all plainMetrics [n1, n2, n3, n4]"
  then show "map tk_x (SimpleFormat [n1, n2, n3, n4] 0 10)
          = [0,
             tm_width (tk_metrics n1) + 10,
             tm_width (tk_metrics n1) + 10 + (tm_width (tk_metrics n2) + 10),
             tm_width (tk_metrics n1) + 10 + (tm_width (tk_metrics n2) + 10)
               + (tm_width (tk_metrics n3) + 10)]"
    by (simp add: SimpleFormat_def plainMetrics_def TickContext_preFormat_def addTickable_def
        newTickContext_def getTickables_def Let_def max_def)
next
  assume "list_all plainMetrics [n1, n2, n3, n4]"
  then show "sorted_wrt (<) (map tk_x (SimpleFormat [n1, n2, n3, n4] 0 10))"
    by (simp add: SimpleFormat_def plainMetrics_def TickContext_preFormat_def addTickable_def
        newTickContext_def getTickables_def Let_def max_def)
qed

text \<open>
  Four plain quarter notes of the widths 10, 12, 10 and 14 are placed at 0, 20, 42 and 62.
\<close>

theorem SimpleFormat_four_notes_witness:
  "list_all plainMetrics
     [plainNote quarterTicks 10, plainNote quarterTicks 12, plainNote quarterTicks 10,
      plainNote quarterTicks 14]
   \<and> map tk_x (SimpleFormat
        [plainNote quarterTicks 10, plainNote quarterTicks 12, plainNote quarterTicks 10,
         plainNote quarterTicks 14] 0 10) = [0, 20, 42, 62]"
proof -
  have p: "list_all plainMetrics
     [plainNote quarterTicks 10, plainNote quarterTicks 12, plainNote quarterTicks 10,
      plainNote quarterTicks 14]"
    by (simp add: plainMetrics_def plainNote_def)
  from p SimpleFormat_four_notes
           [of "plainNote quarterTicks 10" "plainNote quarterTicks 12"
               "plainNote quarterTicks 10" "plainNote quarterTicks 14"]
  have "map tk_x (SimpleFormat
        [plainNote quarterTicks 10, plainNote quarterTicks 12, plainNote quarterTicks 10,
         plainNote quarterTicks 14] 0 10)
      = [0,
         tm_width (tk_metrics (plainNote quarterTicks 10)) + 10,
         tm_width (tk_metrics (plainNote quarterTicks 10)) + 10
           + (tm_width (tk_metrics (plainNote quarterTicks 12)) + 10),
         tm_width (tk_metrics (plainNote quarterTicks 10)) + 10
           + (tm_width (tk_metrics (plainNote quarterTicks 12)) + 10)
           + (tm_width (tk_metrics (plainNote quarterTicks 10)) + 10)]"
    by blast
  also have "\<dots> = [0, 20, 42, 62]" by (simp add: plainNote_def)
  finally show ?thesis using p by blast
qed

text \<open>
  Claim C8 as stated offsets each of the four quarter notes from the previous one by the
  width of the previous note plus 10. With an accidental on the second note (8 of space
  on its left, in a width of 18) among quarter notes of width 10, the notes are placed at
  0, 28, 48 and 68: the second note is 28 from the first, whose width plus 10 is 20, and
  the third is 20 from the second, whose width plus 10 is 28.
\<close>

theorem SimpleFormat_with_an_accidental:
  "map tk_x (SimpleFormat
      [plainNote quarterTicks 10, noteWithAccidental, plainNote quarterTicks 10,
       plainNote quarterTicks 10] 0 10) = [0, 28, 48, 68]
   \<and> tm_width (tk_metrics (plainNote quarterTicks 10)) + 10 = 20
   \<and> tm_width (tk_metrics noteWithAccidental) + 10 = 28"
  by (simp add: SimpleFormat_def TickContext_preFormat_def addTickable_def newTickContext_def
      getTickables_def Let_def plainNote_def noteWithAccidental_def)


section \<open>Formatter.evaluate twice\<close>

lemma samePlacement_trans: "samePlacement a b \<Longrightarrow> samePlacement b c \<Longrightarrow> samePlacement a c"
  by (simp add: samePlacement_def)

lemma updateFormatterMetrics_placement [simp]:
  "ticks (updateFormatterMetrics n f ob t) = ticks (ob t)"
  "tk_x (updateFormatterMetrics n f ob t) = tk_x (ob t)"
  "tk_metrics (updateFormatterMetrics n f ob t) = tk_metrics (ob t)"
  by (simp_all add: updateFormatterMetrics_def)

lemma updateFormatterMetrics_fm:
  "tk_formatterMetrics (updateFormatterMetrics n f ob t) =
     (if t = n then f (tk_formatterMetrics (ob n)) else tk_formatterMetrics (ob t))"
  by (simp add: updateFormatterMetrics_def)

text \<open>One step of the loop over the notes of a voice, as a function of its own.\<close>

lemma evaluateSpaces_step:
  "evaluateSpaces justify (nt # rest) (objects, stats) =
     evaluateSpaces justify rest
       (spaceStep justify nt rest objects,
        updateStats (durationKey (ticks (objects nt)))
          (space_used (tk_formatterMetrics (spaceStep justify nt rest objects nt))) stats)"
  by (simp add: spaceStep_def Let_def split: list.splits prod.splits)

lemma spaceStep_placement [simp]:
  "ticks (spaceStep justify nt rest ob t) = ticks (ob t)"
  "tk_x (spaceStep justify nt rest ob t) = tk_x (ob t)"
  "tk_metrics (spaceStep justify nt rest ob t) = tk_metrics (ob t)"
  by (simp_all add: spaceStep_def Let_def split: list.splits prod.splits)

lemma spaceStep_used:
  "space_used (tk_formatterMetrics (spaceStep justify nt rest ob t)) =
     (if t = nt
      then (case rest of [] \<Rightarrow> justify - tk_x (ob nt)
            | rightNote # _ \<Rightarrow> tk_x (ob rightNote) - tk_x (ob nt))
      else space_used (tk_formatterMetrics (ob t)))"
  by (simp add: spaceStep_def Let_def updateFormatterMetrics_fm split: list.splits prod.splits)

lemma spaceStep_related:
  assumes "samePlacement a b" and "sameSpaceUsed S a b"
  shows "samePlacement (spaceStep justify nt rest a) (spaceStep justify nt rest b)"
    and "sameSpaceUsed (insert nt S) (spaceStep justify nt rest a) (spaceStep justify nt rest b)"
    and "space_used (tk_formatterMetrics (spaceStep justify nt rest a nt))
         = space_used (tk_formatterMetrics (spaceStep justify nt rest b nt))"
  using assms
  by (auto simp: samePlacement_def sameSpaceUsed_def spaceStep_used split: list.splits)

lemma evaluateSpaces_related:
  "samePlacement a b \<Longrightarrow> sameSpaceUsed S a b \<Longrightarrow>
   snd (evaluateSpaces justify ns (a, stats)) = snd (evaluateSpaces justify ns (b, stats))
   \<and> samePlacement (fst (evaluateSpaces justify ns (a, stats)))
                    (fst (evaluateSpaces justify ns (b, stats)))
   \<and> sameSpaceUsed (S \<union> set ns) (fst (evaluateSpaces justify ns (a, stats)))
                    (fst (evaluateSpaces justify ns (b, stats)))"
proof (induction ns arbitrary: a b stats S)
  case Nil
  then show ?case by simp
next
  case (Cons nt rest)
  note r = spaceStep_related[OF Cons.prems, where justify = justify and nt = nt and rest = rest]
  have k: "durationKey (ticks (a nt)) = durationKey (ticks (b nt))"
    using Cons.prems(1) by (simp add: samePlacement_def)
  from Cons.IH[OF r(1) r(2)] show ?case
    unfolding evaluateSpaces_step k r(3) by simp
qed

lemma evaluateSpaces_placement:
  "samePlacement a (fst (evaluateSpaces justify ns (a, stats)))"
proof (induction ns arbitrary: a stats)
  case Nil
  then show ?case by (simp add: samePlacement_def)
next
  case (Cons nt rest)
  have "samePlacement a (spaceStep justify nt rest a)" by (simp add: samePlacement_def)
  moreover note Cons.IH[of "spaceStep justify nt rest a"]
  ultimately show ?case
    unfolding evaluateSpaces_step by (auto simp: samePlacement_def)
qed

lemma allSpaces_related:
  "samePlacement a b \<Longrightarrow> sameSpaceUsed S a b \<Longrightarrow>
   snd (allSpaces justify vs (a, stats)) = snd (allSpaces justify vs (b, stats))
   \<and> samePlacement (fst (allSpaces justify vs (a, stats))) (fst (allSpaces justify vs (b, stats)))
   \<and> sameSpaceUsed (S \<union> (\<Union>v \<in> set vs. set (tickables v)))
        (fst (allSpaces justify vs (a, stats))) (fst (allSpaces justify vs (b, stats)))"
proof (induction vs arbitrary: a b stats S)
  case Nil
  then show ?case by (simp add: allSpaces_def)
next
  case (Cons v rest)
  obtain a1 sa where ea: "evaluateSpaces justify (tickables v) (a, stats) = (a1, sa)"
    by (cases "evaluateSpaces justify (tickables v) (a, stats)") auto
  obtain b1 sb where eb: "evaluateSpaces justify (tickables v) (b, stats) = (b1, sb)"
    by (cases "evaluateSpaces justify (tickables v) (b, stats)") auto
  from evaluateSpaces_related[OF Cons.prems, of justify "tickables v" stats] ea eb
  have s: "sb = sa" and p: "samePlacement a1 b1"
    and u: "sameSpaceUsed (S \<union> set (tickables v)) a1 b1" by simp_all
  have un: "S \<union> set (tickables v) \<union> (\<Union>v \<in> set rest. set (tickables v))
        = S \<union> (\<Union>v \<in> set (v # rest). set (tickables v))" by auto
  from Cons.IH[OF p u, of sa] show ?case
    unfolding un by (simp add: allSpaces_def ea eb s)
qed

lemma allSpaces_placement:
  "samePlacement a (fst (allSpaces justify vs (a, stats)))"
proof (induction vs arbitrary: a stats)
  case Nil
  then show ?case by (simp add: allSpaces_def samePlacement_def)
next
  case (Cons v rest)
  obtain a1 sa where ea: "evaluateSpaces justify (tickables v) (a, stats) = (a1, sa)"
    by (cases "evaluateSpaces justify (tickables v) (a, stats)") auto
  from evaluateSpaces_placement[of a justify "tickables v" stats] ea
  have "samePlacement a a1" by simp
  moreover from Cons.IH[of a1 sa]
  have "samePlacement a1 (fst (allSpaces justify (v # rest) (a, stats)))"
    by (simp add: allSpaces_def ea)
  ultimately show ?case by (auto simp: samePlacement_def)
qed

lemma evaluateDeviations_related:
  "samePlacement a b \<Longrightarrow> sameSpaceUsed S a b \<Longrightarrow> set ns \<subseteq> S \<Longrightarrow>
   evaluateDeviations stats ns (a, dev) = Inr (a', dev') \<Longrightarrow>
   \<exists>b'. evaluateDeviations stats ns (b, dev) = Inr (b', dev')
        \<and> samePlacement a' b' \<and> sameSpaceUsed S a' b' \<and> samePlacement a a'"
proof (induction ns arbitrary: a b dev)
  case Nil
  then show ?case by (auto simp: samePlacement_def)
next
  case (Cons nt rest)
  have k: "durationKey (ticks (b nt)) = durationKey (ticks (a nt))"
    using Cons.prems(1) by (simp add: samePlacement_def)
  from Cons.prems(4) obtain st where st: "stats (durationKey (ticks (a nt))) = Some st"
    by (auto simp: Let_def split: option.splits)
  have u: "space_used (tk_formatterMetrics (b nt)) = space_used (tk_formatterMetrics (a nt))"
    using Cons.prems(2,3) by (simp add: sameSpaceUsed_def)
  let ?fm = "\<lambda>ob. (tk_formatterMetrics (ob nt))\<lparr>space_mean := ds_mean st,
                 fm_duration := durationKey (ticks (a nt)),
                 iterations := iterations (tk_formatterMetrics (ob nt)) + 1,
                 space_deviation := space_used (tk_formatterMetrics (a nt)) - ds_mean st\<rparr>"
  let ?a1 = "a(nt := (a nt)\<lparr>tk_formatterMetrics := ?fm a\<rparr>)"
  let ?b1 = "b(nt := (b nt)\<lparr>tk_formatterMetrics := ?fm b\<rparr>)"
  let ?t1 = "dev + (space_used (tk_formatterMetrics (a nt)) - ds_mean st) ^ 2"
  have ea: "evaluateDeviations stats rest (?a1, ?t1) = Inr (a', dev')"
    using Cons.prems(4) by (simp add: st Let_def)
  have eb: "evaluateDeviations stats (nt # rest) (b, dev)
        = evaluateDeviations stats rest (?b1, ?t1)"
    by (simp add: k st u Let_def)
  have p1: "samePlacement ?a1 ?b1"
    using Cons.prems(1) by (simp add: samePlacement_def)
  have u1: "sameSpaceUsed S ?a1 ?b1"
    using Cons.prems(2) u by (simp add: sameSpaceUsed_def)
  have pa: "samePlacement a ?a1" by (simp add: samePlacement_def)
  have sub: "set rest \<subseteq> S" using Cons.prems(3) by simp
  from Cons.IH[OF p1 u1 sub ea] obtain b' where
    b': "evaluateDeviations stats rest (?b1, ?t1) = Inr (b', dev')"
      "samePlacement a' b'" "sameSpaceUsed S a' b'" "samePlacement ?a1 a'"
    by blast
  from pa b'(4) have "samePlacement a a'" by (rule samePlacement_trans)
  with b' show ?case unfolding eb by blast
qed

lemma evaluateVoiceDeviations_related:
  "samePlacement a b \<Longrightarrow> sameSpaceUsed S a b \<Longrightarrow> (\<Union>v \<in> set vs. set (tickables v)) \<subseteq> S \<Longrightarrow>
   evaluateVoiceDeviations stats vs (a, dev) = Inr (a', dev') \<Longrightarrow>
   \<exists>b'. evaluateVoiceDeviations stats vs (b, dev) = Inr (b', dev') \<and> samePlacement a a'"
proof (induction vs arbitrary: a b dev)
  case Nil
  then show ?case by (auto simp: samePlacement_def)
next
  case (Cons v rest)
  from Cons.prems(4) obtain a1 t1 where
    ea: "evaluateDeviations stats (tickables v) (a, dev) = Inr (a1, t1)"
    and ra: "evaluateVoiceDeviations stats rest (a1, t1) = Inr (a', dev')"
    by (auto split: sum.splits)
  have sub1: "set (tickables v) \<subseteq> S" and sub2: "(\<Union>v \<in> set rest. set (tickables v)) \<subseteq> S"
    using Cons.prems(3) by auto
  from evaluateDeviations_related[OF Cons.prems(1,2) sub1 ea] obtain b1 where
    eb: "evaluateDeviations stats (tickables v) (b, dev) = Inr (b1, t1)"
    and p: "samePlacement a1 b1" and u: "sameSpaceUsed S a1 b1" and pa: "samePlacement a a1"
    by blast
  from Cons.IH[OF p u sub2 ra] obtain b' where
    b': "evaluateVoiceDeviations stats rest (b1, t1) = Inr (b', dev')" "samePlacement a1 a'"
    by blast
  from pa b'(2) have "samePlacement a a'" by (rule samePlacement_trans)
  with eb b'(1) show ?case by simp
qed



lemma evaluateGaps_domain:
  "evaluateGaps l acc = Inr acc' \<Longrightarrow> dom (fst acc') = dom (fst acc)"
proof (induction l arbitrary: acc rule: induct_list012)
  case 1
  then show ?case by simp
next
  case (2 tick)
  then show ?case by simp
next
  case (3 prevTick tick rest)
  obtain contextMap gapTotal gaps where acc: "acc = (contextMap, gapTotal, gaps)"
    by (cases acc) auto
  from "3.prems" obtain pc c where pc: "contextMap prevTick = Some pc" and c: "contextMap tick = Some c"
    unfolding acc by (auto split: option.splits)
  let ?r = "tc_x pc + tc_notePx pc + tc_totalRightPx pc"
  let ?l = "tc_x c - tc_totalLeftPx c"
  let ?m = "if prevTick = tick
            then contextMap(tick \<mapsto> c\<lparr>tc_freedom_left := ?l - ?r, tc_freedom_right := ?l - ?r\<rparr>)
            else contextMap(tick \<mapsto> c\<lparr>tc_freedom_left := ?l - ?r\<rparr>,
                   prevTick \<mapsto> pc\<lparr>tc_freedom_right := ?l - ?r\<rparr>)"
  have e: "evaluateGaps (tick # rest) (?m, gapTotal + (?l - ?r), gaps @ [(?r, ?l)]) = Inr acc'"
    using "3.prems" unfolding acc by (simp add: pc c Let_def)
  have "dom ?m = dom contextMap" using pc c by auto
  with "3.IH"(2)[OF e] show ?case by (simp add: acc)
qed

lemma evaluateGaps_succeeds:
  "evaluateGaps l acc = Inr r \<Longrightarrow> dom (fst acc2) = dom (fst acc) \<Longrightarrow>
   \<exists>r2. evaluateGaps l acc2 = Inr r2"
proof (induction l arbitrary: acc acc2 rule: induct_list012)
  case 1
  show ?case by (cases acc2) auto
next
  case (2 tick)
  show ?case by (cases acc2) auto
next
  case (3 prevTick tick rest)
  obtain contextMap gapTotal gaps where acc: "acc = (contextMap, gapTotal, gaps)"
    by (cases acc) auto
  obtain m2 t2 g2 where acc2: "acc2 = (m2, t2, g2)" by (cases acc2) auto
  from "3.prems" obtain pc c where pc: "contextMap prevTick = Some pc" and c: "contextMap tick = Some c"
    unfolding acc by (auto split: option.splits)
  from "3.prems"(2) pc c obtain pc2 c2 where pc2: "m2 prevTick = Some pc2" and c2: "m2 tick = Some c2"
    unfolding acc acc2 by (metis domD domI fst_conv)
  let ?r = "tc_x pc + tc_notePx pc + tc_totalRightPx pc"
  let ?l = "tc_x c - tc_totalLeftPx c"
  let ?m = "if prevTick = tick
            then contextMap(tick \<mapsto> c\<lparr>tc_freedom_left := ?l - ?r, tc_freedom_right := ?l - ?r\<rparr>)
            else contextMap(tick \<mapsto> c\<lparr>tc_freedom_left := ?l - ?r\<rparr>,
                   prevTick \<mapsto> pc\<lparr>tc_freedom_right := ?l - ?r\<rparr>)"
  let ?r2 = "tc_x pc2 + tc_notePx pc2 + tc_totalRightPx pc2"
  let ?l2 = "tc_x c2 - tc_totalLeftPx c2"
  let ?m2 = "if prevTick = tick
            then m2(tick \<mapsto> c2\<lparr>tc_freedom_left := ?l2 - ?r2, tc_freedom_right := ?l2 - ?r2\<rparr>)
            else m2(tick \<mapsto> c2\<lparr>tc_freedom_left := ?l2 - ?r2\<rparr>,
                   prevTick \<mapsto> pc2\<lparr>tc_freedom_right := ?l2 - ?r2\<rparr>)"
  have e: "evaluateGaps (tick # rest) (?m, gapTotal + (?l - ?r), gaps @ [(?r, ?l)]) = Inr r"
    using "3.prems"(1) unfolding acc by (simp add: pc c Let_def)
  have d: "dom (fst (?m2, t2 + (?l2 - ?r2), g2 @ [(?r2, ?l2)]))
         = dom (fst (?m, gapTotal + (?l - ?r), gaps @ [(?r, ?l)]))"
    using pc c pc2 c2 "3.prems"(2) unfolding acc acc2 by auto
  from "3.IH"(2)[OF e d]
  obtain r2 where r2: "evaluateGaps (tick # rest) (?m2, t2 + (?l2 - ?r2), g2 @ [(?r2, ?l2)]) = Inr r2"
    by blast
  have step: "evaluateGaps (prevTick # tick # rest) acc2
        = evaluateGaps (tick # rest) (?m2, t2 + (?l2 - ?r2), g2 @ [(?r2, ?l2)])"
    by (simp add: acc2 pc2 c2 Let_def)
  show ?case unfolding step using r2 by blast
qed

lemma evaluate_unfold:
  "evaluate s =
     (case evaluateGaps (tc_list (tickContexts s)) (tc_map (tickContexts s), 0, []) of
        Inl e \<Rightarrow> Inl e
      | Inr (contextMap, gapTotal, gaps) \<Rightarrow>
          (case evaluateVoiceDeviations (snd (allSpaces (justifyWidth s) (voices s) (store s, Map.empty)))
                  (voices s) (fst (allSpaces (justifyWidth s) (voices s) (store s, Map.empty)), 0) of
             Inl e \<Rightarrow> Inl e
           | Inr (objects2, totalDeviation) \<Rightarrow>
               Inr (sqrt totalDeviation,
                    s\<lparr>contextGaps_total := gapTotal,
                      contextGaps_gaps := gaps,
                      tickContexts := (tickContexts s)\<lparr>tc_map := contextMap\<rparr>,
                      durationStats := snd (allSpaces (justifyWidth s) (voices s) (store s, Map.empty)),
                      store := objects2,
                      totalCost := sqrt totalDeviation,
                      lossHistory := lossHistory s @ [sqrt totalDeviation]\<rparr>)))"
  by (simp add: evaluate_def allSpaces_def Let_def split: sum.splits prod.splits)

text \<open>
  Claim C3. When \<open>evaluate\<close> returns a cost, a second call on the formatter it leaves
  returns the same cost: the cost depends on the voices, the justify width and the
  durations, x positions and metrics of the tickables, none of which \<open>evaluate\<close>
  changes.
\<close>

theorem evaluate_twice_same_cost:
  assumes "evaluate s = Inr (cost, s')"
  shows "\<exists>s''. evaluate s' = Inr (cost, s'')"
proof -
  let ?sp = "allSpaces (justifyWidth s) (voices s) (store s, Map.empty)"
  from assms obtain m gt gs where
    g: "evaluateGaps (tc_list (tickContexts s)) (tc_map (tickContexts s), 0, []) = Inr (m, gt, gs)"
    unfolding evaluate_unfold by (auto split: sum.splits)
  from assms g obtain ob2 dev where
    d: "evaluateVoiceDeviations (snd ?sp) (voices s) (fst ?sp, 0) = Inr (ob2, dev)"
    unfolding evaluate_unfold by (auto split: sum.splits)
  let ?S = "s\<lparr>contextGaps_total := gt, contextGaps_gaps := gs,
                    tickContexts := (tickContexts s)\<lparr>tc_map := m\<rparr>,
                    durationStats := snd ?sp, store := ob2, totalCost := sqrt dev,
                    lossHistory := lossHistory s @ [sqrt dev]\<rparr>"
  have "evaluate s = Inr (sqrt dev, ?S)"
    unfolding evaluate_unfold by (simp add: g d)
  with assms[symmetric] have "Inr (cost, s') = (Inr (sqrt dev, ?S) :: error + real \<times> Formatter)"
    by (rule trans)
  then have eq: "(cost, s') = (sqrt dev, ?S)" by (rule Inr_inject)
  then have cost: "cost = sqrt dev" by (rule Pair_inject)
  from eq have s': "s' = ?S" by (rule Pair_inject)
  have sel: "tc_list (tickContexts s') = tc_list (tickContexts s)"
    "tc_map (tickContexts s') = m" "justifyWidth s' = justifyWidth s"
    "voices s' = voices s" "store s' = ob2"
    by (simp_all add: s')
  let ?sp' = "allSpaces (justifyWidth s) (voices s) (ob2, Map.empty)"
  have "dom (fst (m, 0::real, []::(real \<times> real) list))
        = dom (fst (tc_map (tickContexts s), 0::real, []::(real \<times> real) list))"
    using evaluateGaps_domain[OF g] by simp
  from evaluateGaps_succeeds[OF g this] obtain m' gt' gs' where
    g': "evaluateGaps (tc_list (tickContexts s)) (m, 0, []) = Inr (m', gt', gs')"
    by (metis prod_cases3)
  have p1: "samePlacement (store s) (fst ?sp)" by (rule allSpaces_placement)
  have all: "(\<Union>v \<in> set (voices s). set (tickables v)) \<subseteq> (\<Union>v \<in> set (voices s). set (tickables v))"
    by simp
  have u0: "sameSpaceUsed (\<Union>v \<in> set (voices s). set (tickables v)) (fst ?sp) (fst ?sp)"
    by (simp add: sameSpaceUsed_def)
  have refl_p: "samePlacement (fst ?sp) (fst ?sp)" by (simp add: samePlacement_def)
  from evaluateVoiceDeviations_related[OF refl_p u0 all d]
  have p2: "samePlacement (fst ?sp) ob2" by blast
  from p1 p2 have p: "samePlacement (store s) ob2" by (rule samePlacement_trans)
  have "sameSpaceUsed {} (store s) ob2" by (simp add: sameSpaceUsed_def)
  from allSpaces_related[OF p this, where justify = "justifyWidth s" and vs = "voices s"
                           and stats = Map.empty]
  have st: "snd ?sp' = snd ?sp" and pp: "samePlacement (fst ?sp) (fst ?sp')"
    and uu: "sameSpaceUsed (\<Union>v \<in> set (voices s). set (tickables v)) (fst ?sp) (fst ?sp')"
    by simp_all
  from evaluateVoiceDeviations_related[OF pp uu all d] obtain ob3 where
    d': "evaluateVoiceDeviations (snd ?sp) (voices s) (fst ?sp', 0) = Inr (ob3, dev)"
    by blast
  show ?thesis
    unfolding evaluate_unfold sel by (simp add: g' st d' cost)
qed


text \<open>
  Two quarter notes at 0 and 30 in a width of 80 use 30 and 50; the mean is 40 and the
  cost is the square root of 200, both times.
\<close>

theorem evaluate_twice_same_cost_witness:
  "\<exists>s' s''. evaluate spacedQuarters = Inr (sqrt 200, s') \<and> evaluate s' = Inr (sqrt 200, s'')"
proof -
  have "map_sum id fst (evaluate spacedQuarters) = Inr (sqrt 200)"
    by (simp add: evaluate_def spacedQuarters_def newFormatter_def noOptions_def softVoice_def
        plainNote_def emptyTickContexts_def updateStats_def updateFormatterMetrics_def
        durationKey_def Fraction_simplify_def Let_def)
  then obtain s' where s': "evaluate spacedQuarters = Inr (sqrt 200, s')"
    by (cases "evaluate spacedQuarters") auto
  from evaluate_twice_same_cost [OF s'] s' show ?thesis by blast
qed

end
